(* ===== verification/Prelude.thy ===== *)
theory Prelude
  imports Main "HOL-Library.Sublist"
begin

text \<open>
  Shared vocabulary of the development: effectful computations (state passing with
  exceptions that keep the state reached so far, as in Python), a small Hoare calculus
  for them, Python dictionaries as association lists in insertion order, and the string
  operations the sources use.  Components import this theory and use its collections
  \<open>io_defs\<close> (the computation combinators), \<open>hoare_rules\<close>, \<open>keeps_rules\<close> and
  \<open>stable_rules\<close> (the proof rules) and
  \<open>dict_simps\<close>.
\<close>

named_theorems io_defs
named_theorems hoare_rules
named_theorems dict_simps
named_theorems keeps_rules
named_theorems stable_rules

section \<open>Effectful computations\<close>

text \<open>
  A coroutine of the sources is a function from a state to an outcome and the state
  reached: \<open>Inl e\<close> is a raised exception, \<open>Inr x\<close> a returned value.  State changes
  made before an exception is raised remain, as they do in Python.
\<close>

type_synonym ('w, 'e, 'a) io = "'w \<Rightarrow> ('e + 'a) \<times> 'w"

definition ret :: "'a \<Rightarrow> ('w, 'e, 'a) io" where
  "ret x = (\<lambda>w. (Inr x, w))"

definition raise_io :: "'e \<Rightarrow> ('w, 'e, 'a) io" where
  "raise_io e = (\<lambda>w. (Inl e, w))"

definition bind_io :: "('w, 'e, 'a) io \<Rightarrow> ('a \<Rightarrow> ('w, 'e, 'b) io) \<Rightarrow> ('w, 'e, 'b) io" where
  "bind_io m f = (\<lambda>w. case m w of (Inl e, w') \<Rightarrow> (Inl e, w') | (Inr x, w') \<Rightarrow> f x w')"

text \<open>\<open>try: m except e: h e\<close>; a handler that does not apply raises \<open>e\<close> again.\<close>

definition catch_io :: "('w, 'e, 'a) io \<Rightarrow> ('e \<Rightarrow> ('w, 'e, 'a) io) \<Rightarrow> ('w, 'e, 'a) io" where
  "catch_io m h = (\<lambda>w. case m w of (Inl e, w') \<Rightarrow> h e w' | (Inr x, w') \<Rightarrow> (Inr x, w'))"

text \<open>\<open>try: m finally: f\<close> for a clean-up \<open>f\<close> that cannot raise.\<close>

definition finally_io :: "('w, 'e, 'a) io \<Rightarrow> ('w \<Rightarrow> 'w) \<Rightarrow> ('w, 'e, 'a) io" where
  "finally_io m f = (\<lambda>w. case m w of (r, w') \<Rightarrow> (r, f w'))"

definition modify_io :: "('w \<Rightarrow> 'w) \<Rightarrow> ('w, 'e, unit) io" where
  "modify_io f = (\<lambda>w. (Inr (), f w))"

definition gets_io :: "('w \<Rightarrow> 'a) \<Rightarrow> ('w, 'e, 'a) io" where
  "gets_io f = (\<lambda>w. (Inr (f w), w))"

definition lift_res :: "'e + 'a \<Rightarrow> ('w, 'e, 'a) io" where
  "lift_res r = (\<lambda>w. (r, w))"

definition when_io :: "bool \<Rightarrow> ('w, 'e, unit) io \<Rightarrow> ('w, 'e, unit) io" where
  "when_io b m = (if b then m else ret ())"

section \<open>Python dictionaries\<close>

text \<open>
  A dictionary whose iteration order matters is an association list in insertion order.
  Assigning to a key that is present keeps its position; \<open>dict_del\<close> is
  \<open>pop(key, None)\<close>.
\<close>

type_synonym ('k, 'v) dict = "('k \<times> 'v) list"

abbreviation dict_get :: "('k, 'v) dict \<Rightarrow> 'k \<Rightarrow> 'v option" where
  "dict_get d k \<equiv> map_of d k"

fun dict_set :: "'k \<Rightarrow> 'v \<Rightarrow> ('k, 'v) dict \<Rightarrow> ('k, 'v) dict" where
  "dict_set k v [] = [(k, v)]"
| "dict_set k v ((k', v') # d) = (if k = k' then (k, v) # d else (k', v') # dict_set k v d)"

definition dict_del :: "'k \<Rightarrow> ('k, 'v) dict \<Rightarrow> ('k, 'v) dict" where
  "dict_del k d = filter (\<lambda>(k', v'). k' \<noteq> k) d"

abbreviation dict_keys :: "('k, 'v) dict \<Rightarrow> 'k list" where
  "dict_keys d \<equiv> map fst d"

abbreviation dict_values :: "('k, 'v) dict \<Rightarrow> 'v list" where
  "dict_values d \<equiv> map snd d"

section \<open>Strings\<close>

text \<open>
  Python text is modelled by \<open>string\<close>, that is, by the code points below 256.
\<close>

fun str_contains :: "string \<Rightarrow> string \<Rightarrow> bool" where
  "str_contains [] sub = (sub = [])"
| "str_contains (c # cs) sub = (prefix sub (c # cs) \<or> str_contains cs sub)"

definition char_upper :: "char \<Rightarrow> char" where
  "char_upper c = (let n = (of_char c :: nat) in
     if 97 \<le> n \<and> n \<le> 122 then char_of (n - 32) else c)"

definition str_upper :: "string \<Rightarrow> string" where
  "str_upper s = map char_upper s"

definition char_lower :: "char \<Rightarrow> char" where
  "char_lower c = (let n = (of_char c :: nat) in
     if 65 \<le> n \<and> n \<le> 90 then char_of (n + 32) else c)"

definition str_lower :: "string \<Rightarrow> string" where
  "str_lower s = map char_lower s"

definition is_space :: "char \<Rightarrow> bool" where
  "is_space c = (let n = (of_char c :: nat) in
     (9 \<le> n \<and> n \<le> 13) \<or> (28 \<le> n \<and> n \<le> 32) \<or> n = 133 \<or> n = 160)"

definition str_strip :: "string \<Rightarrow> string" where
  "str_strip s = rev (dropWhile is_space (rev (dropWhile is_space s)))"

text \<open>\<open>str(n)\<close> for Python integers.\<close>

fun nat_digits :: "nat \<Rightarrow> string" where
  "nat_digits n = (if n < 10 then [char_of (48 + n)]
     else nat_digits (n div 10) @ [char_of (48 + n mod 10)])"

declare nat_digits.simps [simp del]

definition str_of_nat :: "nat \<Rightarrow> string" where
  "str_of_nat n = nat_digits n"

definition str_of_int :: "int \<Rightarrow> string" where
  "str_of_int i = (if i < 0 then CHR ''-'' # str_of_nat (nat (- i)) else str_of_nat (nat i))"

section \<open>Lemmas on computations\<close>

lemmas io_basic = ret_def raise_io_def bind_io_def catch_io_def finally_io_def modify_io_def
  gets_io_def lift_res_def when_io_def
declare io_basic [io_defs]

lemma map_sum_Inr: "map_sum id f r = Inr y \<longleftrightarrow> (\<exists>x. r = Inr x \<and> y = f x)"
  by (cases r) auto

lemma bind_io_ret [simp]: "bind_io (ret x) f = f x"
  by (simp add: io_defs fun_eq_iff)

lemma bind_io_raise [simp]: "bind_io (raise_io e) f = raise_io e"
  by (simp add: io_defs fun_eq_iff)

lemma bind_io_assoc: "bind_io (bind_io m f) g = bind_io m (\<lambda>x. bind_io (f x) g)"
  by (auto simp: io_defs fun_eq_iff split: prod.split sum.split)

lemma catch_io_ret [simp]: "catch_io (ret x) h = ret x"
  by (simp add: io_defs fun_eq_iff)

lemma catch_io_raise [simp]: "catch_io (raise_io e) h = h e"
  by (simp add: io_defs fun_eq_iff)

subsection \<open>A Hoare calculus\<close>

text \<open>
  \<open>hoare P m Q E\<close>: from every state that satisfies \<open>P\<close>, if \<open>m\<close> returns \<open>x\<close> the state
  reached satisfies \<open>Q x\<close>, and if it raises \<open>e\<close> the state satisfies \<open>E e\<close>.  Computations
  are total functions, so this is total correctness.
\<close>

definition hoare :: "('w \<Rightarrow> bool) \<Rightarrow> ('w, 'e, 'a) io \<Rightarrow> ('a \<Rightarrow> 'w \<Rightarrow> bool) \<Rightarrow>
    ('e \<Rightarrow> 'w \<Rightarrow> bool) \<Rightarrow> bool" where
  "hoare P m Q E = (\<forall>w. P w \<longrightarrow>
     (case m w of (Inr x, w') \<Rightarrow> Q x w' | (Inl e, w') \<Rightarrow> E e w'))"

lemma hoareI:
  assumes "\<And>w x w'. P w \<Longrightarrow> m w = (Inr x, w') \<Longrightarrow> Q x w'"
    and "\<And>w e w'. P w \<Longrightarrow> m w = (Inl e, w') \<Longrightarrow> E e w'"
  shows "hoare P m Q E"
  using assms by (auto simp: hoare_def split: prod.split sum.split)

lemma hoareD_ret: "hoare P m Q E \<Longrightarrow> P w \<Longrightarrow> m w = (Inr x, w') \<Longrightarrow> Q x w'"
  by (force simp: hoare_def)

lemma hoareD_raise: "hoare P m Q E \<Longrightarrow> P w \<Longrightarrow> m w = (Inl e, w') \<Longrightarrow> E e w'"
  by (force simp: hoare_def)

lemma hoare_cases:
  assumes "hoare P m Q E" and "P w"
  obtains (ret) x w' where "m w = (Inr x, w')" "Q x w'"
    | (raise) e w' where "m w = (Inl e, w')" "E e w'"
  using assms by (cases "m w"; cases "fst (m w)") (auto simp: hoare_def)

lemma hoare_weaken:
  assumes "hoare P' m Q' E'"
    and "\<And>w. P w \<Longrightarrow> P' w" and "\<And>x w. Q' x w \<Longrightarrow> Q x w" and "\<And>e w. E' e w \<Longrightarrow> E e w"
  shows "hoare P m Q E"
proof (rule hoareI)
  show "Q x w'" if "P w" "m w = (Inr x, w')" for w x w'
    using that assms by (blast dest: hoareD_ret)
  show "E e w'" if "P w" "m w = (Inl e, w')" for w e w'
    using that assms by (blast dest: hoareD_raise)
qed

lemma hoare_pre: "hoare P' m Q E \<Longrightarrow> (\<And>w. P w \<Longrightarrow> P' w) \<Longrightarrow> hoare P m Q E"
  by (rule hoare_weaken)

lemma hoare_post:
  "hoare P m Q' E' \<Longrightarrow> (\<And>x w. Q' x w \<Longrightarrow> Q x w) \<Longrightarrow> (\<And>e w. E' e w \<Longrightarrow> E e w) \<Longrightarrow> hoare P m Q E"
  by (rule hoare_weaken)

lemma hoare_ret [hoare_rules]: "(\<And>w. P w \<Longrightarrow> Q x w) \<Longrightarrow> hoare P (ret x) Q E"
  by (auto simp: hoare_def io_defs)

lemma hoare_raise [hoare_rules]: "(\<And>w. P w \<Longrightarrow> E e w) \<Longrightarrow> hoare P (raise_io e) Q E"
  by (auto simp: hoare_def io_defs)

lemma hoare_bind:
  "hoare P m R E \<Longrightarrow> (\<And>x. hoare (R x) (f x) Q E) \<Longrightarrow> hoare P (bind_io m f) Q E"
  by (fastforce simp: hoare_def bind_io_def split: prod.splits sum.splits)

lemma hoare_catch:
  "hoare P m Q R \<Longrightarrow> (\<And>e. hoare (R e) (h e) Q E) \<Longrightarrow> hoare P (catch_io m h) Q E"
  by (fastforce simp: hoare_def catch_io_def split: prod.splits sum.splits)

lemma hoare_finally:
  "hoare P m (\<lambda>x w. Q x (f w)) (\<lambda>e w. E e (f w)) \<Longrightarrow> hoare P (finally_io m f) Q E"
  by (fastforce simp: hoare_def finally_io_def split: prod.splits sum.splits)

lemma hoare_modify [hoare_rules]: "(\<And>w. P w \<Longrightarrow> Q () (f w)) \<Longrightarrow> hoare P (modify_io f) Q E"
  by (auto simp: hoare_def io_defs)

lemma hoare_gets [hoare_rules]: "(\<And>w. P w \<Longrightarrow> Q (f w) w) \<Longrightarrow> hoare P (gets_io f) Q E"
  by (auto simp: hoare_def io_defs)

lemma hoare_lift_res [hoare_rules]:
  "(\<And>w x. P w \<Longrightarrow> r = Inr x \<Longrightarrow> Q x w) \<Longrightarrow> (\<And>w e. P w \<Longrightarrow> r = Inl e \<Longrightarrow> E e w) \<Longrightarrow>
   hoare P (lift_res r) Q E"
  by (auto simp: hoare_def io_defs split: sum.splits)

lemma hoare_when:
  "(b \<Longrightarrow> hoare P m Q E) \<Longrightarrow> (\<And>w. \<not> b \<Longrightarrow> P w \<Longrightarrow> Q () w) \<Longrightarrow> hoare P (when_io b m) Q E"
  by (auto simp: hoare_def io_defs)

lemma hoare_if:
  "(b \<Longrightarrow> hoare P m Q E) \<Longrightarrow> (\<not> b \<Longrightarrow> hoare P m' Q E) \<Longrightarrow> hoare P (if b then m else m') Q E"
  by simp

lemma hoare_fact: "(\<And>w. P w \<Longrightarrow> F) \<Longrightarrow> (F \<Longrightarrow> hoare P m Q E) \<Longrightarrow> hoare P m Q E"
  by (auto simp: hoare_def)

lemma hoare_conj:
  assumes "hoare P m Q E" and "hoare P' m Q' E'"
  shows "hoare (\<lambda>w. P w \<and> P' w) m (\<lambda>x w. Q x w \<and> Q' x w) (\<lambda>e w. E e w \<and> E' e w)"
  using assms by (fastforce simp: hoare_def split: prod.splits sum.splits)

subsection \<open>Computations that leave a part of the state alone\<close>

definition keeps :: "('w \<Rightarrow> 'v) \<Rightarrow> ('w, 'e, 'a) io \<Rightarrow> bool" where
  "keeps v m = (\<forall>w. v (snd (m w)) = v w)"

lemma keepsI: "(\<And>w x w'. m w = (x, w') \<Longrightarrow> v w' = v w) \<Longrightarrow> keeps v m"
  by (metis keeps_def surjective_pairing)

lemma keepsD: "keeps v m \<Longrightarrow> m w = (x, w') \<Longrightarrow> v w' = v w"
  by (metis keeps_def snd_conv)

lemma keeps_hoare: "keeps v m \<Longrightarrow> hoare (\<lambda>w. P (v w)) m (\<lambda>x w. P (v w)) (\<lambda>e w. P (v w))"
  by (rule hoareI) (auto dest: keepsD)

lemma keeps_ret [keeps_rules]: "keeps v (ret x)"
  by (simp add: keeps_def ret_def)

lemma keeps_raise [keeps_rules]: "keeps v (raise_io e)"
  by (simp add: keeps_def raise_io_def)

lemma keeps_bind [keeps_rules]: "keeps v m \<Longrightarrow> (\<And>x. keeps v (f x)) \<Longrightarrow> keeps v (bind_io m f)"
  by (auto simp: keeps_def bind_io_def split: prod.splits sum.splits) (metis snd_conv)+

lemma keeps_catch [keeps_rules]: "keeps v m \<Longrightarrow> (\<And>e. keeps v (h e)) \<Longrightarrow> keeps v (catch_io m h)"
  by (auto simp: keeps_def catch_io_def split: prod.splits sum.splits) (metis snd_conv)+

lemma keeps_finally [keeps_rules]: "keeps v m \<Longrightarrow> (\<And>w. v (f w) = v w) \<Longrightarrow> keeps v (finally_io m f)"
  by (auto simp: keeps_def finally_io_def split: prod.splits) (metis snd_conv)

lemma keeps_modify [keeps_rules]: "(\<And>w. v (f w) = v w) \<Longrightarrow> keeps v (modify_io f)"
  by (simp add: keeps_def modify_io_def)

lemma keeps_gets [keeps_rules]: "keeps v (gets_io f)"
  by (simp add: keeps_def gets_io_def)

lemma keeps_lift_res [keeps_rules]: "keeps v (lift_res r)"
  by (simp add: keeps_def lift_res_def)

lemma keeps_when [keeps_rules]: "(b \<Longrightarrow> keeps v m) \<Longrightarrow> keeps v (when_io b m)"
  by (simp add: when_io_def keeps_ret)

lemma keeps_if [keeps_rules]: "(b \<Longrightarrow> keeps v m) \<Longrightarrow> (\<not> b \<Longrightarrow> keeps v m') \<Longrightarrow> keeps v (if b then m else m')"
  by simp

lemma keeps_case_option [keeps_rules]:
  "(x = None \<Longrightarrow> keeps v m) \<Longrightarrow> (\<And>y. x = Some y \<Longrightarrow> keeps v (f y)) \<Longrightarrow>
   keeps v (case x of None \<Rightarrow> m | Some y \<Rightarrow> f y)"
  by (cases x) auto

lemma hoare_frame:
  "hoare P m Q E \<Longrightarrow> keeps v m \<Longrightarrow>
   hoare (\<lambda>w. P w \<and> F (v w)) m (\<lambda>x w. Q x w \<and> F (v w)) (\<lambda>e w. E e w \<and> F (v w))"
  by (rule hoare_conj) (assumption | rule keeps_hoare)+

subsection \<open>Computations that preserve an assertion\<close>

definition stable :: "('w \<Rightarrow> bool) \<Rightarrow> ('w, 'e, 'a) io \<Rightarrow> bool" where
  "stable P m = (\<forall>w. P w \<longrightarrow> P (snd (m w)))"

lemma stableI: "(\<And>w x w'. P w \<Longrightarrow> m w = (x, w') \<Longrightarrow> P w') \<Longrightarrow> stable P m"
  by (metis stable_def surjective_pairing)

lemma stableD: "stable P m \<Longrightarrow> P w \<Longrightarrow> m w = (x, w') \<Longrightarrow> P w'"
  by (metis stable_def snd_conv)

lemma stable_hoare: "stable P m \<Longrightarrow> hoare P m (\<lambda>x. P) (\<lambda>e. P)"
  by (rule hoareI) (blast dest: stableD)+

lemma hoare_stable: "hoare P m (\<lambda>x. P) (\<lambda>e. P) \<Longrightarrow> stable P m"
  by (rule stableI) (metis hoareD_ret hoareD_raise sum.exhaust)

lemma stable_keeps: "keeps v m \<Longrightarrow> stable (\<lambda>w. P (v w)) m"
  by (rule stableI) (metis keepsD)

lemma stable_conj: "stable P m \<Longrightarrow> stable Q m \<Longrightarrow> stable (\<lambda>w. P w \<and> Q w) m"
  by (simp add: stable_def)

lemma stable_ret [stable_rules]: "stable P (ret x)"
  by (simp add: stable_def ret_def)

lemma stable_raise [stable_rules]: "stable P (raise_io e)"
  by (simp add: stable_def raise_io_def)

lemma stable_bind [stable_rules]: "stable P m \<Longrightarrow> (\<And>x. stable P (f x)) \<Longrightarrow> stable P (bind_io m f)"
  by (auto simp: stable_def bind_io_def split: prod.splits sum.splits)

lemma stable_catch [stable_rules]: "stable P m \<Longrightarrow> (\<And>e. stable P (h e)) \<Longrightarrow> stable P (catch_io m h)"
  by (auto simp: stable_def catch_io_def split: prod.splits sum.splits)

lemma stable_finally [stable_rules]: "stable P m \<Longrightarrow> (\<And>w. P w \<Longrightarrow> P (f w)) \<Longrightarrow> stable P (finally_io m f)"
  by (auto simp: stable_def finally_io_def split: prod.splits)

lemma stable_modify [stable_rules]: "(\<And>w. P w \<Longrightarrow> P (f w)) \<Longrightarrow> stable P (modify_io f)"
  by (simp add: stable_def modify_io_def)

lemma stable_gets [stable_rules]: "stable P (gets_io f)"
  by (simp add: stable_def gets_io_def)

lemma stable_lift_res [stable_rules]: "stable P (lift_res r)"
  by (simp add: stable_def lift_res_def)

lemma stable_when [stable_rules]: "(b \<Longrightarrow> stable P m) \<Longrightarrow> stable P (when_io b m)"
  by (simp add: when_io_def stable_ret)

lemma stable_if [stable_rules]: "(b \<Longrightarrow> stable P m) \<Longrightarrow> (\<not> b \<Longrightarrow> stable P m') \<Longrightarrow> stable P (if b then m else m')"
  by simp

lemma stable_case_option [stable_rules]:
  "(x = None \<Longrightarrow> stable P m) \<Longrightarrow> (\<And>y. x = Some y \<Longrightarrow> stable P (f y)) \<Longrightarrow>
   stable P (case x of None \<Rightarrow> m | Some y \<Rightarrow> f y)"
  by (cases x) auto

section \<open>Lemmas on dictionaries\<close>

lemma dict_get_set [simp, dict_simps]:
  "dict_get (dict_set k v d) k' = (if k' = k then Some v else dict_get d k')"
  by (induction k v d rule: dict_set.induct) auto

lemma dict_get_del [simp, dict_simps]:
  "dict_get (dict_del k d) k' = (if k' = k then None else dict_get d k')"
  by (induction d) (auto simp: dict_del_def)

lemma dict_keys_set [dict_simps]:
  "dict_keys (dict_set k v d) = (if k \<in> set (dict_keys d) then dict_keys d else dict_keys d @ [k])"
  by (induction k v d rule: dict_set.induct) auto

lemma distinct_dict_set [simp, intro]:
  "distinct (dict_keys d) \<Longrightarrow> distinct (dict_keys (dict_set k v d))"
  by (simp add: dict_keys_set)

lemma distinct_dict_del [simp, intro]:
  "distinct (dict_keys d) \<Longrightarrow> distinct (dict_keys (dict_del k d))"
  by (induction d) (auto simp: dict_del_def)

lemma dict_set_new: "k \<notin> set (dict_keys d) \<Longrightarrow> dict_set k v d = d @ [(k, v)]"
  by (induction k v d rule: dict_set.induct) auto

lemma set_dict_set:
  "distinct (dict_keys d) \<Longrightarrow> set (dict_set k v d) = insert (k, v) {p \<in> set d. fst p \<noteq> k}"
proof (induction d)
  case Nil
  then show ?case by simp
next
  case (Cons p d)
  then show ?case by (cases p) force
qed

lemma in_dict_keys_get: "(k \<in> set (dict_keys d)) = (dict_get d k \<noteq> None)"
  by (simp add: map_of_eq_None_iff)

section \<open>Lemmas on strings\<close>

lemma str_contains_sublist: "str_contains s sub \<longleftrightarrow> sublist sub s"
  by (induction s) (auto simp: sublist_Cons_right)

lemma length_str_upper [simp]: "length (str_upper s) = length s"
  by (simp add: str_upper_def)

lemma length_str_strip_le: "length (str_strip s) \<le> length s"
  by (metis str_strip_def length_rev length_dropWhile_le order_trans)

lemma str_strip_eq_Nil: "str_strip s = [] \<longleftrightarrow> (\<forall>c \<in> set s. is_space c)"
proof -
  have "str_strip s = [] \<longleftrightarrow> dropWhile is_space s = []"
  proof
    assume "str_strip s = []"
    then have all: "\<forall>c \<in> set (dropWhile is_space s). is_space c"
      by (simp add: str_strip_def)
    show "dropWhile is_space s = []"
    proof (rule ccontr)
      assume ne: "dropWhile is_space s \<noteq> []"
      then have "\<not> is_space (hd (dropWhile is_space s))"
        by (rule hd_dropWhile)
      with all ne show False by simp
    qed
  qed (auto simp: str_strip_def dest: set_dropWhileD)
  then show ?thesis by simp
qed

end
