(* ===== verification/Json.thy ===== *)
theory Json
  imports Prelude "HOL-Library.Char_ord" "HOL-Library.List_Lexorder"
begin

text \<open>
  JSON values as the sources handle them (the result of \<open>json.loads\<close> or of
  \<open>model_dump(mode="json")\<close>) and the serializer \<open>json.dumps\<close> with \<open>sort_keys=True\<close> and
  \<open>ensure_ascii=True\<close>, which the audit log, the worker signature and the tool results
  use.  A float is represented by the text that \<open>json.dumps\<close> prints for it.
\<close>

section \<open>Values\<close>

datatype json =
    JNull
  | JBool bool
  | JInt int
  | JFloat string
  | JStr string
  | JList "json list"
  | JObj "(string \<times> json) list"

type_synonym jdict = "(string, json) dict"

definition j_opt_str :: "string option \<Rightarrow> json" where
  "j_opt_str v = (case v of None \<Rightarrow> JNull | Some s \<Rightarrow> JStr s)"

fun is_jstr :: "json \<Rightarrow> bool" where
  "is_jstr (JStr _) = True"
| "is_jstr _ = False"

section \<open>Serialization\<close>

definition hex_digit :: "nat \<Rightarrow> char" where
  "hex_digit n = (if n < 10 then char_of (48 + n) else char_of (87 + n))"

text \<open>\<open>py_encode_basestring_ascii\<close>: characters outside the printable ASCII range are
  written as four hexadecimal digits.\<close>

definition json_escape :: "char \<Rightarrow> string" where
  "json_escape c = (let n = (of_char c :: nat) in
     if c = CHR 0x22 then [CHR 0x5C, CHR 0x22]
     else if c = CHR 0x5C then [CHR 0x5C, CHR 0x5C]
     else if n = 10 then [CHR 0x5C, CHR ''n'']
     else if n = 13 then [CHR 0x5C, CHR ''r'']
     else if n = 9 then [CHR 0x5C, CHR ''t'']
     else if n = 12 then [CHR 0x5C, CHR ''f'']
     else if n = 8 then [CHR 0x5C, CHR ''b'']
     else if 32 \<le> n \<and> n \<le> 126 then [c]
     else [CHR 0x5C, CHR ''u'', CHR ''0'', CHR ''0'', hex_digit (n div 16), hex_digit (n mod 16)])"

definition json_quote :: "string \<Rightarrow> string" where
  "json_quote s = CHR 0x22 # concat (map json_escape s) @ [CHR 0x22]"

fun join :: "string \<Rightarrow> string list \<Rightarrow> string" where
  "join sep [] = []"
| "join sep [x] = x"
| "join sep (x # y # zs) = x @ sep @ join sep (y # zs)"

primrec json_render :: "string \<Rightarrow> string \<Rightarrow> json \<Rightarrow> string" where
  "json_render isep ksep JNull = ''null''"
| "json_render isep ksep (JBool b) = (if b then ''true'' else ''false'')"
| "json_render isep ksep (JInt i) = str_of_int i"
| "json_render isep ksep (JFloat r) = r"
| "json_render isep ksep (JStr s) = json_quote s"
| "json_render isep ksep (JList xs) =
     CHR ''['' # join isep (map (json_render isep ksep) xs) @ '']''"
| "json_render isep ksep (JObj kvs) =
     CHR ''{'' # join isep (map (\<lambda>kv. json_quote (fst kv) @ ksep @ snd kv)
        (map (map_prod id (json_render isep ksep)) kvs)) @ ''}''"

text \<open>The effect of \<open>sort_keys=True\<close> at every level.\<close>

primrec json_sort :: "json \<Rightarrow> json" where
  "json_sort JNull = JNull"
| "json_sort (JBool b) = JBool b"
| "json_sort (JInt i) = JInt i"
| "json_sort (JFloat r) = JFloat r"
| "json_sort (JStr s) = JStr s"
| "json_sort (JList xs) = JList (map json_sort xs)"
| "json_sort (JObj kvs) = JObj (sort_key fst (map (map_prod id json_sort) kvs))"

text \<open>\<open>json.dumps(v, sort_keys=True)\<close> with the default separators, and with the compact
  ones that the digests use.\<close>

definition json_dumps :: "json \<Rightarrow> string" where
  "json_dumps v = json_render '', '' '': '' (json_sort v)"

definition json_dumps_compact :: "json \<Rightarrow> string" where
  "json_dumps_compact v = json_render '','' '':'' (json_sort v)"

lemma map_of_sort_key: "distinct (map fst xs) \<Longrightarrow> map_of (sort_key fst xs) = map_of xs"
  by (rule map_of_inject_set [THEN iffD2]) (simp_all add: distinct_map)

lemma json_sort_get:
  assumes "distinct (dict_keys d)"
  shows "dict_get (sort_key fst (map (map_prod id json_sort) d)) k = map_option json_sort (dict_get d k)"
proof -
  have "dict_get (map (map_prod id json_sort) d) k = map_option json_sort (dict_get d k)" by (induction d) auto
  then show ?thesis using map_of_sort_key [of "map (map_prod id json_sort) d"] assms by simp
qed

section \<open>Field access and \<open>str\<close>\<close>

text \<open>\<open>value.get(key)\<close> where \<open>value\<close> may be anything: \<open>None\<close> when it is not an object or
  has no such key.\<close>

fun jfield :: "json \<Rightarrow> string \<Rightarrow> json option" where
  "jfield (JObj kvs) k = map_of kvs k"
| "jfield _ k = None"

text \<open>\<open>repr\<close> of a string and \<open>str\<close> of a decoded JSON value.\<close>

definition py_repr_char :: "char \<Rightarrow> char \<Rightarrow> string" where
  "py_repr_char q c = (let n = (of_char c :: nat) in
     if c = q \<or> c = CHR 0x5C then [CHR 0x5C, c]
     else if n = 10 then [CHR 0x5C, CHR ''n'']
     else if n = 13 then [CHR 0x5C, CHR ''r'']
     else if n = 9 then [CHR 0x5C, CHR ''t'']
     else if n < 32 \<or> (127 \<le> n \<and> n \<le> 160) \<or> n = 173
     then [CHR 0x5C, CHR ''x'', hex_digit (n div 16), hex_digit (n mod 16)]
     else [c])"

definition py_repr_str :: "string \<Rightarrow> string" where
  "py_repr_str s = (let q = (if CHR 0x27 \<in> set s \<and> CHR 0x22 \<notin> set s then CHR 0x22 else CHR 0x27)
     in q # concat (map (py_repr_char q) s) @ [q])"

primrec py_repr :: "json \<Rightarrow> string" where
  "py_repr JNull = ''None''"
| "py_repr (JBool b) = (if b then ''True'' else ''False'')"
| "py_repr (JInt i) = str_of_int i"
| "py_repr (JFloat r) = (if r = ''NaN'' then ''nan'' else if r = ''Infinity'' then ''inf''
     else if r = ''-Infinity'' then ''-inf'' else r)"
| "py_repr (JStr s) = py_repr_str s"
| "py_repr (JList xs) = CHR ''['' # join '', '' (map py_repr xs) @ '']''"
| "py_repr (JObj kvs) = CHR ''{'' # join '', '' (map (\<lambda>kv. py_repr_str (fst kv) @ '': '' @ snd kv)
     (map (map_prod id py_repr) kvs)) @ ''}''"

fun py_str :: "json \<Rightarrow> string" where
  "py_str (JStr s) = s"
| "py_str v = py_repr v"

section \<open>Lemmas\<close>

lemma keys_map_prod [simp]: "dict_keys (map (map_prod id f) d) = dict_keys d"
  by (induction d) auto

lemma inj_on_fst_dict: "distinct (dict_keys d) \<Longrightarrow> inj_on fst (set d)"
  by (simp add: distinct_map)

text \<open>The canonical text of a dictionary does not depend on its insertion order.\<close>

lemma json_sort_order_irrelevant:
  assumes "distinct (dict_keys d)" and "distinct (dict_keys d')" and "set d = set d'"
  shows "json_sort (JObj d) = json_sort (JObj d')"
proof -
  let ?s = "\<lambda>e. sort_key fst (map (map_prod id json_sort) e)"
  have "?s d = ?s d'"
  proof (rule map_sorted_distinct_set_unique)
    have "distinct (dict_keys (map (map_prod id json_sort) d))"
      using assms(1) by simp
    then show "inj_on fst (set (?s d) \<union> set (?s d'))"
      using assms(3) by (metis Un_absorb image_set inj_on_fst_dict set_sort)
    show "sorted (map fst (?s d))" "sorted (map fst (?s d'))"
      by simp_all
    show "distinct (map fst (?s d))" "distinct (map fst (?s d'))"
      using assms(1,2) by (metis distinct_map distinct_sort keys_map_prod set_sort)+
    show "set (?s d) = set (?s d')"
      using assms(3) by simp
  qed
  then show ?thesis by simp
qed

lemma json_dumps_order_irrelevant:
  assumes "distinct (dict_keys d)" and "distinct (dict_keys d')" and "set d = set d'"
  shows "json_dumps_compact (JObj d) = json_dumps_compact (JObj d')"
  using json_sort_order_irrelevant [OF assms] by (simp add: json_dumps_compact_def)

end
