(* ===== verification/Models.thy ===== *)
theory Models
  imports Json
begin

text \<open>
  The shared data models (\<open>gateway/models.py\<close>), the exception hierarchy
  (\<open>gateway/errors.py\<close>) and the policy outcomes (\<open>gateway/policy/decisions.py\<close>).
  Enumerations are datatypes with their string values, models are records, and every
  exception class is a constructor.  A timestamp is an \<open>int\<close>: microseconds since the
  epoch, the resolution of \<open>datetime\<close>.  How pydantic prints a timestamp is the parameter
  \<open>tfmt\<close> of the dump functions.
\<close>

type_synonym timestamp = int

section \<open>Enumerations\<close>

datatype risk_class = READ_ONLY | MUTATING | DESTRUCTIVE

fun risk_value :: "risk_class \<Rightarrow> string" where
  "risk_value READ_ONLY = ''read_only''"
| "risk_value MUTATING = ''mutating''"
| "risk_value DESTRUCTIVE = ''destructive''"

datatype role = USER | OPERATOR | ADMIN

fun role_value :: "role \<Rightarrow> string" where
  "role_value USER = ''user''"
| "role_value OPERATOR = ''operator''"
| "role_value ADMIN = ''admin''"

datatype tool_call_state =
    RECEIVED | VALIDATED | POLICY_CHECKED | AWAITING_APPROVAL | EXECUTING
  | SUCCEEDED | FAILED | DENIED

fun state_value :: "tool_call_state \<Rightarrow> string" where
  "state_value RECEIVED = ''received''"
| "state_value VALIDATED = ''validated''"
| "state_value POLICY_CHECKED = ''policy_checked''"
| "state_value AWAITING_APPROVAL = ''awaiting_approval''"
| "state_value EXECUTING = ''executing''"
| "state_value SUCCEEDED = ''succeeded''"
| "state_value FAILED = ''failed''"
| "state_value DENIED = ''denied''"

datatype repair_failure =
    SCHEMA_MISMATCH | MALFORMED_JSON | MISSING_REQUIRED_FIELD | TYPE_COERCION
  | TIMEOUT | SANDBOX_CRASH | POLICY_DENIED | TOOL_ERROR

fun failure_value :: "repair_failure \<Rightarrow> string" where
  "failure_value SCHEMA_MISMATCH = ''schema_mismatch''"
| "failure_value MALFORMED_JSON = ''malformed_json''"
| "failure_value MISSING_REQUIRED_FIELD = ''missing_required_field''"
| "failure_value TYPE_COERCION = ''type_coercion''"
| "failure_value TIMEOUT = ''timeout''"
| "failure_value SANDBOX_CRASH = ''sandbox_crash''"
| "failure_value POLICY_DENIED = ''policy_denied''"
| "failure_value TOOL_ERROR = ''tool_error''"

text \<open>Iterating over \<open>Role\<close>, as \<open>{item.value for item in Role}\<close> does, is the list
  \<open>Enum.enum\<close>.\<close>

instantiation role :: enum
begin

definition "enum_role = [USER, OPERATOR, ADMIN]"
definition "enum_all_role P = list_all P [USER, OPERATOR, ADMIN]"
definition "enum_ex_role P = list_ex P [USER, OPERATOR, ADMIN]"

instance
proof
  have all: "r = USER \<or> r = OPERATOR \<or> r = ADMIN" for r :: role
    by (cases r) auto
  show "UNIV = set (Enum.enum :: role list)"
    using all by (auto simp: enum_role_def)
  show "distinct (Enum.enum :: role list)"
    by (simp add: enum_role_def)
  show "Enum.enum_all P \<longleftrightarrow> Ball UNIV P" for P :: "role \<Rightarrow> bool"
    by (simp add: enum_all_role_def) (metis all)
  show "Enum.enum_ex P \<longleftrightarrow> Bex UNIV P" for P :: "role \<Rightarrow> bool"
    by (simp add: enum_ex_role_def) (metis all)
qed

end

section \<open>Records\<close>

record principal =
  p_subject :: string
  p_tenant_id :: string
  p_roles :: "role list"
  p_issuer :: "string option"
  p_agent_id :: "string option"

definition has_role :: "principal \<Rightarrow> role \<Rightarrow> bool" where
  "has_role p r = (r \<in> set (p_roles p))"

text \<open>The field constraints of \<open>Principal\<close>.\<close>

definition principal_ok :: "principal \<Rightarrow> bool" where
  "principal_ok p = (1 \<le> length (p_subject p) \<and> length (p_subject p) \<le> 256 \<and>
     1 \<le> length (p_tenant_id p) \<and> length (p_tenant_id p) \<le> 256 \<and> p_roles p \<noteq> [])"

record state_transition =
  st_state :: tool_call_state
  st_timestamp :: timestamp
  st_error :: "string option"

record attempt_record =
  ar_attempt :: nat
  ar_started_at :: timestamp
  ar_finished_at :: "timestamp option"
  ar_outcome :: "string option"
  ar_error :: "string option"

record repair_attempt_record =
  rr_category :: repair_failure
  rr_original_arguments :: jdict
  rr_proposed_arguments :: jdict
  rr_validation_passed :: bool
  rr_policy_outcome :: "string option"
  rr_outcome :: string

record tool_call_record =
  tc_call_id :: string
  tc_trace_id :: string
  tc_session_id :: string
  tc_tool_name :: string
  tc_risk_class :: "risk_class option"
  tc_arguments :: jdict
  tc_current_state :: tool_call_state
  tc_transitions :: "state_transition list"
  tc_attempts :: "attempt_record list"
  tc_created_at :: timestamp
  tc_updated_at :: timestamp
  tc_principal :: "principal option"

record policy_decision =
  pd_outcome :: string
  pd_matched_rule :: string
  pd_reason :: string

record approval_request =
  ap_approval_id :: string
  ap_call_id :: string
  ap_tool_name :: string
  ap_arguments :: jdict
  ap_policy_input :: jdict
  ap_matched_rule :: string
  ap_created_at :: timestamp
  ap_decision :: "string option"
  ap_approver :: "string option"
  ap_reason :: "string option"

record error_issue =
  ei_location :: "json list"
  ei_error_type :: string
  ei_message :: string

record error_detail =
  ed_code :: string
  ed_message :: string
  ed_issues :: "error_issue list"

record audit_record =
  au_timestamp :: timestamp
  au_call_id :: string
  au_session_id :: string
  au_trace_id :: string
  au_tool_name :: string
  au_arguments :: jdict
  au_policy_input :: jdict
  au_policy_decision :: string
  au_matched_rule :: "string option"
  au_approver_identity :: "string option"
  au_sandbox_runtime :: string
  au_attempts :: "attempt_record list"
  au_repair_attempts :: "repair_attempt_record list"
  au_outcome :: string
  au_duration_ms :: string
  au_previous_hash :: string
  au_record_hash :: string
  au_principal :: "principal option"

section \<open>Exceptions\<close>

datatype gateway_error =
    AuthenticationError string
  | AuthorizationError string
  | ToolNotFoundError string
  | ToolInputError "error_issue list"
  | ToolNotEnabledError string
  | ToolExecutionError string
  | SandboxError string
  | SandboxTimeoutError
  | NeedsReviewError string
  | StateStoreUnavailableError
  | PolicyDeniedError string
  | PolicyUnavailableError
  | ApprovalTimeoutError
  | ApprovalRejectedError string

fun error_code :: "gateway_error \<Rightarrow> string" where
  "error_code (AuthenticationError m) = ''authentication_failed''"
| "error_code (AuthorizationError m) = ''authorization_failed''"
| "error_code (ToolNotFoundError t) = ''tool_not_found''"
| "error_code (ToolInputError iss) = ''schema_validation''"
| "error_code (ToolNotEnabledError m) = ''tool_not_enabled''"
| "error_code (ToolExecutionError m) = ''tool_execution_failed''"
| "error_code (SandboxError m) = ''sandbox_error''"
| "error_code SandboxTimeoutError = ''sandbox_error''"
| "error_code (NeedsReviewError m) = ''needs_review''"
| "error_code StateStoreUnavailableError = ''state_store_unavailable''"
| "error_code (PolicyDeniedError r) = ''policy_denied''"
| "error_code PolicyUnavailableError = ''policy_unavailable''"
| "error_code ApprovalTimeoutError = ''approval_timeout''"
| "error_code (ApprovalRejectedError r) = ''approval_rejected''"

fun error_message :: "gateway_error \<Rightarrow> string" where
  "error_message (AuthenticationError m) = m"
| "error_message (AuthorizationError m) = m"
| "error_message (ToolNotFoundError t) = ''Unknown tool: '' @ t"
| "error_message (ToolInputError iss) = ''Tool arguments did not match the required schema''"
| "error_message (ToolNotEnabledError m) = m"
| "error_message (ToolExecutionError m) = m"
| "error_message (SandboxError m) = m"
| "error_message SandboxTimeoutError = ''Sandbox execution exceeded its wall-clock timeout''"
| "error_message (NeedsReviewError m) = m"
| "error_message StateStoreUnavailableError = ''The gateway could not persist tool-call state''"
| "error_message (PolicyDeniedError r) = r"
| "error_message PolicyUnavailableError = ''Policy evaluation is unavailable''"
| "error_message ApprovalTimeoutError = ''Approval timed out; the call was denied''"
| "error_message (ApprovalRejectedError r) = r"

fun error_issues :: "gateway_error \<Rightarrow> error_issue list" where
  "error_issues (ToolInputError iss) = iss"
| "error_issues _ = []"

definition error_response :: "gateway_error \<Rightarrow> error_detail" where
  "error_response e = \<lparr>ed_code = error_code e, ed_message = error_message e,
     ed_issues = error_issues e\<rparr>"

text \<open>
  What a coroutine can raise: an anticipated gateway error, any other \<open>Exception\<close> (its
  class and message), or \<open>asyncio.CancelledError\<close>, which is not an \<open>Exception\<close> and
  passes through \<open>except Exception\<close>.
\<close>

datatype exn = GatewayExn gateway_error | PyExn string string | CancelledExn

fun is_exception :: "exn \<Rightarrow> bool" where
  "is_exception CancelledExn = False"
| "is_exception _ = True"

fun exn_str :: "exn \<Rightarrow> string" where
  "exn_str (GatewayExn e) = error_message e"
| "exn_str (PyExn c m) = m"
| "exn_str CancelledExn = []"

abbreviation unavailable :: exn where
  "unavailable \<equiv> GatewayExn StateStoreUnavailableError"

type_synonym ('w, 'a) aio = "('w, exn, 'a) io"

definition mk_principal :: "string \<Rightarrow> string \<Rightarrow> role list \<Rightarrow> string option \<Rightarrow> string option \<Rightarrow>
    exn + principal" where
  "mk_principal sub tid rs iss aid =
     (let p = \<lparr>p_subject = sub, p_tenant_id = tid, p_roles = rs, p_issuer = iss, p_agent_id = aid\<rparr>
      in if principal_ok p then Inr p else Inl (PyExn ''ValidationError'' ''Principal''))"

section \<open>Policy outcomes\<close>

definition ALLOW :: string where "ALLOW = ''allow''"
definition REQUIRES_APPROVAL :: string where "REQUIRES_APPROVAL = ''requires_approval''"
definition DENY :: string where "DENY = ''deny''"

section \<open>Dumps\<close>

definition j_opt_time :: "(timestamp \<Rightarrow> string) \<Rightarrow> timestamp option \<Rightarrow> json" where
  "j_opt_time tfmt t = (case t of None \<Rightarrow> JNull | Some x \<Rightarrow> JStr (tfmt x))"

definition dump_principal :: "principal \<Rightarrow> jdict" where
  "dump_principal p =
    [(''subject'', JStr (p_subject p)), (''tenant_id'', JStr (p_tenant_id p)),
     (''roles'', JList (map (JStr \<circ> role_value) (p_roles p))),
     (''issuer'', j_opt_str (p_issuer p)), (''agent_id'', j_opt_str (p_agent_id p))]"

definition dump_attempt :: "(timestamp \<Rightarrow> string) \<Rightarrow> attempt_record \<Rightarrow> json" where
  "dump_attempt tfmt a = JObj
    [(''attempt'', JInt (int (ar_attempt a))), (''started_at'', JStr (tfmt (ar_started_at a))),
     (''finished_at'', j_opt_time tfmt (ar_finished_at a)),
     (''outcome'', j_opt_str (ar_outcome a)), (''error'', j_opt_str (ar_error a))]"

definition dump_repair :: "repair_attempt_record \<Rightarrow> json" where
  "dump_repair r = JObj
    [(''category'', JStr (failure_value (rr_category r))),
     (''original_arguments'', JObj (rr_original_arguments r)),
     (''proposed_arguments'', JObj (rr_proposed_arguments r)),
     (''validation_passed'', JBool (rr_validation_passed r)),
     (''policy_outcome'', j_opt_str (rr_policy_outcome r)), (''outcome'', JStr (rr_outcome r))]"

definition dump_issue :: "error_issue \<Rightarrow> json" where
  "dump_issue i = JObj [(''location'', JList (ei_location i)),
     (''error_type'', JStr (ei_error_type i)), (''message'', JStr (ei_message i))]"

definition dump_error :: "gateway_error \<Rightarrow> jdict" where
  "dump_error e = (let d = error_response e in
    [(''error'', JObj [(''code'', JStr (ed_code d)), (''message'', JStr (ed_message d)),
       (''issues'', JList (map dump_issue (ed_issues d)))])])"

definition dump_audit :: "(timestamp \<Rightarrow> string) \<Rightarrow> audit_record \<Rightarrow> jdict" where
  "dump_audit tfmt r =
    [(''timestamp'', JStr (tfmt (au_timestamp r))), (''call_id'', JStr (au_call_id r)),
     (''session_id'', JStr (au_session_id r)), (''trace_id'', JStr (au_trace_id r)),
     (''tool_name'', JStr (au_tool_name r)), (''arguments'', JObj (au_arguments r)),
     (''policy_input'', JObj (au_policy_input r)),
     (''policy_decision'', JStr (au_policy_decision r)),
     (''matched_rule'', j_opt_str (au_matched_rule r)),
     (''approver_identity'', j_opt_str (au_approver_identity r)),
     (''sandbox_runtime'', JStr (au_sandbox_runtime r)),
     (''attempts'', JList (map (dump_attempt tfmt) (au_attempts r))),
     (''repair_attempts'', JList (map dump_repair (au_repair_attempts r))),
     (''outcome'', JStr (au_outcome r)), (''duration_ms'', JFloat (au_duration_ms r)),
     (''previous_hash'', JStr (au_previous_hash r)), (''record_hash'', JStr (au_record_hash r)),
     (''principal'', (case au_principal r of None \<Rightarrow> JNull | Some p \<Rightarrow> JObj (dump_principal p)))]"

section \<open>Lemmas\<close>

lemma risk_value_inj [simp]: "risk_value a = risk_value b \<longleftrightarrow> a = b"
  by (cases a; cases b) auto

lemma role_value_inj [simp]: "role_value a = role_value b \<longleftrightarrow> a = b"
  by (cases a; cases b) auto

lemma state_value_inj [simp]: "state_value a = state_value b \<longleftrightarrow> a = b"
  by (cases a; cases b) auto

lemma set_enum_role [simp]: "set (Enum.enum :: role list) = UNIV"
  by (rule enum_UNIV)

lemma outcomes_distinct [simp]:
  "ALLOW \<noteq> REQUIRES_APPROVAL" "ALLOW \<noteq> DENY" "REQUIRES_APPROVAL \<noteq> DENY"
  "REQUIRES_APPROVAL \<noteq> ALLOW" "DENY \<noteq> ALLOW" "DENY \<noteq> REQUIRES_APPROVAL"
  by (simp_all add: ALLOW_def REQUIRES_APPROVAL_def DENY_def)

lemma mk_principal_ok: "mk_principal s t r i a = Inr p \<Longrightarrow> principal_ok p"
  by (auto simp: mk_principal_def Let_def split: if_splits)

lemma distinct_dump_audit: "distinct (dict_keys (dump_audit tfmt r))"
  by (simp add: dump_audit_def)

end
