(* ===== verification/State_Store.thy ===== *)
theory State_Store
  imports Models
begin

text \<open>
  The stores of tool-call state (\<open>gateway/state/redis_store.py\<close>): the protocol
  \<open>StateStore\<close> as a record of operations, the in-memory store, and the Redis store with
  its optimistic update loop.  The locale \<open>state_store_laws\<close> states what both promise
  to the gateway, also when an operation fails; \<open>reliable_store\<close> adds that operations on
  a stored call succeed, which holds for the in-memory store.
\<close>

section \<open>The protocol\<close>

record 's state_store =
  ss_create_call :: "tool_call_record \<Rightarrow> ('s, unit) aio"
  ss_transition :: "string \<Rightarrow> tool_call_state \<Rightarrow> string option \<Rightarrow> ('s, unit) aio"
  ss_finish_attempt :: "string \<Rightarrow> nat \<Rightarrow> string \<Rightarrow> string option \<Rightarrow> ('s, unit) aio"
  ss_start_attempt :: "string \<Rightarrow> nat \<Rightarrow> ('s, unit) aio"
  ss_get_call :: "string \<Rightarrow> ('s, tool_call_record option) aio"
  ss_list_session_calls :: "string \<Rightarrow> ('s, string list) aio"

section \<open>The updaters\<close>

text \<open>
  The functions \<open>update\<close> that the operations of both stores pass to \<open>_update\<close>.  They read
  the clock: \<open>now i\<close> is the value of the \<open>i\<close>-th call of \<open>utc_now()\<close> in this update.
\<close>

type_synonym updater = "(nat \<Rightarrow> timestamp) \<Rightarrow> tool_call_record \<Rightarrow> exn + tool_call_record"

definition upd_transition :: "tool_call_state \<Rightarrow> string option \<Rightarrow> updater" where
  "upd_transition state error now r = Inr (r\<lparr>tc_current_state := state, tc_updated_at := now 0,
     tc_transitions := tc_transitions r @
       [\<lparr>st_state = state, st_timestamp = now 0, st_error = error\<rparr>]\<rparr>)"

text \<open>The search through \<open>reversed(record.attempts)\<close> updates the last matching entry.\<close>

fun finish_last :: "nat \<Rightarrow> (attempt_record \<Rightarrow> attempt_record) \<Rightarrow> attempt_record list \<Rightarrow>
    attempt_record list option" where
  "finish_last n f [] = None"
| "finish_last n f (a # rest) = (case finish_last n f rest of
       Some rest' \<Rightarrow> Some (a # rest')
     | None \<Rightarrow> if ar_attempt a = n then Some (f a # rest) else None)"

definition upd_finish :: "nat \<Rightarrow> string \<Rightarrow> string option \<Rightarrow> updater" where
  "upd_finish n outcome error now r =
     (case finish_last n (\<lambda>a. a\<lparr>ar_finished_at := Some (now 0), ar_outcome := Some outcome,
          ar_error := error\<rparr>) (tc_attempts r) of
        None \<Rightarrow> Inl unavailable
      | Some as \<Rightarrow> Inr (r\<lparr>tc_attempts := as, tc_updated_at := now 1\<rparr>))"

definition upd_start :: "nat \<Rightarrow> updater" where
  "upd_start n now r = Inr (r\<lparr>tc_attempts := tc_attempts r @
       [\<lparr>ar_attempt = n, ar_started_at = now 0, ar_finished_at = None, ar_outcome = None,
         ar_error = None\<rparr>],
     tc_updated_at := now 1\<rparr>)"

section \<open>The in-memory store\<close>

text \<open>\<open>ms_clock i\<close> is the \<open>i\<close>-th reading of the clock, \<open>ms_ticks\<close> counts the readings.
  The lock serializes the operations, each of which is one step here.\<close>

record mem_store =
  ms_calls :: "string \<rightharpoonup> tool_call_record"
  ms_sessions :: "string \<rightharpoonup> string list"
  ms_clock :: "nat \<Rightarrow> timestamp"
  ms_ticks :: nat

definition mem_create_call :: "tool_call_record \<Rightarrow> (mem_store, unit) aio" where
  "mem_create_call r = modify_io (\<lambda>s. s\<lparr>ms_calls := (ms_calls s)(tc_call_id r \<mapsto> r),
     ms_sessions := (ms_sessions s)(tc_session_id r \<mapsto>
       (case ms_sessions s (tc_session_id r) of None \<Rightarrow> [] | Some l \<Rightarrow> l) @ [tc_call_id r])\<rparr>)"

definition mem_update :: "string \<Rightarrow> updater \<Rightarrow> (mem_store, unit) aio" where
  "mem_update call_id upd = (\<lambda>s.
     let now = (\<lambda>i. ms_clock s (ms_ticks s + i)); s' = s\<lparr>ms_ticks := ms_ticks s + 2\<rparr>
     in case ms_calls s call_id of
          None \<Rightarrow> (Inl unavailable, s)
        | Some r \<Rightarrow> (case upd now r of
              Inl e \<Rightarrow> (Inl e, s')
            | Inr r' \<Rightarrow> (Inr (), s'\<lparr>ms_calls := (ms_calls s)(call_id \<mapsto> r')\<rparr>)))"

definition mem_transition :: "string \<Rightarrow> tool_call_state \<Rightarrow> string option \<Rightarrow> (mem_store, unit) aio" where
  "mem_transition call_id state error = mem_update call_id (upd_transition state error)"

definition mem_finish_attempt ::
    "string \<Rightarrow> nat \<Rightarrow> string \<Rightarrow> string option \<Rightarrow> (mem_store, unit) aio" where
  "mem_finish_attempt call_id n outcome error = mem_update call_id (upd_finish n outcome error)"

definition mem_start_attempt :: "string \<Rightarrow> nat \<Rightarrow> (mem_store, unit) aio" where
  "mem_start_attempt call_id n = mem_update call_id (upd_start n)"

definition mem_get_call :: "string \<Rightarrow> (mem_store, tool_call_record option) aio" where
  "mem_get_call call_id = gets_io (\<lambda>s. ms_calls s call_id)"

definition mem_list_session_calls :: "string \<Rightarrow> (mem_store, string list) aio" where
  "mem_list_session_calls sid = gets_io (\<lambda>s. case ms_sessions s sid of None \<Rightarrow> [] | Some l \<Rightarrow> l)"

definition InMemoryStateStore :: "mem_store state_store" where
  "InMemoryStateStore = \<lparr>ss_create_call = mem_create_call, ss_transition = mem_transition,
     ss_finish_attempt = mem_finish_attempt, ss_start_attempt = mem_start_attempt,
     ss_get_call = mem_get_call, ss_list_session_calls = mem_list_session_calls\<rparr>"

definition empty_mem_store :: "(nat \<Rightarrow> timestamp) \<Rightarrow> mem_store" where
  "empty_mem_store clock = \<lparr>ms_calls = Map.empty, ms_sessions = Map.empty, ms_clock = clock,
     ms_ticks = 0\<rparr>"

section \<open>The Redis store\<close>

text \<open>
  One round trip to the server ends in one of four ways: the commands took effect
  (\<open>NetOk\<close>); another client changed the watched key, here to \<open>v\<close> (\<open>None\<close>: the key is gone), and
  the transaction was refused (\<open>NetConflict v\<close>); an error or the timeout struck before the commands
  (\<open>NetFail\<close>) or after them (\<open>NetLost\<close>).  \<open>rs_net i\<close> is the fate of the \<open>i\<close>-th round trip.
\<close>

datatype 'raw net_event = NetOk | NetConflict "'raw option" | NetFail | NetLost

record 'raw redis_store =
  rs_data :: "string \<rightharpoonup> 'raw"
  rs_lists :: "string \<rightharpoonup> string list"
  rs_clock :: "nat \<Rightarrow> timestamp"
  rs_ticks :: nat
  rs_net :: "nat \<Rightarrow> 'raw net_event"
  rs_trips :: nat

text \<open>Pydantic's \<open>model_dump_json\<close> and \<open>model_validate_json\<close>, and the number of optimistic
  rounds that fit into the operation timeout.\<close>

record 'raw redis_config =
  rc_dump :: "tool_call_record \<Rightarrow> 'raw"
  rc_load :: "'raw \<Rightarrow> exn + tool_call_record"
  rc_rounds :: nat

definition call_key :: "string \<Rightarrow> string" where
  "call_key call_id = ''gateway:tool_call:'' @ call_id"

definition session_key :: "string \<Rightarrow> string" where
  "session_key sid = ''gateway:session:'' @ sid @ '':calls''"

definition redis_create_call :: "'raw redis_config \<Rightarrow> tool_call_record \<Rightarrow> ('raw redis_store, unit) aio" where
  "redis_create_call c r = (\<lambda>s.
     let s1 = s\<lparr>rs_trips := Suc (rs_trips s)\<rparr>;
         done = s1\<lparr>rs_data := (rs_data s)(call_key (tc_call_id r) \<mapsto> rc_dump c r),
           rs_lists := (rs_lists s)(session_key (tc_session_id r) \<mapsto>
             (case rs_lists s (session_key (tc_session_id r)) of None \<Rightarrow> [] | Some l \<Rightarrow> l)
               @ [tc_call_id r])\<rparr>
     in case rs_net s (rs_trips s) of
          NetOk \<Rightarrow> (Inr (), done)
        | NetConflict v \<Rightarrow> (Inl unavailable, s1)
        | NetFail \<Rightarrow> (Inl unavailable, s1)
        | NetLost \<Rightarrow> (Inl unavailable, done))"

text \<open>
  The optimistic loop: watch and read the key, apply the updater, commit; a refused
  commit starts over with the value the other client wrote.  Running out of rounds is the
  \<open>TimeoutError\<close> of \<open>asyncio.timeout\<close>.
\<close>

fun redis_update_loop :: "nat \<Rightarrow> 'raw redis_config \<Rightarrow> string \<Rightarrow> updater \<Rightarrow> ('raw redis_store, unit) aio" where
  "redis_update_loop 0 c key upd s = (Inl unavailable, s)"
| "redis_update_loop (Suc k) c key upd s =
     (case rs_data s key of
        None \<Rightarrow> (Inl unavailable, s)
      | Some raw \<Rightarrow>
         (case rc_load c raw of
            Inl e \<Rightarrow> (Inl e, s)
          | Inr r \<Rightarrow>
             (let now = (\<lambda>i. rs_clock s (rs_ticks s + i));
                  s1 = s\<lparr>rs_ticks := rs_ticks s + 2, rs_trips := Suc (rs_trips s)\<rparr>
              in case upd now r of
                   Inl e \<Rightarrow> (Inl e, s1)
                 | Inr r' \<Rightarrow>
                    (let done = s1\<lparr>rs_data := (rs_data s)(key \<mapsto> rc_dump c r')\<rparr>
                     in case rs_net s (rs_trips s) of
                          NetOk \<Rightarrow> (Inr (), done)
                        | NetConflict v \<Rightarrow>
                            redis_update_loop k c key upd (s1\<lparr>rs_data := (rs_data s)(key := v)\<rparr>)
                        | NetFail \<Rightarrow> (Inl unavailable, s1)
                        | NetLost \<Rightarrow> (Inl unavailable, done)))))"

definition redis_update :: "'raw redis_config \<Rightarrow> string \<Rightarrow> updater \<Rightarrow> ('raw redis_store, unit) aio" where
  "redis_update c call_id upd = redis_update_loop (rc_rounds c) c (call_key call_id) upd"

definition redis_transition :: "'raw redis_config \<Rightarrow> string \<Rightarrow> tool_call_state \<Rightarrow> string option \<Rightarrow>
    ('raw redis_store, unit) aio" where
  "redis_transition c call_id state error = redis_update c call_id (upd_transition state error)"

definition redis_finish_attempt :: "'raw redis_config \<Rightarrow> string \<Rightarrow> nat \<Rightarrow> string \<Rightarrow> string option \<Rightarrow>
    ('raw redis_store, unit) aio" where
  "redis_finish_attempt c call_id n outcome error = redis_update c call_id (upd_finish n outcome error)"

definition redis_start_attempt :: "'raw redis_config \<Rightarrow> string \<Rightarrow> nat \<Rightarrow> ('raw redis_store, unit) aio" where
  "redis_start_attempt c call_id n = redis_update c call_id (upd_start n)"

definition redis_get_call :: "'raw redis_config \<Rightarrow> string \<Rightarrow>
    ('raw redis_store, tool_call_record option) aio" where
  "redis_get_call c call_id = (\<lambda>s.
     let s1 = s\<lparr>rs_trips := Suc (rs_trips s)\<rparr>
     in case rs_net s (rs_trips s) of
          NetOk \<Rightarrow> (case rs_data s (call_key call_id) of
              None \<Rightarrow> (Inr None, s1)
            | Some raw \<Rightarrow> (case rc_load c raw of Inl e \<Rightarrow> (Inl e, s1) | Inr r \<Rightarrow> (Inr (Some r), s1)))
        | _ \<Rightarrow> (Inl unavailable, s1))"

definition redis_list_session_calls :: "string \<Rightarrow> ('raw redis_store, string list) aio" where
  "redis_list_session_calls sid = (\<lambda>s.
     let s1 = s\<lparr>rs_trips := Suc (rs_trips s)\<rparr>
     in case rs_net s (rs_trips s) of
          NetOk \<Rightarrow> (Inr (case rs_lists s (session_key sid) of None \<Rightarrow> [] | Some l \<Rightarrow> l), s1)
        | _ \<Rightarrow> (Inl unavailable, s1))"

definition redis_healthcheck :: "'raw redis_store \<Rightarrow> bool \<times> 'raw redis_store" where
  "redis_healthcheck s = (rs_net s (rs_trips s) = NetOk, s\<lparr>rs_trips := Suc (rs_trips s)\<rparr>)"

definition RedisStateStore :: "'raw redis_config \<Rightarrow> 'raw redis_store state_store" where
  "RedisStateStore c = \<lparr>ss_create_call = redis_create_call c, ss_transition = redis_transition c,
     ss_finish_attempt = redis_finish_attempt c, ss_start_attempt = redis_start_attempt c,
     ss_get_call = redis_get_call c, ss_list_session_calls = redis_list_session_calls\<rparr>"

text \<open>Documented behaviour of pydantic: validating dumped JSON gives the model back.\<close>

definition codec_ok :: "'raw redis_config \<Rightarrow> bool" where
  "codec_ok c = (\<forall>r. rc_load c (rc_dump c r) = Inr r)"

definition redis_look :: "'raw redis_config \<Rightarrow> 'raw redis_store \<Rightarrow> string \<rightharpoonup> tool_call_record" where
  "redis_look c s call_id = (case rs_data s (call_key call_id) of
       None \<Rightarrow> None
     | Some raw \<Rightarrow> (case rc_load c raw of Inl e \<Rightarrow> None | Inr r \<Rightarrow> Some r))"

text \<open>Stored call records can be read back, and no other client writes them: call
  identifiers are fresh and only the task of a call updates its record.\<close>

definition redis_inv :: "'raw redis_config \<Rightarrow> 'raw redis_store \<Rightarrow> bool" where
  "redis_inv c s = ((\<forall>i v. rs_net s i \<noteq> NetConflict v) \<and>
     (\<forall>call_id raw. rs_data s (call_key call_id) = Some raw \<longrightarrow> (\<exists>r. rc_load c raw = Inr r)))"

section \<open>Laws of a state store\<close>

text \<open>\<open>applied upd m call_id m'\<close>: \<open>m'\<close> is \<open>m\<close> with the updater applied to one record.\<close>

definition applied :: "updater \<Rightarrow> (string \<rightharpoonup> tool_call_record) \<Rightarrow> string \<Rightarrow>
    (string \<rightharpoonup> tool_call_record) \<Rightarrow> bool" where
  "applied upd m call_id m' =
     (\<exists>r now r'. m call_id = Some r \<and> upd now r = Inr r' \<and> m' = m(call_id \<mapsto> r'))"

text \<open>
  An update operation that returns has applied its updater; one that fails raises
  \<open>StateStoreUnavailableError\<close> and has either changed nothing or applied the updater
  (when only the reply was lost).
\<close>

definition update_law :: "('s \<Rightarrow> bool) \<Rightarrow> ('s \<Rightarrow> string \<rightharpoonup> tool_call_record) \<Rightarrow> ('s, unit) aio \<Rightarrow>
    string \<Rightarrow> updater \<Rightarrow> bool" where
  "update_law ok look m call_id upd = (\<forall>s x s'. ok s \<longrightarrow> m s = (x, s') \<longrightarrow> ok s' \<and>
     (case x of
        Inr u \<Rightarrow> applied upd (look s) call_id (look s')
      | Inl e \<Rightarrow> e = unavailable \<and> (look s' = look s \<or> applied upd (look s) call_id (look s'))))"

locale state_store_laws =
  fixes S :: "'s state_store"
    and look :: "'s \<Rightarrow> string \<rightharpoonup> tool_call_record"
    and ok :: "'s \<Rightarrow> bool"
  assumes create_law: "ok s \<Longrightarrow> ss_create_call S r s = (x, s') \<Longrightarrow> ok s' \<and>
      (case x of
         Inr u \<Rightarrow> look s' = (look s)(tc_call_id r \<mapsto> r)
       | Inl e \<Rightarrow> e = unavailable \<and> (look s' = look s \<or> look s' = (look s)(tc_call_id r \<mapsto> r)))"
    and transition_law: "update_law ok look (ss_transition S call_id st err) call_id (upd_transition st err)"
    and finish_law: "update_law ok look (ss_finish_attempt S call_id n out err) call_id (upd_finish n out err)"
    and start_law: "update_law ok look (ss_start_attempt S call_id n) call_id (upd_start n)"
    and get_law: "ok s \<Longrightarrow> ss_get_call S call_id s = (y, s') \<Longrightarrow> ok s' \<and> look s' = look s \<and>
      (case y of Inr v \<Rightarrow> v = look s call_id | Inl e \<Rightarrow> e = unavailable)"
begin

text \<open>\<open>holds call_id P\<close>: the store has a record of the call and it satisfies \<open>P\<close>.\<close>

definition holds :: "string \<Rightarrow> (tool_call_record \<Rightarrow> bool) \<Rightarrow> 's \<Rightarrow> bool" where
  "holds call_id P s = (ok s \<and> (\<exists>r. look s call_id = Some r \<and> P r))"

lemma holds_mono: "holds call_id P s \<Longrightarrow> (\<And>r. P r \<Longrightarrow> Q r) \<Longrightarrow> holds call_id Q s"
  by (auto simp: holds_def)

lemma update_hoare:
  assumes law: "update_law ok look m call_id upd"
    and step: "\<And>r now r'. P r \<Longrightarrow> upd now r = Inr r' \<Longrightarrow> Q r'"
  shows "hoare (holds call_id P) m (\<lambda>u. holds call_id Q)
    (\<lambda>e s. e = unavailable \<and> holds call_id (\<lambda>r. P r \<or> Q r) s)"
proof (rule hoareI)
  fix s x s' assume h: "holds call_id P s" and m: "m s = (Inr x, s')"
  from h m law have "ok s'" "applied upd (look s) call_id (look s')"
    by (auto simp: update_law_def holds_def)
  with h step show "holds call_id Q s'"
    by (auto simp: applied_def holds_def)
next
  fix s e s' assume h: "holds call_id P s" and m: "m s = (Inl e, s')"
  from h m law have "ok s'" and e: "e = unavailable"
    and "look s' = look s \<or> applied upd (look s) call_id (look s')"
    by (fastforce simp: update_law_def holds_def)+
  with h step have "holds call_id (\<lambda>r. P r \<or> Q r) s'"
    by (auto simp: applied_def holds_def)
  with e show "e = unavailable \<and> holds call_id (\<lambda>r. P r \<or> Q r) s'" by simp
qed

lemmas transition_hoare = update_hoare [OF transition_law]
  and finish_hoare = update_hoare [OF finish_law]
  and start_hoare = update_hoare [OF start_law]

lemma get_hoare:
  "hoare (holds call_id P) (ss_get_call S call_id) (\<lambda>v s. holds call_id P s \<and> (\<exists>r. v = Some r \<and> P r))
    (\<lambda>e s. e = unavailable \<and> holds call_id P s)"
  by (rule hoareI) (fastforce simp: holds_def dest: get_law)+

lemma create_hoare:
  "P r \<Longrightarrow> hoare ok (ss_create_call S r) (\<lambda>u. holds (tc_call_id r) P)
    (\<lambda>e s. e = unavailable \<and> ok s)"
  by (rule hoareI) (fastforce simp: holds_def dest: create_law)+

end

locale reliable_store = state_store_laws +
  assumes create_total: "ok s \<Longrightarrow> fst (ss_create_call S r s) = Inr ()"
    and transition_total: "ok s \<Longrightarrow> look s call_id \<noteq> None \<Longrightarrow> fst (ss_transition S call_id st err s) = Inr ()"
    and finish_total: "ok s \<Longrightarrow> look s call_id = Some r \<Longrightarrow> n \<in> ar_attempt ` set (tc_attempts r) \<Longrightarrow>
      fst (ss_finish_attempt S call_id n out err s) = Inr ()"
    and start_total: "ok s \<Longrightarrow> look s call_id \<noteq> None \<Longrightarrow> fst (ss_start_attempt S call_id n s) = Inr ()"
    and get_total: "ok s \<Longrightarrow> \<exists>v. fst (ss_get_call S call_id s) = Inr v"
begin

lemma reliable_raise:
  assumes "hoare P m Q E" and "\<And>s. P s \<Longrightarrow> fst (m s) = Inr ()"
  shows "hoare P m Q (\<lambda>e s. False)"
proof (rule hoareI)
  show "Q x s'" if "P s" "m s = (Inr x, s')" for s x s'
    using assms(1) that by (rule hoareD_ret)
  show False if "P s" "m s = (Inl e, s')" for s e s'
    using assms(2) [OF that(1)] that(2) by simp
qed

lemma transition_sure:
  assumes "\<And>r now. P r \<Longrightarrow> Q (r\<lparr>tc_current_state := st, tc_updated_at := now,
      tc_transitions := tc_transitions r @ [\<lparr>st_state = st, st_timestamp = now, st_error = err\<rparr>]\<rparr>)"
  shows "hoare (holds call_id P) (ss_transition S call_id st err) (\<lambda>u. holds call_id Q) (\<lambda>e s. False)"
  by (rule reliable_raise [OF transition_hoare])
    (auto simp: upd_transition_def holds_def assms intro: transition_total)

end

section \<open>Lemmas on the updaters\<close>

lemma finish_last_None: "finish_last n f as = None \<longleftrightarrow> n \<notin> ar_attempt ` set as"
  by (induction as) (auto split: option.splits)

lemma finish_last_split:
  assumes "finish_last n f as = Some bs"
  shows "\<exists>pre a post. as = pre @ a # post \<and> bs = pre @ f a # post \<and> ar_attempt a = n \<and>
     n \<notin> ar_attempt ` set post"
  using assms
proof (induction as arbitrary: bs)
  case Nil
  then show ?case by simp
next
  case (Cons x as)
  show ?case
  proof (cases "finish_last n f as")
    case None
    then have "n \<notin> ar_attempt ` set as" by (simp add: finish_last_None)
    with None Cons.prems show ?thesis
      by (intro exI [of _ "[]"]) (auto split: if_splits)
  next
    case (Some cs)
    from Cons.IH [OF Some] obtain pre a post where
      "as = pre @ a # post" "cs = pre @ f a # post" "ar_attempt a = n" "n \<notin> ar_attempt ` set post"
      by auto
    with Some Cons.prems show ?thesis
      by (intro exI [of _ "x # pre"] exI [of _ a] exI [of _ post]) auto
  qed
qed

lemma finish_last_numbers:
  "(\<And>a. ar_attempt (f a) = ar_attempt a) \<Longrightarrow> finish_last n f as = Some bs \<Longrightarrow>
   map ar_attempt bs = map ar_attempt as"
  by (drule finish_last_split) auto

lemma upd_finish_numbers:
  "upd_finish n out err now r = Inr r' \<Longrightarrow>
   map ar_attempt (tc_attempts r') = map ar_attempt (tc_attempts r)"
  by (auto simp: upd_finish_def split: option.splits dest: finish_last_numbers [rotated])

lemma upd_transitions_frame:
  "upd_finish n out err now r = Inr r' \<Longrightarrow> tc_transitions r' = tc_transitions r \<and>
     tc_current_state r' = tc_current_state r"
  "upd_start n now r = Inr r' \<Longrightarrow> tc_transitions r' = tc_transitions r \<and>
     tc_current_state r' = tc_current_state r"
  by (auto simp: upd_finish_def upd_start_def split: option.splits)

section \<open>The in-memory store obeys the laws\<close>

lemma mem_update_law: "update_law (\<lambda>_. True) ms_calls (mem_update call_id upd) call_id upd"
  if "\<And>now r e. upd now r = Inl e \<Longrightarrow> e = unavailable"
proof -
  have "case x of Inr u \<Rightarrow> applied upd (ms_calls s) call_id (ms_calls s')
     | Inl e \<Rightarrow> e = unavailable \<and> (ms_calls s' = ms_calls s \<or> applied upd (ms_calls s) call_id (ms_calls s'))"
    if "mem_update call_id upd s = (x, s')" for s x s'
    using that \<open>\<And>now r e. upd now r = Inl e \<Longrightarrow> e = unavailable\<close>
    by (auto simp: mem_update_def applied_def Let_def split: option.splits sum.splits) blast+
  then show ?thesis by (auto simp: update_law_def)
qed

lemma upd_errors:
  "upd_transition st err now r = Inl e \<Longrightarrow> e = unavailable"
  "upd_finish n out err now r = Inl e \<Longrightarrow> e = unavailable"
  "upd_start n now r = Inl e \<Longrightarrow> e = unavailable"
  by (auto simp: upd_transition_def upd_finish_def upd_start_def split: option.splits)

interpretation mem: reliable_store InMemoryStateStore ms_calls "\<lambda>_. True"
proof
  fix s :: mem_store and call_id st err n out
  show "update_law (\<lambda>_. True) ms_calls (ss_transition InMemoryStateStore call_id st err) call_id
      (upd_transition st err)"
    and "update_law (\<lambda>_. True) ms_calls (ss_finish_attempt InMemoryStateStore call_id n out err) call_id
      (upd_finish n out err)"
    and "update_law (\<lambda>_. True) ms_calls (ss_start_attempt InMemoryStateStore call_id n) call_id (upd_start n)"
    by (simp_all add: InMemoryStateStore_def mem_transition_def mem_finish_attempt_def
        mem_start_attempt_def mem_update_law upd_errors)
  show "fst (ss_transition InMemoryStateStore call_id st err s) = Inr ()"
    if "ms_calls s call_id \<noteq> None"
    using that by (auto simp: InMemoryStateStore_def mem_transition_def mem_update_def
        upd_transition_def Let_def)
  show "fst (ss_start_attempt InMemoryStateStore call_id n s) = Inr ()"
    if "ms_calls s call_id \<noteq> None"
    using that by (auto simp: InMemoryStateStore_def mem_start_attempt_def mem_update_def
        upd_start_def Let_def)
  show "fst (ss_finish_attempt InMemoryStateStore call_id n out err s) = Inr ()"
    if "ms_calls s call_id = Some r" "n \<in> ar_attempt ` set (tc_attempts r)" for r
    using that by (auto simp: InMemoryStateStore_def mem_finish_attempt_def mem_update_def
        upd_finish_def Let_def finish_last_None split: option.splits)
qed (auto simp: InMemoryStateStore_def mem_create_call_def mem_get_call_def io_defs)

section \<open>The Redis store\<close>

text \<open>The in-memory store that a Redis store represents.\<close>

definition redis_abs :: "'raw redis_config \<Rightarrow> 'raw redis_store \<Rightarrow> mem_store" where
  "redis_abs c s = \<lparr>ms_calls = redis_look c s, ms_sessions = (\<lambda>sid. rs_lists s (session_key sid)),
     ms_clock = rs_clock s, ms_ticks = rs_ticks s\<rparr>"

lemma call_key_inj [simp]: "call_key a = call_key b \<longleftrightarrow> a = b"
  by (simp add: call_key_def)

lemma session_key_inj [simp]: "session_key a = session_key b \<longleftrightarrow> a = b"
  by (simp add: session_key_def)

lemma redis_look_write:
  "codec_ok c \<Longrightarrow> rs_data s' = (rs_data s)(call_key i \<mapsto> rc_dump c r) \<Longrightarrow>
   redis_look c s' = (redis_look c s)(i \<mapsto> r)"
  by (auto simp: redis_look_def codec_ok_def fun_eq_iff)

lemma redis_look_cong: "rs_data s' = rs_data s \<Longrightarrow> redis_look c s' = redis_look c s"
  by (auto simp: redis_look_def fun_eq_iff)

lemma redis_look_frame [simp]:
  "redis_look c (s\<lparr>rs_ticks := t\<rparr>) = redis_look c s"
  "redis_look c (s\<lparr>rs_trips := t\<rparr>) = redis_look c s"
  "redis_look c (s\<lparr>rs_lists := l\<rparr>) = redis_look c s"
  by (simp_all add: redis_look_def fun_eq_iff)

lemma redis_inv_frame [simp]:
  "redis_inv c (s\<lparr>rs_ticks := t\<rparr>) = redis_inv c s"
  "redis_inv c (s\<lparr>rs_trips := t\<rparr>) = redis_inv c s"
  "redis_inv c (s\<lparr>rs_lists := l\<rparr>) = redis_inv c s"
  by (simp_all add: redis_inv_def)

lemma redis_inv_write:
  "codec_ok c \<Longrightarrow> redis_inv c s \<Longrightarrow> rs_net s' = rs_net s \<Longrightarrow>
   rs_data s' = (rs_data s)(call_key i \<mapsto> rc_dump c r) \<Longrightarrow> redis_inv c s'"
  by (auto simp: redis_inv_def codec_ok_def)

lemma redis_inv_cong:
  "redis_inv c s \<Longrightarrow> rs_net s' = rs_net s \<Longrightarrow> rs_data s' = rs_data s \<Longrightarrow> redis_inv c s'"
  by (auto simp: redis_inv_def)

lemma redis_update_law:
  assumes c: "codec_ok c" and upd: "\<And>now r e. upd now r = Inl e \<Longrightarrow> e = unavailable"
  shows "update_law (redis_inv c) (redis_look c) (redis_update c call_id upd) call_id upd"
proof -
  have "redis_inv c s' \<and> (case x of Inr u \<Rightarrow> applied upd (redis_look c s) call_id (redis_look c s')
     | Inl e \<Rightarrow> e = unavailable \<and> (redis_look c s' = redis_look c s \<or>
         applied upd (redis_look c s) call_id (redis_look c s')))"
    if inv: "redis_inv c s" and step: "redis_update c call_id upd s = (x, s')" for s x s'
  proof (cases "rc_rounds c")
    case 0
    with inv step show ?thesis by (auto simp: redis_update_def)
  next
    case (Suc k)
    show ?thesis
    proof (cases "redis_look c s call_id")
      case None
      with inv have "rs_data s (call_key call_id) = None"
        by (fastforce simp: redis_look_def redis_inv_def split: option.splits sum.splits)
      with inv step Suc show ?thesis by (auto simp: redis_update_def)
    next
      case (Some r)
      then obtain raw where raw: "rs_data s (call_key call_id) = Some raw" "rc_load c raw = Inr r"
        by (auto simp: redis_look_def split: option.splits sum.splits)
      let ?now = "\<lambda>i. rs_clock s (rs_ticks s + i)"
      show ?thesis
      proof (cases "upd ?now r")
        case (Inl e)
        with inv step Suc raw upd [OF Inl] show ?thesis
          by (auto simp: redis_update_def intro: redis_inv_cong redis_look_cong)
      next
        case (Inr r')
        with Some have app: "applied upd (redis_look c s) call_id ((redis_look c s)(call_id \<mapsto> r'))"
          by (auto simp: applied_def)
        have nc: "rs_net s (rs_trips s) \<noteq> NetConflict v" for v
          using inv by (simp add: redis_inv_def)
        let ?done = "s\<lparr>rs_ticks := rs_ticks s + 2, rs_trips := Suc (rs_trips s),
          rs_data := (rs_data s)(call_key call_id \<mapsto> rc_dump c r')\<rparr>"
        have fin: "redis_inv c ?done" "redis_look c ?done = (redis_look c s)(call_id \<mapsto> r')"
          using c inv by (auto intro: redis_inv_write redis_look_write)
        show ?thesis
          using step Suc raw Inr nc app fin inv
          by (auto simp: redis_update_def Let_def split: net_event.splits
              intro: redis_inv_cong redis_look_cong)
      qed
    qed
  qed
  then show ?thesis by (auto simp: update_law_def)
qed

lemma redis_state_store_laws:
  assumes c: "codec_ok c"
  shows "state_store_laws (RedisStateStore c) (redis_look c) (redis_inv c)"
proof
  fix call_id st err n out
  show "update_law (redis_inv c) (redis_look c) (ss_transition (RedisStateStore c) call_id st err)
      call_id (upd_transition st err)"
    and "update_law (redis_inv c) (redis_look c) (ss_finish_attempt (RedisStateStore c) call_id n out err)
      call_id (upd_finish n out err)"
    and "update_law (redis_inv c) (redis_look c) (ss_start_attempt (RedisStateStore c) call_id n)
      call_id (upd_start n)"
    using c by (simp_all add: RedisStateStore_def redis_transition_def redis_finish_attempt_def
        redis_start_attempt_def redis_update_law upd_errors)
next
  fix s r x s'
  assume inv: "redis_inv c s" and create: "ss_create_call (RedisStateStore c) r s = (x, s')"
  have net: "rs_net s' = rs_net s"
    and data: "rs_data s' = (rs_data s)(call_key (tc_call_id r) \<mapsto> rc_dump c r) \<or>
      x = Inl unavailable \<and> rs_data s' = rs_data s"
    and x: "x = Inr () \<or> x = Inl unavailable"
    using create by (auto simp: RedisStateStore_def redis_create_call_def Let_def split: net_event.splits)
  show "redis_inv c s' \<and> (case x of Inr u \<Rightarrow> redis_look c s' = (redis_look c s)(tc_call_id r \<mapsto> r)
      | Inl e \<Rightarrow> e = unavailable \<and> (redis_look c s' = redis_look c s \<or>
          redis_look c s' = (redis_look c s)(tc_call_id r \<mapsto> r)))"
    using data
  proof
    assume d: "rs_data s' = (rs_data s)(call_key (tc_call_id r) \<mapsto> rc_dump c r)"
    from redis_inv_write [OF c inv net d] redis_look_write [OF c d] x show ?thesis by auto
  next
    assume d: "x = Inl unavailable \<and> rs_data s' = rs_data s"
    with redis_inv_cong [OF inv net] redis_look_cong [of s' s c] show ?thesis by auto
  qed
next
  fix s call_id y s'
  assume inv: "redis_inv c s" and get: "ss_get_call (RedisStateStore c) call_id s = (y, s')"
  show "redis_inv c s' \<and> redis_look c s' = redis_look c s \<and>
      (case y of Inr v \<Rightarrow> v = redis_look c s call_id | Inl e \<Rightarrow> e = unavailable)"
  proof (cases "rs_data s (call_key call_id)")
    case None
    with inv get show ?thesis
      by (auto simp: RedisStateStore_def redis_get_call_def redis_look_def Let_def
          split: net_event.splits intro: redis_inv_cong redis_look_cong)
  next
    case (Some raw)
    with inv obtain r where "rc_load c raw = Inr r" unfolding redis_inv_def by blast
    with Some inv get show ?thesis
      by (auto simp: RedisStateStore_def redis_get_call_def redis_look_def Let_def
          split: net_event.splits intro: redis_inv_cong redis_look_cong)
  qed
qed

subsection \<open>Refinement of the in-memory store\<close>

lemma redis_update_refines:
  assumes c: "codec_ok c" and inv: "redis_inv c s" and quiet: "\<forall>i. rs_net s i = NetOk"
    and rounds: "0 < rc_rounds c"
  shows "mem_update call_id upd (redis_abs c s) = map_prod id (redis_abs c) (redis_update c call_id upd s)"
proof -
  obtain k where k: "rc_rounds c = Suc k" using rounds by (cases "rc_rounds c") auto
  show ?thesis
  proof (cases "rs_data s (call_key call_id)")
    case None
    then have "redis_look c s call_id = None" by (simp add: redis_look_def)
    with None k show ?thesis by (simp add: mem_update_def redis_update_def redis_abs_def)
  next
    case (Some raw)
    with inv obtain r where r: "rc_load c raw = Inr r" unfolding redis_inv_def by blast
    with Some have look: "redis_look c s call_id = Some r" by (simp add: redis_look_def)
    have wr: "redis_look c (t\<lparr>rs_data := (rs_data s)(call_key call_id \<mapsto> rc_dump c r')\<rparr>) =
        (redis_look c s)(call_id \<mapsto> r')" for t r'
      by (rule redis_look_write [OF c]) simp
    show ?thesis
      using Some r look k quiet
      by (simp add: mem_update_def redis_update_def redis_abs_def Let_def wr split: sum.split)
  qed
qed

lemma redis_create_refines:
  assumes c: "codec_ok c" and quiet: "\<forall>i. rs_net s i = NetOk"
  shows "mem_create_call r (redis_abs c s) = map_prod id (redis_abs c) (redis_create_call c r s)"
proof -
  have wr: "redis_look c (t\<lparr>rs_data := (rs_data s)(call_key (tc_call_id r) \<mapsto> rc_dump c r)\<rparr>) =
      (redis_look c s)(tc_call_id r \<mapsto> r)" for t
    by (rule redis_look_write [OF c]) simp
  show ?thesis
    using quiet by (auto simp: mem_create_call_def redis_create_call_def redis_abs_def modify_io_def
        Let_def wr fun_eq_iff)
qed

lemma redis_get_refines:
  assumes inv: "redis_inv c s" and quiet: "\<forall>i. rs_net s i = NetOk"
  shows "mem_get_call call_id (redis_abs c s) = map_prod id (redis_abs c) (redis_get_call c call_id s)"
proof (cases "rs_data s (call_key call_id)")
  case None
  then have "redis_look c s call_id = None" by (simp add: redis_look_def)
  with None quiet show ?thesis
    by (simp add: mem_get_call_def redis_get_call_def redis_abs_def gets_io_def Let_def)
next
  case (Some raw)
  with inv obtain r where r: "rc_load c raw = Inr r" unfolding redis_inv_def by blast
  with Some have "redis_look c s call_id = Some r" by (simp add: redis_look_def)
  with Some r quiet show ?thesis
    by (simp add: mem_get_call_def redis_get_call_def redis_abs_def gets_io_def Let_def)
qed

subsection \<open>On a quiet network the Redis store is reliable\<close>

definition redis_quiet :: "'raw redis_config \<Rightarrow> 'raw redis_store \<Rightarrow> bool" where
  "redis_quiet c s = (redis_inv c s \<and> (\<forall>i. rs_net s i = NetOk))"

lemma redis_loop_net: "rs_net (snd (redis_update_loop k c key upd s)) = rs_net s"
  by (induction k c key upd s rule: redis_update_loop.induct)
    (auto simp: Let_def split: option.split sum.split net_event.split)

lemma redis_net:
  "rs_net (snd (ss_create_call (RedisStateStore c) r s)) = rs_net s"
  "rs_net (snd (ss_transition (RedisStateStore c) i st err s)) = rs_net s"
  "rs_net (snd (ss_finish_attempt (RedisStateStore c) i n out err s)) = rs_net s"
  "rs_net (snd (ss_start_attempt (RedisStateStore c) i n s)) = rs_net s"
  "rs_net (snd (ss_get_call (RedisStateStore c) i s)) = rs_net s"
  by (auto simp: RedisStateStore_def redis_create_call_def redis_get_call_def redis_transition_def redis_finish_attempt_def
      redis_start_attempt_def redis_update_def redis_loop_net Let_def split: net_event.split option.split sum.split)

text \<open>A law that holds on \<open>ok\<close> states holds on those that satisfy also what the operation keeps.\<close>

lemma update_law_conj:
  assumes "update_law ok look m call_id upd" and "\<And>s. F (snd (m s)) = F s"
  shows "update_law (\<lambda>s. ok s \<and> F s) look m call_id upd"
  using assms unfolding update_law_def by (metis snd_conv)

lemma redis_quiet_laws:
  assumes "codec_ok c"
  shows "state_store_laws (RedisStateStore c) (redis_look c) (redis_quiet c)"
proof -
  note laws = redis_state_store_laws [OF assms]
  let ?F = "\<lambda>s. \<forall>i. rs_net s i = NetOk"
  have quiet: "redis_quiet c = (\<lambda>s. redis_inv c s \<and> ?F s)" by (simp add: redis_quiet_def fun_eq_iff)
  show ?thesis
    unfolding quiet
  proof
    fix s r x s'
    assume "redis_inv c s \<and> ?F s" "ss_create_call (RedisStateStore c) r s = (x, s')"
    with state_store_laws.create_law [OF laws, of s r x s'] redis_net(1) [of c r s]
    show "(redis_inv c s' \<and> ?F s') \<and> (case x of Inr u \<Rightarrow> redis_look c s' = (redis_look c s)(tc_call_id r \<mapsto> r)
      | Inl e \<Rightarrow> e = unavailable \<and> (redis_look c s' = redis_look c s \<or> redis_look c s' = (redis_look c s)(tc_call_id r \<mapsto> r)))"
      by simp
  next
    fix s call_id y s'
    assume "redis_inv c s \<and> ?F s" "ss_get_call (RedisStateStore c) call_id s = (y, s')"
    with state_store_laws.get_law [OF laws, of s call_id y s'] redis_net(5) [of c call_id s]
    show "(redis_inv c s' \<and> ?F s') \<and> redis_look c s' = redis_look c s \<and>
      (case y of Inr v \<Rightarrow> v = redis_look c s call_id | Inl e \<Rightarrow> e = unavailable)"
      by simp
  qed (auto intro!: update_law_conj state_store_laws.transition_law [OF laws] state_store_laws.finish_law [OF laws]
      state_store_laws.start_law [OF laws] simp: redis_net)
qed

lemma redis_reliable:
  assumes c: "codec_ok c" and rounds: "0 < rc_rounds c"
  shows "reliable_store (RedisStateStore c) (redis_look c) (redis_quiet c)"
proof (rule reliable_store.intro [OF redis_quiet_laws [OF c]], unfold_locales)
  fix s assume q: "redis_quiet c s"
  then have inv: "redis_inv c s" and net: "\<forall>i. rs_net s i = NetOk" by (simp_all add: redis_quiet_def)
  have upd: "fst (redis_update c i upd s) = fst (mem_update i upd (redis_abs c s))" for i upd
    using redis_update_refines [OF c inv net rounds, of i upd] by simp
  have look: "ms_calls (redis_abs c s) = redis_look c s" by (simp add: redis_abs_def)
  note mem = mem.transition_total mem.finish_total mem.start_total
  show "fst (ss_create_call (RedisStateStore c) r s) = Inr ()" for r
    using net by (simp add: RedisStateStore_def redis_create_call_def Let_def)
  show "\<exists>v. fst (ss_get_call (RedisStateStore c) i s) = Inr v" for i
    using redis_get_refines [OF inv net, of i] by (cases "redis_get_call c i s") (auto simp: RedisStateStore_def mem_get_call_def gets_io_def)
  show "fst (ss_transition (RedisStateStore c) i st err s) = Inr ()" if "redis_look c s i \<noteq> None" for i st err
    using mem(1) [of "redis_abs c s" i st err] that
    by (simp add: RedisStateStore_def redis_transition_def upd look InMemoryStateStore_def mem_transition_def)
  show "fst (ss_start_attempt (RedisStateStore c) i n s) = Inr ()" if "redis_look c s i \<noteq> None" for i n
    using mem(3) [of "redis_abs c s" i n] that
    by (simp add: RedisStateStore_def redis_start_attempt_def upd look InMemoryStateStore_def mem_start_attempt_def)
  show "fst (ss_finish_attempt (RedisStateStore c) i n out err s) = Inr ()"
    if "redis_look c s i = Some r" "n \<in> ar_attempt ` set (tc_attempts r)" for i n out err r
    using mem(2) [of "redis_abs c s" i r n out err] that
    by (simp add: RedisStateStore_def redis_finish_attempt_def upd look InMemoryStateStore_def mem_finish_attempt_def)
qed

text \<open>C25: the Redis store refines the in-memory store.  While the network delivers every
  command and no other client writes the records, each operation of \<open>RedisStateStore\<close>
  returns what the operation of \<open>InMemoryStateStore\<close> returns on the represented store and
  reaches a state that represents the state reached there.  Hypotheses: pydantic reads back
  what it wrote, and at least one optimistic round fits into the timeout.\<close>

theorem redis_refines_memory:
  assumes "codec_ok c" and "redis_inv c s" and "\<forall>i. rs_net s i = NetOk" and "0 < rc_rounds c"
  shows "mem_create_call r (redis_abs c s) = map_prod id (redis_abs c) (redis_create_call c r s) \<and>
    mem_transition i st err (redis_abs c s) = map_prod id (redis_abs c) (redis_transition c i st err s) \<and>
    mem_finish_attempt i n out err (redis_abs c s) =
      map_prod id (redis_abs c) (redis_finish_attempt c i n out err s) \<and>
    mem_start_attempt i n (redis_abs c s) = map_prod id (redis_abs c) (redis_start_attempt c i n s) \<and>
    mem_get_call i (redis_abs c s) = map_prod id (redis_abs c) (redis_get_call c i s) \<and>
    mem_list_session_calls sid (redis_abs c s) =
      map_prod id (redis_abs c) (redis_list_session_calls sid s)"
proof (intro conjI)
  show "mem_list_session_calls sid (redis_abs c s) =
      map_prod id (redis_abs c) (redis_list_session_calls sid s)"
    using assms(3) by (simp add: mem_list_session_calls_def redis_list_session_calls_def
        redis_abs_def gets_io_def Let_def)
qed (use assms in \<open>simp_all add: redis_create_refines redis_get_refines redis_update_refines
    mem_transition_def redis_transition_def mem_finish_attempt_def redis_finish_attempt_def
    mem_start_attempt_def redis_start_attempt_def\<close>)

text \<open>A concrete Redis store: the codec is the identity, the store is empty.\<close>

definition demo_config :: "tool_call_record redis_config" where
  "demo_config = \<lparr>rc_dump = id, rc_load = Inr, rc_rounds = 3\<rparr>"

definition demo_redis :: "(nat \<Rightarrow> tool_call_record net_event) \<Rightarrow> tool_call_record redis_store" where
  "demo_redis net = \<lparr>rs_data = Map.empty, rs_lists = Map.empty, rs_clock = int, rs_ticks = 0,
     rs_net = net, rs_trips = 0\<rparr>"

definition demo_call :: tool_call_record where
  "demo_call = \<lparr>tc_call_id = ''c1'', tc_trace_id = ''t1'', tc_session_id = ''s1'',
     tc_tool_name = ''db_query'', tc_risk_class = Some READ_ONLY, tc_arguments = [],
     tc_current_state = RECEIVED,
     tc_transitions = [\<lparr>st_state = RECEIVED, st_timestamp = 0, st_error = None\<rparr>],
     tc_attempts = [\<lparr>ar_attempt = 1, ar_started_at = 0, ar_finished_at = None, ar_outcome = None,
       ar_error = None\<rparr>],
     tc_created_at = 0, tc_updated_at = 0, tc_principal = None\<rparr>"

theorem redis_refines_memory_witness:
  "mem_transition ''c1'' VALIDATED None (redis_abs demo_config
      (snd (redis_create_call demo_config demo_call (demo_redis (\<lambda>_. NetOk))))) =
   map_prod id (redis_abs demo_config) (redis_transition demo_config ''c1'' VALIDATED None
      (snd (redis_create_call demo_config demo_call (demo_redis (\<lambda>_. NetOk))))) \<and>
   fst (redis_transition demo_config ''c1'' VALIDATED None
      (snd (redis_create_call demo_config demo_call (demo_redis (\<lambda>_. NetOk))))) = Inr ()"
proof -
  let ?s = "snd (redis_create_call demo_config demo_call (demo_redis (\<lambda>_. NetOk)))"
  have h: "codec_ok demo_config" "redis_inv demo_config ?s" "\<forall>i. rs_net ?s i = NetOk"
    "0 < rc_rounds demo_config"
    by (simp_all add: codec_ok_def demo_config_def redis_inv_def redis_create_call_def demo_redis_def
        Let_def)
  have "fst (redis_transition demo_config ''c1'' VALIDATED None ?s) = Inr ()"
    by (simp add: redis_transition_def redis_update_def redis_create_call_def demo_redis_def
        demo_config_def demo_call_def upd_transition_def Let_def eval_nat_numeral)
  with redis_refines_memory [OF h, of demo_call "''c1''" VALIDATED None 1 "''failed''" "''s1''"]
  show ?thesis by simp
qed

subsection \<open>Optimistic updates under contention\<close>

lemma redis_loop_commit:
  "redis_update_loop k c key upd s = (Inr u, s') \<Longrightarrow>
   \<exists>vs base raw r now r'. length vs < k \<and>
     (\<forall>i < length vs. rs_net s (rs_trips s + i) = NetConflict (vs ! i)) \<and>
     rs_net s (rs_trips s + length vs) = NetOk \<and>
     base = last (rs_data s key # vs) \<and> base = Some raw \<and> rc_load c raw = Inr r \<and>
     upd now r = Inr r' \<and> rs_data s' = (rs_data s)(key \<mapsto> rc_dump c r')"
proof (induction k c key upd s rule: redis_update_loop.induct)
  case (1 c key upd s)
  then show ?case by simp
next
  case (2 k c key upd s)
  let ?now = "\<lambda>i. rs_clock s (rs_ticks s + i)"
  from "2.prems" obtain raw r r' where raw: "rs_data s key = Some raw" "rc_load c raw = Inr r"
    "upd ?now r = Inr r'"
    by (auto simp: Let_def split: option.splits sum.splits)
  show ?case
  proof (cases "rs_net s (rs_trips s)")
    case NetOk
    with "2.prems" raw show ?thesis
      by (intro exI [of _ "[]"] exI [of _ "Some raw"] exI [of _ raw] exI [of _ r]
          exI [of _ ?now] exI [of _ r']) (auto simp: Let_def)
  next
    case (NetConflict v)
    let ?t = "s\<lparr>rs_ticks := rs_ticks s + 2, rs_trips := Suc (rs_trips s),
      rs_data := (rs_data s)(key := v)\<rparr>"
    have "redis_update_loop k c key upd ?t = (Inr u, s')"
      using "2.prems" raw NetConflict by (simp add: Let_def)
    from "2.IH" [OF raw(1,2) refl refl raw(3) refl NetConflict this]
    obtain vs raw2 r2 now2 r2' where ih: "length vs < k"
      "\<forall>i < length vs. rs_net ?t (rs_trips ?t + i) = NetConflict (vs ! i)"
      "rs_net ?t (rs_trips ?t + length vs) = NetOk"
      "last (rs_data ?t key # vs) = Some raw2" "rc_load c raw2 = Inr r2" "upd now2 r2 = Inr r2'"
      "rs_data s' = (rs_data ?t)(key \<mapsto> rc_dump c r2')"
      by metis
    have "\<forall>i < length (v # vs). rs_net s (rs_trips s + i) = NetConflict ((v # vs) ! i)"
      using ih(2) NetConflict by (auto simp: less_Suc_eq_0_disj)
    with ih show ?thesis
      by (intro exI [of _ "v # vs"] exI [of _ "Some raw2"] exI [of _ raw2] exI [of _ r2]
          exI [of _ now2] exI [of _ r2']) auto
  qed (use "2.prems" raw in \<open>auto simp: Let_def\<close>)
qed

text \<open>No lost updates.  When the optimistic loop of \<open>RedisStateStore._update\<close> returns,
  it wrote the updater's result on the value that the key had at the moment of the commit:
  the value read first, or the last of the values other clients wrote while the commit was
  refused.  No other key changed, and the number of refused commits was below the number of
  rounds.\<close>

theorem redis_update_no_lost_update:
  assumes "redis_update c call_id upd s = (Inr u, s')"
  shows "\<exists>vs raw r now r'. length vs < rc_rounds c \<and>
     (\<forall>i < length vs. rs_net s (rs_trips s + i) = NetConflict (vs ! i)) \<and>
     last (rs_data s (call_key call_id) # vs) = Some raw \<and> rc_load c raw = Inr r \<and>
     upd now r = Inr r' \<and> rs_data s' = (rs_data s)(call_key call_id \<mapsto> rc_dump c r')"
  using redis_loop_commit [OF assms [unfolded redis_update_def]] by metis

text \<open>A run in which another client writes the record between the read and the commit.\<close>

definition contended :: "nat \<Rightarrow> tool_call_record net_event" where
  "contended i = (if i = 1 then NetConflict (Some (demo_call\<lparr>tc_trace_id := ''t2''\<rparr>)) else NetOk)"

theorem redis_update_no_lost_update_witness:
  "\<exists>s'. redis_update demo_config ''c1'' (upd_transition VALIDATED None)
      (snd (redis_create_call demo_config demo_call (demo_redis contended))) = (Inr (), s') \<and>
   (\<exists>raw r now r'. rc_load demo_config raw = Inr r \<and>
     upd_transition VALIDATED None now r = Inr r' \<and>
     rs_data s' (call_key ''c1'') = Some (rc_dump demo_config r')) \<and>
   map_option tc_trace_id (rs_data s' (call_key ''c1'')) = Some ''t2''"
proof -
  let ?s = "snd (redis_create_call demo_config demo_call (demo_redis contended))"
  let ?r = "redis_update demo_config ''c1'' (upd_transition VALIDATED None) ?s"
  have r: "fst ?r = Inr ()" "map_option tc_trace_id (rs_data (snd ?r) (call_key ''c1'')) = Some ''t2''"
    by (simp_all add: redis_update_def redis_create_call_def demo_redis_def demo_config_def
        demo_call_def contended_def upd_transition_def Let_def eval_nat_numeral)
  then have step: "?r = (Inr (), snd ?r)" by (metis prod.collapse)
  from redis_update_no_lost_update [OF step] obtain raw r1 now r2 where
    c: "rc_load demo_config raw = Inr r1"
      "upd_transition VALIDATED None now r1 = Inr r2"
    and d: "rs_data (snd ?r) = (rs_data ?s)(call_key ''c1'' \<mapsto> rc_dump demo_config r2)"
    by blast
  then have "rs_data (snd ?r) (call_key ''c1'') = Some (rc_dump demo_config r2)"
    by simp
  with c step r(2) show ?thesis by blast
qed

end
