(* ===== verification/Approval.thy ===== *)
theory Approval
  imports Models
begin

text \<open>
  Human approval (\<open>gateway/hitl/queue.py\<close>, \<open>gateway/hitl/cli.py\<close>): the protocol
  \<open>ApprovalQueue\<close> as a record of operations, the in-memory and the Redis queue, and the
  operator's command line.  Operators act while a call waits: a queue state carries, for
  each coming \<open>wait\<close>, the operations that other tasks perform before its timeout.  The
  locale \<open>approval_queue_laws\<close> states what the gateway relies on.
\<close>

section \<open>The protocol\<close>

record 'q approval_queue =
  aq_submit :: "approval_request \<Rightarrow> ('q, unit) aio"
  aq_wait :: "string \<Rightarrow> ('q, approval_request) aio"
  aq_decide :: "string \<Rightarrow> bool \<Rightarrow> string \<Rightarrow> string \<Rightarrow> ('q, unit) aio"
  aq_list_pending :: "('q, approval_request list) aio"

definition decision_text :: "bool \<Rightarrow> string" where
  "decision_text approved = (if approved then ''approved'' else ''rejected'')"

definition decided :: "bool \<Rightarrow> string \<Rightarrow> string \<Rightarrow> approval_request \<Rightarrow> approval_request" where
  "decided approved approver reason r = r\<lparr>ap_decision := Some (decision_text approved),
     ap_approver := Some approver, ap_reason := Some reason\<rparr>"

text \<open>\<open>request.reason or "The approval was rejected"\<close>\<close>

definition rejection_reason :: "approval_request \<Rightarrow> string" where
  "rejection_reason r = (case ap_reason r of
     None \<Rightarrow> ''The approval was rejected''
   | Some m \<Rightarrow> if m = [] then ''The approval was rejected'' else m)"

text \<open>What \<open>wait\<close> does with a resolved request.\<close>

definition resolve :: "approval_request \<Rightarrow> exn + approval_request" where
  "resolve r = (if ap_decision r \<noteq> Some ''approved''
     then Inl (GatewayExn (ApprovalRejectedError (rejection_reason r))) else Inr r)"

section \<open>The in-memory queue\<close>

datatype queue_op = Submit approval_request | Decide string bool string string

record mem_queue =
  mq_requests :: "(string, approval_request) dict"
  mq_env :: "queue_op list list"

definition mem_submit :: "approval_request \<Rightarrow> (mem_queue, unit) aio" where
  "mem_submit r = modify_io (\<lambda>q. q\<lparr>mq_requests := dict_set (ap_approval_id r) r (mq_requests q)\<rparr>)"

definition mem_decide :: "string \<Rightarrow> bool \<Rightarrow> string \<Rightarrow> string \<Rightarrow> (mem_queue, unit) aio" where
  "mem_decide aid approved approver reason = (\<lambda>q.
     if str_strip reason = []
     then (Inl (GatewayExn (ApprovalRejectedError ''An approval or rejection requires a reason'')), q)
     else case dict_get (mq_requests q) aid of
         None \<Rightarrow> (Inl (GatewayExn ApprovalTimeoutError), q)
       | Some r \<Rightarrow> (Inr (), q\<lparr>mq_requests := dict_set aid (decided approved approver reason r) (mq_requests q)\<rparr>))"

fun mem_apply :: "queue_op \<Rightarrow> mem_queue \<Rightarrow> mem_queue" where
  "mem_apply (Submit r) q = snd (mem_submit r q)"
| "mem_apply (Decide aid approved approver reason) q = snd (mem_decide aid approved approver reason q)"

definition mem_resolved :: "string \<Rightarrow> mem_queue \<Rightarrow> approval_request option" where
  "mem_resolved aid q = (case dict_get (mq_requests q) aid of
       None \<Rightarrow> None
     | Some r \<Rightarrow> if ap_decision r \<noteq> None \<and> ap_decision r \<noteq> Some [] then Some r else None)"

text \<open>The loop over \<open>condition.wait()\<close>: each operation of another task notifies it; running
  out of them is the timeout.\<close>

fun mem_wait_loop :: "string \<Rightarrow> queue_op list \<Rightarrow> (mem_queue, approval_request) aio" where
  "mem_wait_loop aid ops q = (case mem_resolved aid q of
       Some r \<Rightarrow> (resolve r, q)
     | None \<Rightarrow> (case ops of
           [] \<Rightarrow> (Inl (GatewayExn ApprovalTimeoutError), q)
         | ev # rest \<Rightarrow> mem_wait_loop aid rest (mem_apply ev q)))"

declare mem_wait_loop.simps [simp del]

definition mem_wait :: "string \<Rightarrow> (mem_queue, approval_request) aio" where
  "mem_wait aid q = (case mq_env q of
       [] \<Rightarrow> mem_wait_loop aid [] q
     | ops # rest \<Rightarrow> mem_wait_loop aid ops (q\<lparr>mq_env := rest\<rparr>))"

definition mem_list_pending :: "(mem_queue, approval_request list) aio" where
  "mem_list_pending = gets_io (\<lambda>q. filter (\<lambda>r. ap_decision r = None) (dict_values (mq_requests q)))"

definition InMemoryApprovalQueue :: "mem_queue approval_queue" where
  "InMemoryApprovalQueue = \<lparr>aq_submit = mem_submit, aq_wait = mem_wait, aq_decide = mem_decide,
     aq_list_pending = mem_list_pending\<rparr>"

section \<open>The Redis queue\<close>

text \<open>
  Values are pydantic's JSON text, written by \<open>qc_dump\<close> and read by \<open>qc_load\<close>.  A command
  succeeds or fails as \<open>rq_net\<close> says.  \<open>rq_data\<close> is in the order in which \<open>scan_iter\<close>
  visits the keys.  A poll of \<open>wait\<close> sees the store after the operations of one entry of the
  window.
\<close>

record 'raw queue_codec =
  qc_dump :: "approval_request \<Rightarrow> 'raw"
  qc_load :: "'raw \<Rightarrow> exn + approval_request"

record 'raw redis_queue =
  rq_data :: "(string, 'raw) dict"
  rq_net :: "nat \<Rightarrow> bool"
  rq_trips :: nat
  rq_env :: "queue_op list list list"

definition approval_key :: "string \<Rightarrow> string" where
  "approval_key aid = ''gateway:approval:'' @ aid"

definition redis_cmd :: "('raw redis_queue, unit) aio" where
  "redis_cmd q = (if rq_net q (rq_trips q) then Inr () else Inl unavailable,
     q\<lparr>rq_trips := Suc (rq_trips q)\<rparr>)"

definition redis_submit :: "'raw queue_codec \<Rightarrow> approval_request \<Rightarrow> ('raw redis_queue, unit) aio" where
  "redis_submit c r = bind_io redis_cmd (\<lambda>_. modify_io (\<lambda>q.
     q\<lparr>rq_data := dict_set (approval_key (ap_approval_id r)) (qc_dump c r) (rq_data q)\<rparr>))"

definition redis_fetch :: "'raw queue_codec \<Rightarrow> string \<Rightarrow> ('raw redis_queue, approval_request option) aio" where
  "redis_fetch c aid = bind_io redis_cmd (\<lambda>_ q. case dict_get (rq_data q) (approval_key aid) of
       None \<Rightarrow> (Inr None, q)
     | Some raw \<Rightarrow> (case qc_load c raw of Inl e \<Rightarrow> (Inl e, q) | Inr r \<Rightarrow> (Inr (Some r), q)))"

definition redis_decide :: "'raw queue_codec \<Rightarrow> string \<Rightarrow> bool \<Rightarrow> string \<Rightarrow> string \<Rightarrow>
    ('raw redis_queue, unit) aio" where
  "redis_decide c aid approved approver reason =
     (if str_strip reason = []
      then raise_io (GatewayExn (ApprovalRejectedError ''An approval or rejection requires a reason''))
      else bind_io (redis_fetch c aid) (\<lambda>found. case found of
          None \<Rightarrow> raise_io (GatewayExn ApprovalTimeoutError)
        | Some r \<Rightarrow> bind_io redis_cmd (\<lambda>_. modify_io (\<lambda>q. q\<lparr>rq_data :=
            dict_set (approval_key aid) (qc_dump c (decided approved approver reason r)) (rq_data q)\<rparr>))))"

fun redis_apply :: "'raw queue_codec \<Rightarrow> queue_op \<Rightarrow> 'raw redis_queue \<Rightarrow> 'raw redis_queue" where
  "redis_apply c (Submit r) q = snd (redis_submit c r q)"
| "redis_apply c (Decide aid approved approver reason) q = snd (redis_decide c aid approved approver reason q)"

fun redis_wait_loop :: "'raw queue_codec \<Rightarrow> string \<Rightarrow> queue_op list list \<Rightarrow>
    ('raw redis_queue, approval_request) aio" where
  "redis_wait_loop c aid [] q = (Inl (GatewayExn ApprovalTimeoutError), q)"
| "redis_wait_loop c aid (ops # polls) q =
     (case redis_fetch c aid (fold (redis_apply c) ops q) of
        (Inl e, q') \<Rightarrow> (Inl e, q')
      | (Inr None, q') \<Rightarrow> redis_wait_loop c aid polls q'
      | (Inr (Some r), q') \<Rightarrow>
          (if ap_decision r \<noteq> None then (resolve r, q') else redis_wait_loop c aid polls q'))"

definition redis_wait :: "'raw queue_codec \<Rightarrow> string \<Rightarrow> ('raw redis_queue, approval_request) aio" where
  "redis_wait c aid q = (case rq_env q of
       [] \<Rightarrow> redis_wait_loop c aid [] q
     | polls # rest \<Rightarrow> redis_wait_loop c aid polls (q\<lparr>rq_env := rest\<rparr>))"

fun redis_collect :: "'raw queue_codec \<Rightarrow> string list \<Rightarrow> ('raw redis_queue, approval_request list) aio" where
  "redis_collect c [] q = (Inr [], q)"
| "redis_collect c (key # keys) q = bind_io redis_cmd (\<lambda>_ q'. case dict_get (rq_data q') key of
       None \<Rightarrow> redis_collect c keys q'
     | Some raw \<Rightarrow> (case qc_load c raw of
           Inl e \<Rightarrow> (Inl e, q')
         | Inr r \<Rightarrow> bind_io (redis_collect c keys)
             (\<lambda>rs. ret (if ap_decision r = None then r # rs else rs)) q')) q"

definition redis_list_pending :: "'raw queue_codec \<Rightarrow> ('raw redis_queue, approval_request list) aio" where
  "redis_list_pending c = bind_io redis_cmd (\<lambda>_ q.
     redis_collect c (filter (prefix ''gateway:approval:'') (dict_keys (rq_data q))) q)"

definition RedisApprovalQueue :: "'raw queue_codec \<Rightarrow> 'raw redis_queue approval_queue" where
  "RedisApprovalQueue c = \<lparr>aq_submit = redis_submit c, aq_wait = redis_wait c,
     aq_decide = redis_decide c, aq_list_pending = redis_list_pending c\<rparr>"

section \<open>Creating requests\<close>

definition create_approval_request :: "string \<Rightarrow> timestamp \<Rightarrow> string \<Rightarrow> string \<Rightarrow> jdict \<Rightarrow> jdict \<Rightarrow>
    string \<Rightarrow> approval_request" where
  "create_approval_request uid now call_id tool_name arguments policy_input matched_rule =
     \<lparr>ap_approval_id = uid, ap_call_id = call_id, ap_tool_name = tool_name,
      ap_arguments = arguments, ap_policy_input = policy_input, ap_matched_rule = matched_rule,
      ap_created_at = now, ap_decision = None, ap_approver = None, ap_reason = None\<rparr>"

section \<open>The operator's command line\<close>

record cli_args =
  cli_approval_id :: string
  cli_decision :: "bool option"
  cli_approver :: "string option"
  cli_reason :: "string option"

text \<open>\<open>_run\<close> for any queue; the lines printed are the approval identifiers listed, newest
  first.  The parser admits the decisions approve (\<open>True\<close>) and reject (\<open>False\<close>);
  \<open>parser.error\<close> raises \<open>SystemExit\<close>.\<close>

definition cli_run :: "'q approval_queue \<Rightarrow> cli_args \<Rightarrow> ('q, string list) aio" where
  "cli_run Q args = bind_io (aq_list_pending Q) (\<lambda>pending.
     let listed = map ap_approval_id (rev (sort_key ap_created_at (rev pending))) in
     if cli_approval_id args = ''list'' then ret listed
     else if cli_approval_id args \<notin> set (map ap_approval_id pending)
     then ret (listed @ [''Unknown or expired approval ID: '' @ cli_approval_id args])
     else case (cli_decision args, cli_approver args, cli_reason args) of
         (Some d, Some a, Some m) \<Rightarrow>
           bind_io (aq_decide Q (cli_approval_id args) d a m)
             (\<lambda>_. ret (listed @ [''Recorded '' @ (if d then ''approve'' else ''reject'') @ '' decision for '' @ cli_approval_id args]))
       | _ \<Rightarrow> raise_io (PyExn ''SystemExit''
           ''decision, --approver, and --reason are required for approval changes''))"

section \<open>Laws of an approval queue\<close>

locale approval_queue_laws =
  fixes Q :: "'q approval_queue"
    and look :: "'q \<Rightarrow> string \<rightharpoonup> approval_request"
    and ok :: "'q \<Rightarrow> bool"
  assumes ids: "ok q \<Longrightarrow> look q aid = Some r \<Longrightarrow> ap_approval_id r = aid"
    and submit_law: "ok q \<Longrightarrow> aq_submit Q r q = (x, q') \<Longrightarrow> ok q' \<and> (case x of
        Inr u \<Rightarrow> look q' = (look q)(ap_approval_id r \<mapsto> r)
      | Inl e \<Rightarrow> e = unavailable \<and> look q' = look q)"
    and wait_law: "ok q \<Longrightarrow> aq_wait Q aid q = (y, q') \<Longrightarrow> ok q' \<and> (case y of
        Inr r \<Rightarrow> look q' aid = Some r \<and> ap_decision r = Some ''approved''
      | Inl e \<Rightarrow> e = unavailable \<or> e = GatewayExn ApprovalTimeoutError \<or>
          (\<exists>r. look q' aid = Some r \<and> ap_decision r \<noteq> None \<and> ap_decision r \<noteq> Some ''approved'' \<and>
             e = GatewayExn (ApprovalRejectedError (rejection_reason r))))"
    and decide_law: "ok q \<Longrightarrow> aq_decide Q aid b who why q = (x, q') \<Longrightarrow> ok q' \<and> (case x of
        Inr u \<Rightarrow> str_strip why \<noteq> [] \<and>
          (\<exists>r. look q aid = Some r \<and> look q' = (look q)(aid \<mapsto> decided b who why r))
      | Inl e \<Rightarrow> look q' = look q)"
    and pending_law: "ok q \<Longrightarrow> aq_list_pending Q q = (z, q') \<Longrightarrow> ok q' \<and> look q' = look q \<and> (case z of
        Inr rs \<Rightarrow> set rs = {r. \<exists>aid. look q aid = Some r \<and> ap_decision r = None}
      | Inl e \<Rightarrow> e = unavailable)"
begin

text \<open>The command line never changes a request that has a decision.\<close>

lemma cli_keeps_decided:
  assumes ok: "ok q" and r: "look q aid = Some r" and d: "ap_decision r \<noteq> None"
  shows "look (snd (cli_run Q args q)) aid = Some r"
proof -
  obtain z q1 where z: "aq_list_pending Q q = (z, q1)" by force
  with ok have q1: "ok q1" "look q1 = look q" and pend: "case z of
      Inr rs \<Rightarrow> set rs = {r. \<exists>aid. look q aid = Some r \<and> ap_decision r = None} | Inl e \<Rightarrow> e = unavailable"
    using pending_law by blast+
  show ?thesis
  proof (cases z)
    case (Inl e)
    with z q1 r show ?thesis by (simp add: cli_run_def bind_io_def)
  next
    case (Inr rs)
    have other: "cli_approval_id args \<noteq> aid" if "cli_approval_id args \<in> set (map ap_approval_id rs)"
      using that pend Inr r d ids [OF ok] by auto
    have dec: "look (snd (aq_decide Q (cli_approval_id args) b who why q1)) aid = Some r"
      if "cli_approval_id args \<noteq> aid" for b who why
    proof -
      obtain x q2 where "aq_decide Q (cli_approval_id args) b who why q1 = (x, q2)" by force
      with decide_law [OF q1(1) this] q1(2) r that show ?thesis by (cases x) auto
    qed
    have fin: "look (snd (bind_io (aq_decide Q (cli_approval_id args) b who why) (\<lambda>_. ret v) q1)) aid = Some r"
      if "cli_approval_id args \<noteq> aid" for b who why and v :: "string list"
      using dec [OF that, of b who why] by (auto simp: bind_io_def ret_def split: prod.split sum.split)
    have run: "cli_run Q args q = (let listed = map ap_approval_id (rev (sort_key ap_created_at (rev rs))) in
       if cli_approval_id args = ''list'' then ret listed
       else if cli_approval_id args \<notin> set (map ap_approval_id rs)
       then ret (listed @ [''Unknown or expired approval ID: '' @ cli_approval_id args])
       else case (cli_decision args, cli_approver args, cli_reason args) of
         (Some d, Some a, Some m) \<Rightarrow>
           bind_io (aq_decide Q (cli_approval_id args) d a m)
             (\<lambda>_. ret (listed @ [''Recorded '' @ (if d then ''approve'' else ''reject'') @
                '' decision for '' @ cli_approval_id args]))
       | _ \<Rightarrow> raise_io (PyExn ''SystemExit''
           ''decision, --approver, and --reason are required for approval changes'')) q1"
      unfolding cli_run_def using z Inr by (simp add: bind_io_def)
    have still: "look (snd (ret v q1)) aid = Some r" "look (snd (raise_io e q1)) aid = Some r"
      for v :: "string list" and e
      using q1(2) r by (simp_all add: ret_def raise_io_def)
    show ?thesis
      unfolding run Let_def using other fin still by (auto split: option.split)
  qed
qed

end

section \<open>Lemmas on the in-memory queue\<close>

definition mem_queue_ok :: "mem_queue \<Rightarrow> bool" where
  "mem_queue_ok q = (distinct (dict_keys (mq_requests q)) \<and>
     (\<forall>aid r. dict_get (mq_requests q) aid = Some r \<longrightarrow> ap_approval_id r = aid))"

abbreviation mem_look :: "mem_queue \<Rightarrow> string \<rightharpoonup> approval_request" where
  "mem_look q \<equiv> map_of (mq_requests q)"

lemma decided_id [simp]: "ap_approval_id (decided b who why r) = ap_approval_id r"
  by (simp add: decided_def)

lemma mem_submit_ok: "mem_queue_ok q \<Longrightarrow> mem_queue_ok (snd (mem_submit r q))"
  by (auto simp: mem_queue_ok_def mem_submit_def modify_io_def set_dict_set)

lemma mem_decide_ok: "mem_queue_ok q \<Longrightarrow> mem_queue_ok (snd (mem_decide aid b who why q))"
  by (auto simp: mem_queue_ok_def mem_decide_def set_dict_set split: option.splits)

lemma mem_apply_ok: "mem_queue_ok q \<Longrightarrow> mem_queue_ok (mem_apply ev q)"
  by (cases ev) (simp_all add: mem_submit_ok mem_decide_ok)

lemma mem_resolved_look:
  "mem_resolved aid q = Some r \<Longrightarrow> mem_look q aid = Some r \<and> ap_decision r \<noteq> None"
  by (auto simp: mem_resolved_def split: option.splits if_splits)

lemma mem_wait_loop_law:
  "mem_queue_ok q \<Longrightarrow> mem_wait_loop aid ops q = (y, q') \<Longrightarrow> mem_queue_ok q' \<and> (case y of
        Inr r \<Rightarrow> mem_look q' aid = Some r \<and> ap_decision r = Some ''approved''
      | Inl e \<Rightarrow> e = unavailable \<or> e = GatewayExn ApprovalTimeoutError \<or>
          (\<exists>r. mem_look q' aid = Some r \<and> ap_decision r \<noteq> None \<and> ap_decision r \<noteq> Some ''approved'' \<and>
             e = GatewayExn (ApprovalRejectedError (rejection_reason r))))"
proof (induction ops arbitrary: q)
  case Nil
  then show ?case
    by (auto simp: mem_wait_loop.simps [of aid "[]"] resolve_def split: option.splits if_splits
        dest!: mem_resolved_look)
next
  case (Cons ev ops)
  show ?case
  proof (cases "mem_resolved aid q")
    case None
    with Cons.prems have "mem_wait_loop aid ops (mem_apply ev q) = (y, q')"
      by (simp add: mem_wait_loop.simps [of aid "ev # ops"])
    with Cons.IH mem_apply_ok [OF Cons.prems(1)] show ?thesis by blast
  next
    case (Some r)
    with Cons.prems show ?thesis
      by (auto simp: mem_wait_loop.simps [of aid "ev # ops"] resolve_def split: if_splits
          dest!: mem_resolved_look)
  qed
qed

interpretation memq: approval_queue_laws InMemoryApprovalQueue mem_look mem_queue_ok
proof
  show "ap_approval_id r = aid" if "mem_queue_ok q" "mem_look q aid = Some r" for q aid r
    using that by (simp add: mem_queue_ok_def)
next
  fix q r x q' assume ok: "mem_queue_ok q" and st: "aq_submit InMemoryApprovalQueue r q = (x, q')"
  from st have "q' = snd (mem_submit r q)" by (simp add: InMemoryApprovalQueue_def)
  with st mem_submit_ok [OF ok] show "mem_queue_ok q' \<and> (case x of
      Inr u \<Rightarrow> mem_look q' = (mem_look q)(ap_approval_id r \<mapsto> r)
    | Inl e \<Rightarrow> e = unavailable \<and> mem_look q' = mem_look q)"
    by (auto simp: InMemoryApprovalQueue_def mem_submit_def modify_io_def fun_eq_iff)
next
  fix q aid y q' assume ok: "mem_queue_ok q" and st: "aq_wait InMemoryApprovalQueue aid q = (y, q')"
  have ok': "mem_queue_ok (q\<lparr>mq_env := env\<rparr>)" for env
    using ok by (simp add: mem_queue_ok_def)
  from st obtain ops q1 where "mem_queue_ok q1" "mem_wait_loop aid ops q1 = (y, q')"
    using ok ok' by (auto simp: InMemoryApprovalQueue_def mem_wait_def split: list.splits)
  then show "mem_queue_ok q' \<and> (case y of
        Inr r \<Rightarrow> mem_look q' aid = Some r \<and> ap_decision r = Some ''approved''
      | Inl e \<Rightarrow> e = unavailable \<or> e = GatewayExn ApprovalTimeoutError \<or>
          (\<exists>r. mem_look q' aid = Some r \<and> ap_decision r \<noteq> None \<and> ap_decision r \<noteq> Some ''approved'' \<and>
             e = GatewayExn (ApprovalRejectedError (rejection_reason r))))"
    by (rule mem_wait_loop_law)
next
  fix q aid b who why x q'
  assume ok: "mem_queue_ok q" and st: "aq_decide InMemoryApprovalQueue aid b who why q = (x, q')"
  from st have "q' = snd (mem_decide aid b who why q)" by (simp add: InMemoryApprovalQueue_def)
  with st mem_decide_ok [OF ok] show "mem_queue_ok q' \<and> (case x of
        Inr u \<Rightarrow> str_strip why \<noteq> [] \<and>
          (\<exists>r. mem_look q aid = Some r \<and> mem_look q' = (mem_look q)(aid \<mapsto> decided b who why r))
      | Inl e \<Rightarrow> mem_look q' = mem_look q)"
    by (auto simp: InMemoryApprovalQueue_def mem_decide_def fun_eq_iff split: if_splits option.splits)
next
  fix q z q' assume ok: "mem_queue_ok q" and st: "aq_list_pending InMemoryApprovalQueue q = (z, q')"
  from ok have "set (dict_values (mq_requests q)) = ran (mem_look q)"
    by (simp add: mem_queue_ok_def ran_distinct)
  with ok st show "mem_queue_ok q' \<and> mem_look q' = mem_look q \<and> (case z of
        Inr rs \<Rightarrow> set rs = {r. \<exists>aid. mem_look q aid = Some r \<and> ap_decision r = None}
      | Inl e \<Rightarrow> e = unavailable)"
    by (auto simp: InMemoryApprovalQueue_def mem_list_pending_def gets_io_def ran_def)
qed

section \<open>Lemmas on the Redis queue\<close>

definition qcodec_ok :: "'raw queue_codec \<Rightarrow> bool" where
  "qcodec_ok c = (\<forall>r. qc_load c (qc_dump c r) = Inr r)"

definition redisq_look :: "'raw queue_codec \<Rightarrow> 'raw redis_queue \<Rightarrow> string \<rightharpoonup> approval_request" where
  "redisq_look c q aid = (case dict_get (rq_data q) (approval_key aid) of
       None \<Rightarrow> None
     | Some raw \<Rightarrow> (case qc_load c raw of Inl e \<Rightarrow> None | Inr r \<Rightarrow> Some r))"

text \<open>Every value under an approval key is the JSON text of a request with that identifier.\<close>

definition redisq_ok :: "'raw queue_codec \<Rightarrow> 'raw redis_queue \<Rightarrow> bool" where
  "redisq_ok c q = (\<forall>key raw. dict_get (rq_data q) key = Some raw \<longrightarrow> prefix ''gateway:approval:'' key \<longrightarrow>
     (\<exists>r. qc_load c raw = Inr r \<and> key = approval_key (ap_approval_id r)))"

lemma approval_key_inj [simp]: "approval_key a = approval_key b \<longleftrightarrow> a = b"
  by (simp add: approval_key_def)

lemma approval_key_prefix [simp]: "prefix ''gateway:approval:'' (approval_key aid)"
  by (simp add: approval_key_def)

lemma redisq_look_cong: "rq_data q' = rq_data q \<Longrightarrow> redisq_look c q' = redisq_look c q"
  by (simp add: redisq_look_def fun_eq_iff)

lemma redisq_ok_cong: "rq_data q' = rq_data q \<Longrightarrow> redisq_ok c q' = redisq_ok c q"
  by (simp add: redisq_ok_def)

lemma redisq_cmd_frame: "redis_cmd q = (x, q') \<Longrightarrow> rq_data q' = rq_data q \<and> rq_env q' = rq_env q \<and>
    (x = Inr () \<or> x = Inl unavailable)"
  by (auto simp: redis_cmd_def split: if_splits)

lemma redisq_write:
  assumes "qcodec_ok c" and "redisq_ok c q"
    and "rq_data q' = dict_set (approval_key (ap_approval_id r)) (qc_dump c r) (rq_data q)"
  shows "redisq_ok c q' \<and> redisq_look c q' = (redisq_look c q)(ap_approval_id r \<mapsto> r)"
  using assms by (auto simp: redisq_ok_def redisq_look_def qcodec_ok_def fun_eq_iff)

lemma redis_fetch_law:
  assumes ok: "redisq_ok c q" and f: "redis_fetch c aid q = (x, q')"
  shows "rq_data q' = rq_data q \<and> (x = Inl unavailable \<or> x = Inr (redisq_look c q aid))"
proof -
  obtain y q1 where cmd: "redis_cmd q = (y, q1)" by force
  note fr = redisq_cmd_frame [OF cmd]
  show ?thesis
  proof (cases "dict_get (rq_data q) (approval_key aid)")
    case None
    with f cmd fr show ?thesis by (auto simp: redis_fetch_def bind_io_def redisq_look_def)
  next
    case (Some raw)
    with ok obtain r where "qc_load c raw = Inr r"
      unfolding redisq_ok_def by (metis approval_key_prefix)
    with Some f cmd fr show ?thesis by (auto simp: redis_fetch_def bind_io_def redisq_look_def)
  qed
qed

lemma redisq_ids:
  assumes "redisq_ok c q" and "redisq_look c q aid = Some r"
  shows "ap_approval_id r = aid"
proof -
  obtain raw where raw: "dict_get (rq_data q) (approval_key aid) = Some raw" "qc_load c raw = Inr r"
    using assms(2) by (auto simp: redisq_look_def split: option.splits sum.splits)
  with assms(1) have "\<exists>r'. qc_load c raw = Inr r' \<and> approval_key aid = approval_key (ap_approval_id r')"
    unfolding redisq_ok_def by (metis approval_key_prefix)
  with raw(2) show ?thesis by auto
qed

lemma redis_submit_law:
  assumes c: "qcodec_ok c" and ok: "redisq_ok c q" and st: "redis_submit c r q = (x, q')"
  shows "redisq_ok c q' \<and> (case x of Inr u \<Rightarrow> redisq_look c q' = (redisq_look c q)(ap_approval_id r \<mapsto> r)
      | Inl e \<Rightarrow> e = unavailable \<and> redisq_look c q' = redisq_look c q)"
proof -
  obtain y q1 where cmd: "redis_cmd q = (y, q1)" by force
  note fr = redisq_cmd_frame [OF cmd]
  then consider "y = Inr ()" "x = Inr ()"
      "rq_data q' = dict_set (approval_key (ap_approval_id r)) (qc_dump c r) (rq_data q)"
    | "y = Inl unavailable" "x = Inl unavailable" "rq_data q' = rq_data q"
    using st cmd by (auto simp: redis_submit_def bind_io_def modify_io_def)
  then show ?thesis
  proof cases
    case 1
    with redisq_write [OF c ok 1(3)] show ?thesis by simp
  next
    case 2
    with ok redisq_ok_cong [OF 2(3), of c] redisq_look_cong [OF 2(3), of c] show ?thesis by simp
  qed
qed

lemma redis_decide_law:
  assumes c: "qcodec_ok c" and ok: "redisq_ok c q" and st: "redis_decide c aid b who why q = (x, q')"
  shows "redisq_ok c q' \<and> (case x of
        Inr u \<Rightarrow> str_strip why \<noteq> [] \<and>
          (\<exists>r. redisq_look c q aid = Some r \<and> redisq_look c q' = (redisq_look c q)(aid \<mapsto> decided b who why r))
      | Inl e \<Rightarrow> redisq_look c q' = redisq_look c q)"
proof -
  obtain f q1 where fe: "redis_fetch c aid q = (f, q1)" by force
  note law = redis_fetch_law [OF ok fe]
  obtain y q2 where cmd: "redis_cmd q1 = (y, q2)" by force
  note fr = redisq_cmd_frame [OF cmd]
  consider (stored) r where "x = Inr ()" "str_strip why \<noteq> []" "redisq_look c q aid = Some r"
      "rq_data q' = dict_set (approval_key aid) (qc_dump c (decided b who why r)) (rq_data q)"
    | (frame) e where "x = Inl e" "rq_data q' = rq_data q"
    using st fe cmd law fr
    by (auto simp: redis_decide_def raise_io_def bind_io_def modify_io_def split: if_splits option.splits)
  then show ?thesis
  proof cases
    case stored
    then have "ap_approval_id (decided b who why r) = aid" using redisq_ids [OF ok] by simp
    with stored redisq_write [OF c ok, of q' "decided b who why r"] show ?thesis by auto
  next
    case frame
    with ok redisq_ok_cong [OF frame(2), of c] redisq_look_cong [OF frame(2), of c] show ?thesis by simp
  qed
qed

lemma redis_apply_ok:
  assumes c: "qcodec_ok c" and ok: "redisq_ok c q"
  shows "redisq_ok c (redis_apply c ev q)"
proof (cases ev)
  case (Submit r)
  then show ?thesis using redis_submit_law [OF c ok surjective_pairing] by simp
next
  case (Decide aid b who why)
  then show ?thesis using redis_decide_law [OF c ok surjective_pairing] by simp
qed

lemma redis_fold_ok: "qcodec_ok c \<Longrightarrow> redisq_ok c q \<Longrightarrow> redisq_ok c (fold (redis_apply c) ops q)"
  by (induction ops arbitrary: q) (simp_all add: redis_apply_ok)

lemma redis_wait_loop_law:
  assumes c: "qcodec_ok c"
  shows "redisq_ok c q \<Longrightarrow> redis_wait_loop c aid polls q = (y, q') \<Longrightarrow> redisq_ok c q' \<and> (case y of
        Inr r \<Rightarrow> redisq_look c q' aid = Some r \<and> ap_decision r = Some ''approved''
      | Inl e \<Rightarrow> e = unavailable \<or> e = GatewayExn ApprovalTimeoutError \<or>
          (\<exists>r. redisq_look c q' aid = Some r \<and> ap_decision r \<noteq> None \<and> ap_decision r \<noteq> Some ''approved'' \<and>
             e = GatewayExn (ApprovalRejectedError (rejection_reason r))))"
proof (induction polls arbitrary: q)
  case Nil
  then show ?case by auto
next
  case (Cons ops polls)
  let ?q = "fold (redis_apply c) ops q"
  have ok: "redisq_ok c ?q" using c Cons.prems(1) by (rule redis_fold_ok)
  obtain f q1 where fe: "redis_fetch c aid ?q = (f, q1)" by force
  note law = redis_fetch_law [OF ok fe]
  then have ok1: "redisq_ok c q1" and look1: "redisq_look c q1 = redisq_look c ?q"
    using ok redisq_ok_cong [of q1 ?q c] redisq_look_cong [of q1 ?q c] by simp_all
  consider (err) "f = Inl unavailable" | (absent) "f = Inr None"
    | (pending) r where "f = Inr (Some r)" "ap_decision r = None"
    | (done1) r where "f = Inr (Some r)" "ap_decision r \<noteq> None" "redisq_look c q1 aid = Some r"
    using law look1 by (cases "redisq_look c ?q aid") auto
  then show ?case
  proof cases
    case err
    with Cons.prems(2) fe ok1 show ?thesis by auto
  next
    case absent
    with Cons.prems(2) fe Cons.IH [OF ok1] show ?thesis by simp
  next
    case pending
    with Cons.prems(2) fe Cons.IH [OF ok1] show ?thesis by simp
  next
    case done1
    with Cons.prems(2) fe ok1 show ?thesis by (auto simp: resolve_def split: if_splits)
  qed
qed

lemma redisq_look_Some:
  "redisq_look c q aid = Some r \<longleftrightarrow>
   (\<exists>raw. dict_get (rq_data q) (approval_key aid) = Some raw \<and> qc_load c raw = Inr r)"
  by (auto simp: redisq_look_def split: option.split sum.split)

lemma redis_collect_law:
  assumes "redisq_ok c q" and "\<forall>k \<in> set keys. prefix ''gateway:approval:'' k"
    and "redis_collect c keys q = (z, q')"
  shows "rq_data q' = rq_data q \<and> (case z of
      Inr rs \<Rightarrow> set rs = {r. \<exists>k \<in> set keys. \<exists>raw. dict_get (rq_data q) k = Some raw \<and>
        qc_load c raw = Inr r \<and> ap_decision r = None}
    | Inl e \<Rightarrow> e = unavailable)"
  using assms
proof (induction keys arbitrary: q z q')
  case Nil
  then show ?case by auto
next
  case (Cons k keys)
  obtain y q1 where cmd: "redis_cmd q = (y, q1)" by force
  note fr = redisq_cmd_frame [OF cmd]
  have ok1: "redisq_ok c q1" using Cons.prems(1) fr redisq_ok_cong [of q1 q c] by simp
  obtain z1 q2 where rest: "redis_collect c keys q1 = (z1, q2)" by force
  note ih = Cons.IH [OF ok1 _ rest]
  show ?case
  proof (cases "dict_get (rq_data q) k")
    case None
    with Cons.prems cmd fr ih rest show ?thesis by (cases z1) (auto simp: bind_io_def)
  next
    case (Some raw)
    with Cons.prems(1,2) obtain r where "qc_load c raw = Inr r" unfolding redisq_ok_def by fastforce
    with Some Cons.prems cmd fr ih rest show ?thesis
      by (cases z1) (auto simp: bind_io_def ret_def)
  qed
qed

lemma redis_pending_law:
  assumes ok: "redisq_ok c q" and st: "redis_list_pending c q = (z, q')"
  shows "redisq_ok c q' \<and> redisq_look c q' = redisq_look c q \<and> (case z of
        Inr rs \<Rightarrow> set rs = {r. \<exists>aid. redisq_look c q aid = Some r \<and> ap_decision r = None}
      | Inl e \<Rightarrow> e = unavailable)"
proof -
  let ?keys = "filter (prefix ''gateway:approval:'') (dict_keys (rq_data q))"
  obtain y q1 where cmd: "redis_cmd q = (y, q1)" by force
  note fr = redisq_cmd_frame [OF cmd]
  have ok1: "redisq_ok c q1" using ok fr redisq_ok_cong [of q1 q c] by simp
  obtain z1 q2 where col: "redis_collect c ?keys q1 = (z1, q2)" by force
  have law: "rq_data q2 = rq_data q" "case z1 of
      Inr rs \<Rightarrow> set rs = {r. \<exists>k \<in> set ?keys. \<exists>raw. dict_get (rq_data q) k = Some raw \<and>
        qc_load c raw = Inr r \<and> ap_decision r = None}
    | Inl e \<Rightarrow> e = unavailable"
    using redis_collect_law [OF ok1 _ col] fr by (auto split: sum.splits)
  have "{r. \<exists>k \<in> set ?keys. \<exists>raw. dict_get (rq_data q) k = Some raw \<and> qc_load c raw = Inr r \<and>
      ap_decision r = None} = {r. \<exists>aid. redisq_look c q aid = Some r \<and> ap_decision r = None}"
    (is "?A = ?B")
  proof
    show "?A \<subseteq> ?B"
    proof
      fix r assume "r \<in> ?A"
      then obtain k raw where k: "dict_get (rq_data q) k = Some raw" "qc_load c raw = Inr r"
        "ap_decision r = None" "prefix ''gateway:approval:'' k" by auto
      with ok have "k = approval_key (ap_approval_id r)" unfolding redisq_ok_def by fastforce
      with k have "redisq_look c q (ap_approval_id r) = Some r" by (simp add: redisq_look_def)
      with k(3) show "r \<in> ?B" by blast
    qed
    show "?B \<subseteq> ?A"
    proof
      fix r assume "r \<in> ?B"
      then obtain aid raw where "dict_get (rq_data q) (approval_key aid) = Some raw"
        "qc_load c raw = Inr r" "ap_decision r = None"
        by (auto simp: redisq_look_Some)
      moreover from this have "approval_key aid \<in> set ?keys"
        by (force dest: map_of_SomeD)
      ultimately show "r \<in> ?A" by blast
    qed
  qed
  with law(2) have "case z1 of Inr rs \<Rightarrow> set rs = ?B | Inl e \<Rightarrow> e = unavailable"
    by (cases z1) (simp_all only: sum.case)
  moreover have "y = Inr () \<Longrightarrow> z = z1 \<and> q' = q2" "y = Inl unavailable \<Longrightarrow> z = Inl unavailable \<and> q' = q1"
    using st cmd col fr by (auto simp: redis_list_pending_def bind_io_def)
  ultimately show ?thesis
    using fr law(1) ok redisq_ok_cong [of q' q c] redisq_look_cong [of q' q c] by auto
qed

lemma redis_approval_queue_laws:
  assumes c: "qcodec_ok c"
  shows "approval_queue_laws (RedisApprovalQueue c) (redisq_look c) (redisq_ok c)"
proof
  show "ap_approval_id r = aid" if "redisq_ok c q" "redisq_look c q aid = Some r" for q aid r
    using that by (rule redisq_ids)
next
  fix q aid y q'
  assume ok: "redisq_ok c q" and st: "aq_wait (RedisApprovalQueue c) aid q = (y, q')"
  have ok': "redisq_ok c (q\<lparr>rq_env := env\<rparr>)" for env
    using ok redisq_ok_cong [of "q\<lparr>rq_env := env\<rparr>" q c] by simp
  from st obtain polls q1 where "redisq_ok c q1" "redis_wait_loop c aid polls q1 = (y, q')"
    using ok ok' by (auto simp: RedisApprovalQueue_def redis_wait_def split: list.splits
        simp del: redis_wait_loop.simps)
  then show "redisq_ok c q' \<and> (case y of
        Inr r \<Rightarrow> redisq_look c q' aid = Some r \<and> ap_decision r = Some ''approved''
      | Inl e \<Rightarrow> e = unavailable \<or> e = GatewayExn ApprovalTimeoutError \<or>
          (\<exists>r. redisq_look c q' aid = Some r \<and> ap_decision r \<noteq> None \<and> ap_decision r \<noteq> Some ''approved'' \<and>
             e = GatewayExn (ApprovalRejectedError (rejection_reason r))))"
    by (rule redis_wait_loop_law [OF c])
next
  fix q r x q'
  assume "redisq_ok c q" "aq_submit (RedisApprovalQueue c) r q = (x, q')"
  then show "redisq_ok c q' \<and> (case x of Inr u \<Rightarrow> redisq_look c q' = (redisq_look c q)(ap_approval_id r \<mapsto> r)
      | Inl e \<Rightarrow> e = unavailable \<and> redisq_look c q' = redisq_look c q)"
    by (intro redis_submit_law [OF c]) (simp_all add: RedisApprovalQueue_def)
next
  fix q aid b who why x q'
  assume "redisq_ok c q" "aq_decide (RedisApprovalQueue c) aid b who why q = (x, q')"
  then show "redisq_ok c q' \<and> (case x of
        Inr u \<Rightarrow> str_strip why \<noteq> [] \<and>
          (\<exists>r. redisq_look c q aid = Some r \<and> redisq_look c q' = (redisq_look c q)(aid \<mapsto> decided b who why r))
      | Inl e \<Rightarrow> redisq_look c q' = redisq_look c q)"
    by (intro redis_decide_law [OF c]) (simp_all add: RedisApprovalQueue_def)
next
  fix q z q'
  assume "redisq_ok c q" "aq_list_pending (RedisApprovalQueue c) q = (z, q')"
  then show "redisq_ok c q' \<and> redisq_look c q' = redisq_look c q \<and> (case z of
        Inr rs \<Rightarrow> set rs = {r. \<exists>aid. redisq_look c q aid = Some r \<and> ap_decision r = None}
      | Inl e \<Rightarrow> e = unavailable)"
    by (intro redis_pending_law) (simp_all add: RedisApprovalQueue_def)
qed

section \<open>Properties\<close>

text \<open>C21: a waiting call is released only by an approval.  When \<open>RedisApprovalQueue.wait\<close>
  returns, the request stored under the identifier carries the decision \<open>approved\<close> and is
  the request returned; otherwise it raises the timeout, the rejection with the operator's
  reason, or \<open>StateStoreUnavailableError\<close>.  This holds whatever other tasks submit and
  decide during the wait.  Hypotheses: pydantic reads back what it wrote, and the stored
  values are requests.\<close>

theorem redis_wait_only_releases_approved:
  assumes "qcodec_ok c" and "redisq_ok c q" and "redis_wait c aid q = (y, q')"
  shows "case y of
      Inr r \<Rightarrow> redisq_look c q' aid = Some r \<and> ap_decision r = Some ''approved'' \<and> ap_approval_id r = aid
    | Inl e \<Rightarrow> e = unavailable \<or> e = GatewayExn ApprovalTimeoutError \<or>
        (\<exists>r. redisq_look c q' aid = Some r \<and> ap_decision r \<noteq> None \<and> ap_decision r \<noteq> Some ''approved'' \<and>
           e = GatewayExn (ApprovalRejectedError (rejection_reason r)))"
proof -
  have st: "aq_wait (RedisApprovalQueue c) aid q = (y, q')"
    using assms(3) by (simp add: RedisApprovalQueue_def)
  note laws = redis_approval_queue_laws [OF assms(1)]
  note w = approval_queue_laws.wait_law [OF laws assms(2) st]
  from w approval_queue_laws.ids [OF laws] show ?thesis by (cases y) auto
qed

definition demo_codec :: "approval_request queue_codec" where
  "demo_codec = \<lparr>qc_dump = id, qc_load = Inr\<rparr>"

definition demo_request :: approval_request where
  "demo_request = create_approval_request ''a1'' 7 ''c1'' ''shell_exec'' [] [] ''destructive_risk_class''"

definition demo_queue :: "queue_op list list list \<Rightarrow> approval_request redis_queue" where
  "demo_queue env = \<lparr>rq_data = [(approval_key ''a1'', demo_request)], rq_net = (\<lambda>_. True),
     rq_trips = 0, rq_env = env\<rparr>"

lemma demo_queue_ok: "qcodec_ok demo_codec" "redisq_ok demo_codec (demo_queue env)"
  by (auto simp: qcodec_ok_def demo_codec_def redisq_ok_def demo_queue_def demo_request_def
      create_approval_request_def split: if_splits)

theorem redis_wait_only_releases_approved_witness:
  "\<exists>r q'. redis_wait demo_codec ''a1'' (demo_queue [[[], [Decide ''a1'' True ''op'' ''ok'']]]) = (Inr r, q') \<and>
     redisq_look demo_codec q' ''a1'' = Some r \<and> ap_decision r = Some ''approved'' \<and>
     ap_approver r = Some ''op''"
proof -
  let ?q = "demo_queue [[[], [Decide ''a1'' True ''op'' ''ok'']]]"
  have strip: "str_strip ''ok'' = ''ok''" by code_simp
  have "\<exists>r q'. redis_wait demo_codec ''a1'' ?q = (Inr r, q') \<and> ap_approver r = Some ''op''"
    by (simp add: redis_wait_def demo_queue_def redis_fetch_def redis_cmd_def bind_io_def demo_codec_def
        demo_request_def create_approval_request_def redis_decide_def strip modify_io_def decided_def
        decision_text_def resolve_def)
  then obtain r q' where w: "redis_wait demo_codec ''a1'' ?q = (Inr r, q')" "ap_approver r = Some ''op''"
    by blast
  from redis_wait_only_releases_approved [OF demo_queue_ok w(1)] w show ?thesis by auto
qed

lemma mem_apply_other:
  assumes "case ev of Submit r \<Rightarrow> ap_approval_id r \<noteq> aid | Decide i b who why \<Rightarrow> i \<noteq> aid"
  shows "mem_look (mem_apply ev q) aid = mem_look q aid"
  using assms by (cases ev) (auto simp: mem_submit_def modify_io_def mem_decide_def split: option.splits)

lemma mem_wait_until_decided:
  assumes "mem_look q aid = Some r" and "ap_decision r = None" and "str_strip why \<noteq> []"
    and "\<forall>ev \<in> set pre. case ev of Submit r \<Rightarrow> ap_approval_id r \<noteq> aid | Decide i b who why \<Rightarrow> i \<noteq> aid"
  shows "fst (mem_wait_loop aid (pre @ Decide aid b who why # post) q) = resolve (decided b who why r)"
  using assms
proof (induction pre arbitrary: q)
  case Nil
  let ?d = "decided b who why r"
  have none: "mem_resolved aid q = None" using Nil by (simp add: mem_resolved_def)
  have "mem_resolved aid (mem_apply (Decide aid b who why) q) = Some ?d"
    using Nil by (simp add: mem_resolved_def mem_decide_def decided_def decision_text_def)
  then show ?case
    using none by (simp add: mem_wait_loop.simps [of aid "Decide aid b who why # post"]
        mem_wait_loop.simps [of aid post])
next
  case (Cons ev pre)
  have none: "mem_resolved aid q = None" using Cons.prems by (simp add: mem_resolved_def)
  have "mem_look (mem_apply ev q) aid = Some r"
    using mem_apply_other [of aid ev q] Cons.prems by simp
  then show ?case
    using Cons none by (simp add: mem_wait_loop.simps [of aid "ev # pre @ Decide aid b who why # post"])
qed



text \<open>The operator's command line never alters a request that already has a decision,
  on the Redis queue it works on, whatever its arguments and however the network behaves.\<close>

theorem cli_keeps_decided_requests:
  assumes "qcodec_ok c" and "redisq_ok c q" and "redisq_look c q aid = Some r" and "ap_decision r \<noteq> None"
  shows "redisq_look c (snd (cli_run (RedisApprovalQueue c) args q)) aid = Some r"
  by (rule approval_queue_laws.cli_keeps_decided [OF redis_approval_queue_laws [OF assms(1)] assms(2-4)])

theorem cli_keeps_decided_requests_witness:
  "redisq_look demo_codec (snd (cli_run (RedisApprovalQueue demo_codec)
      \<lparr>cli_approval_id = ''a1'', cli_decision = Some True, cli_approver = Some ''op'', cli_reason = Some ''ok''\<rparr>
      (snd (redis_decide demo_codec ''a1'' False ''boss'' ''no'' (demo_queue []))))) ''a1'' =
   Some (decided False ''boss'' ''no'' demo_request)"
proof -
  have strip: "str_strip ''no'' = ''no''" by code_simp
  let ?q = "snd (redis_decide demo_codec ''a1'' False ''boss'' ''no'' (demo_queue []))"
  have "redisq_ok demo_codec ?q"
    using redis_decide_law [OF demo_queue_ok(1) demo_queue_ok(2) surjective_pairing] by blast
  moreover have "redisq_look demo_codec ?q ''a1'' = Some (decided False ''boss'' ''no'' demo_request)"
    by (simp add: redis_decide_def strip redis_fetch_def redis_cmd_def bind_io_def demo_queue_def
        demo_codec_def modify_io_def redisq_look_def)
  ultimately show ?thesis
    by (rule cli_keeps_decided_requests [OF demo_queue_ok(1)]) (simp add: decided_def)
qed

text \<open>The queue itself does not protect a decision.  \<open>decide\<close> of both queues
  accepts a second decision and overwrites the first, so a rejected request becomes approved;
  the guard is only in the command line and in \<open>resolve_approval\<close> of the control plane.\<close>

theorem decide_overwrites_rejection:
  assumes "mem_look q aid = Some r" and "ap_decision r = Some ''rejected''" and "str_strip why \<noteq> []"
  shows "fst (mem_decide aid True who why q) = Inr () \<and>
    mem_look (snd (mem_decide aid True who why q)) aid = Some (decided True who why r)"
  using assms by (simp add: mem_decide_def)

theorem decide_overwrites_rejection_witness:
  "map_option ap_decision (mem_look (snd (mem_decide ''a1'' True ''eve'' ''please''
     \<lparr>mq_requests = [(''a1'', decided False ''boss'' ''no'' demo_request)], mq_env = []\<rparr>)) ''a1'') =
   Some (Some ''approved'')"
proof -
  have "str_strip ''please'' = ''please''" by code_simp
  then show ?thesis
    using decide_overwrites_rejection [of "\<lparr>mq_requests = [(''a1'', decided False ''boss'' ''no'' demo_request)],
      mq_env = []\<rparr>" "''a1''" "decided False ''boss'' ''no'' demo_request" "''please''" "''eve''"]
    by (simp add: decided_def decision_text_def)
qed

end
