(* ===== verification/Policy.thy ===== *)
theory Policy
  imports Models
begin

text \<open>
  Policy evaluation: the decision constructor (\<open>gateway/policy/decisions.py\<close>), the clients
  (\<open>gateway/policy/client.py\<close>) and the policy itself
  (\<open>gateway/policy/policies/tools.rego\<close>).  OPA is reached over HTTP, which is a parameter:
  a function from the request to an outcome on the external world.  The Rego rules are
  evaluated on the JSON input with Rego's meaning of undefined references and of complete
  rules: with no matching rule the default applies, and rules that give different values are
  a conflict, on which OPA answers with an error.
\<close>

section \<open>Clients\<close>

datatype http_result = HttpError | HttpResponse int "json option"

text \<open>A response has a status and a body, \<open>None\<close> when it is not JSON.\<close>

record 'x policy_client =
  pc_evaluate :: "jdict \<Rightarrow> ('x, policy_decision) aio"
  pc_healthcheck :: "'x \<Rightarrow> bool \<times> 'x"

definition policy_allow :: "string \<Rightarrow> string \<Rightarrow> policy_decision" where
  "policy_allow rule reason = \<lparr>pd_outcome = ALLOW, pd_matched_rule = rule, pd_reason = reason\<rparr>"

fun rstrip_slash :: "string \<Rightarrow> string" where
  "rstrip_slash s = rev (dropWhile (\<lambda>c. c = CHR ''/'') (rev s))"

definition opa_base :: "string \<Rightarrow> string" where
  "opa_base opa_url = rstrip_slash opa_url"

definition opa_url_of :: "string \<Rightarrow> string" where
  "opa_url_of opa_url = opa_base opa_url @ ''/v1/data/mcp_gateway/decision''"

abbreviation is_success :: "int \<Rightarrow> bool" where
  "is_success status \<equiv> 200 \<le> status \<and> status < 300"

text \<open>\<open>str(result.get(key, default))\<close>\<close>

definition get_str :: "jdict \<Rightarrow> string \<Rightarrow> string \<Rightarrow> string" where
  "get_str d key def = (case dict_get d key of None \<Rightarrow> def | Some v \<Rightarrow> py_str v)"

text \<open>
  What the client makes of OPA's answer.  A body that is not an object has no \<open>get\<close>
  (\<open>AttributeError\<close>), and an outcome that is a list or an object cannot be looked up in a set
  (\<open>TypeError\<close>); neither is caught here.
\<close>

definition opa_decode :: "http_result \<Rightarrow> exn + policy_decision" where
  "opa_decode h = (case h of
       HttpError \<Rightarrow> Inl (GatewayExn PolicyUnavailableError)
     | HttpResponse status body \<Rightarrow>
         if \<not> is_success status then Inl (GatewayExn PolicyUnavailableError)
         else (case body of
             None \<Rightarrow> Inl (GatewayExn PolicyUnavailableError)
           | Some (JObj doc) \<Rightarrow> (case dict_get doc ''result'' of
                 Some (JObj result) \<Rightarrow> (case dict_get result ''outcome'' of
                     Some (JStr outcome) \<Rightarrow>
                       (if outcome \<notin> {ALLOW, REQUIRES_APPROVAL, DENY}
                        then Inl (GatewayExn PolicyUnavailableError)
                        else Inr \<lparr>pd_outcome = outcome,
                          pd_matched_rule = get_str result ''matched_rule'' ''unknown'',
                          pd_reason = get_str result ''reason'' []\<rparr>)
                   | Some (JList l) \<Rightarrow> Inl (PyExn ''TypeError'' ''unhashable type'')
                   | Some (JObj l) \<Rightarrow> Inl (PyExn ''TypeError'' ''unhashable type'')
                   | _ \<Rightarrow> Inl (GatewayExn PolicyUnavailableError))
               | _ \<Rightarrow> Inl (GatewayExn PolicyUnavailableError))
           | Some other \<Rightarrow> Inl (PyExn ''AttributeError'' ''get'')))"

text \<open>The bodies that end in an uncaught \<open>AttributeError\<close> or \<open>TypeError\<close>.\<close>

definition opa_unreadable :: "json \<Rightarrow> bool" where
  "opa_unreadable v = (case v of
       JObj doc \<Rightarrow> (case dict_get doc ''result'' of
           Some (JObj result) \<Rightarrow> (case dict_get result ''outcome'' of
               Some (JList l) \<Rightarrow> True | Some (JObj l) \<Rightarrow> True | _ \<Rightarrow> False)
         | _ \<Rightarrow> False)
     | _ \<Rightarrow> True)"

definition opa_evaluate :: "(string \<Rightarrow> json \<Rightarrow> 'x \<Rightarrow> http_result \<times> 'x) \<Rightarrow> string \<Rightarrow> jdict \<Rightarrow>
    ('x, policy_decision) aio" where
  "opa_evaluate post opa_url policy_input x =
     (case post (opa_url_of opa_url) (JObj [(''input'', JObj policy_input)]) x of
        (h, x') \<Rightarrow> (opa_decode h, x'))"

definition opa_healthcheck :: "(string \<Rightarrow> 'x \<Rightarrow> http_result \<times> 'x) \<Rightarrow> string \<Rightarrow> 'x \<Rightarrow> bool \<times> 'x" where
  "opa_healthcheck get opa_url x =
     (case get (opa_base opa_url @ ''/health'') x of
        (HttpError, x') \<Rightarrow> (False, x')
      | (HttpResponse status body, x') \<Rightarrow> (is_success status, x'))"

definition OpaPolicyClient :: "(string \<Rightarrow> json \<Rightarrow> 'x \<Rightarrow> http_result \<times> 'x) \<Rightarrow>
    (string \<Rightarrow> 'x \<Rightarrow> http_result \<times> 'x) \<Rightarrow> string \<Rightarrow> 'x policy_client" where
  "OpaPolicyClient post get opa_url = \<lparr>pc_evaluate = opa_evaluate post opa_url,
     pc_healthcheck = opa_healthcheck get opa_url\<rparr>"

definition AllowAllPolicyClient :: "'x policy_client" where
  "AllowAllPolicyClient = \<lparr>pc_evaluate = (\<lambda>policy_input. ret \<lparr>pd_outcome = ALLOW,
       pd_matched_rule = ''test_allow_all'',
       pd_reason = ''OPA bypass is enabled only for direct isolated tests''\<rparr>),
     pc_healthcheck = (\<lambda>x. (True, x))\<rparr>"

section \<open>The Rego policy\<close>

definition truthy_ref :: "json option \<Rightarrow> bool" where
  "truthy_ref v = (case v of None \<Rightarrow> False | Some w \<Rightarrow> w \<noteq> JBool False)"

definition json_members :: "json option \<Rightarrow> json list" where
  "json_members v = (case v of Some (JList xs) \<Rightarrow> xs | Some (JObj kvs) \<Rightarrow> dict_values kvs | _ \<Rightarrow> [])"

definition principal_ref :: "jdict \<Rightarrow> json option" where
  "principal_ref inp = dict_get inp ''principal''"

definition role_among :: "string list \<Rightarrow> jdict \<Rightarrow> bool" where
  "role_among roles inp = (case principal_ref inp of
       None \<Rightarrow> False
     | Some p \<Rightarrow>
         (case jfield p ''tenant_id'' of None \<Rightarrow> False | Some t \<Rightarrow> t \<noteq> JStr []) \<and>
         list_ex (\<lambda>r. r \<in> set (map JStr roles)) (json_members (jfield p ''roles'')))"

definition caller_authorized :: "jdict \<Rightarrow> bool" where
  "caller_authorized inp =
     (\<not> truthy_ref (principal_ref inp) \<or> role_among [''user'', ''operator'', ''admin''] inp)"

definition caller_elevated :: "jdict \<Rightarrow> bool" where
  "caller_elevated inp =
     (\<not> truthy_ref (principal_ref inp) \<or> role_among [''operator'', ''admin''] inp)"

definition argument_text :: "jdict \<Rightarrow> string \<Rightarrow> string option" where
  "argument_text inp key = (case dict_get inp ''arguments'' of
       Some (JObj args) \<Rightarrow> (case dict_get args key of Some (JStr s) \<Rightarrow> Some s | _ \<Rightarrow> None)
     | _ \<Rightarrow> None)"

definition destructive_sql :: "string \<Rightarrow> bool" where
  "destructive_sql query = (let q = str_upper query in
     str_contains q ''DROP'' \<or> str_contains q ''TRUNCATE'' \<or>
     (prefix ''DELETE'' q \<and> \<not> str_contains q '' WHERE '') \<or>
     (prefix ''UPDATE'' q \<and> \<not> str_contains q '' WHERE ''))"

definition destructive :: "jdict \<Rightarrow> bool" where
  "destructive inp =
     ((dict_get inp ''tool_name'' = Some (JStr ''db_query'') \<and>
         (case argument_text inp ''query'' of None \<Rightarrow> False | Some q \<Rightarrow> destructive_sql q)) \<or>
      (dict_get inp ''tool_name'' = Some (JStr ''shell_exec'') \<and>
         (case argument_text inp ''command'' of None \<Rightarrow> False | Some c \<Rightarrow> str_contains c ''..'')))"

definition risk_is :: "jdict \<Rightarrow> string \<Rightarrow> bool" where
  "risk_is inp r = (dict_get inp ''risk_class'' = Some (JStr r))"

definition rego_default :: policy_decision where
  "rego_default = \<lparr>pd_outcome = ''deny'', pd_matched_rule = ''default_deny'',
     pd_reason = ''No policy rule matched''\<rparr>"

text \<open>The rules for \<open>decision\<close>, each with its body.\<close>

definition rego_rules :: "jdict \<Rightarrow> (bool \<times> policy_decision) list" where
  "rego_rules inp =
    [(truthy_ref (principal_ref inp) \<and> \<not> caller_authorized inp,
      \<lparr>pd_outcome = ''deny'', pd_matched_rule = ''invalid_principal'',
       pd_reason = ''A verified tenant and supported role are required''\<rparr>),
     (risk_is inp ''read_only'' \<and> caller_authorized inp \<and> \<not> destructive inp,
      \<lparr>pd_outcome = ''allow'', pd_matched_rule = ''read_only_tool'',
       pd_reason = ''Read-only tools are allowed''\<rparr>),
     (destructive inp \<and> caller_elevated inp,
      \<lparr>pd_outcome = ''requires_approval'', pd_matched_rule = ''destructive_operation'',
       pd_reason = ''Destructive operations require explicit approval and a reason''\<rparr>),
     (risk_is inp ''mutating'' \<and> caller_elevated inp \<and> \<not> destructive inp,
      \<lparr>pd_outcome = ''requires_approval'', pd_matched_rule = ''mutating_tool'',
       pd_reason = ''Mutating tools require explicit approval''\<rparr>),
     (risk_is inp ''destructive'' \<and> caller_elevated inp \<and> \<not> destructive inp,
      \<lparr>pd_outcome = ''requires_approval'', pd_matched_rule = ''destructive_risk_class'',
       pd_reason = ''Destructive tools require explicit approval and a reason''\<rparr>)]"

text \<open>The value of the complete rule: \<open>None\<close> is OPA's conflict error.\<close>

definition rego_decision :: "jdict \<Rightarrow> policy_decision option" where
  "rego_decision inp = (case remdups (map snd (filter fst (rego_rules inp))) of
       [] \<Rightarrow> Some rego_default
     | [d] \<Rightarrow> Some d
     | _ \<Rightarrow> None)"

text \<open>OPA's data API in front of the policy.\<close>

definition dump_decision :: "policy_decision \<Rightarrow> json" where
  "dump_decision d = JObj [(''outcome'', JStr (pd_outcome d)),
     (''matched_rule'', JStr (pd_matched_rule d)), (''reason'', JStr (pd_reason d))]"

definition opa_server :: "json \<Rightarrow> http_result" where
  "opa_server body = (case body of
       JObj doc \<Rightarrow> (case dict_get doc ''input'' of
           Some (JObj inp) \<Rightarrow> (case rego_decision inp of
               None \<Rightarrow> HttpResponse 500 (Some (JObj [(''code'', JStr ''internal_error'')]))
             | Some d \<Rightarrow> HttpResponse 200 (Some (JObj [(''result'', dump_decision d)])))
         | _ \<Rightarrow> HttpResponse 400 None)
     | _ \<Rightarrow> HttpResponse 400 None)"

section \<open>Laws of a policy client\<close>

locale policy_client_laws =
  fixes C :: "'x policy_client"
  assumes outcome_law: "pc_evaluate C i x = (Inr d, x') \<Longrightarrow>
      pd_outcome d \<in> {ALLOW, REQUIRES_APPROVAL, DENY}"
begin

text \<open>A decision that neither allows nor asks for approval denies.\<close>

lemma outcome_cases:
  assumes "pc_evaluate C i x = (Inr d, x')"
  obtains "pd_outcome d = ALLOW" | "pd_outcome d = REQUIRES_APPROVAL" | "pd_outcome d = DENY"
  using outcome_law [OF assms] by blast

end

lemma opa_decode_Inr:
  assumes "opa_decode h = Inr d"
  shows "\<exists>status doc result. h = HttpResponse status (Some (JObj doc)) \<and> is_success status \<and>
    dict_get doc ''result'' = Some (JObj result) \<and>
    dict_get result ''outcome'' = Some (JStr (pd_outcome d)) \<and>
    pd_outcome d \<in> {ALLOW, REQUIRES_APPROVAL, DENY}"
  using assms
  by (simp add: opa_decode_def split: http_result.splits option.splits json.splits if_splits)
    (elim disjE; fastforce)

interpretation opa: policy_client_laws "OpaPolicyClient post get opa_url"
proof
  fix i x d x'
  assume "pc_evaluate (OpaPolicyClient post get opa_url) i x = (Inr d, x')"
  then obtain h where "opa_decode h = Inr d"
    by (auto simp: OpaPolicyClient_def opa_evaluate_def split: prod.splits)
  then show "pd_outcome d \<in> {ALLOW, REQUIRES_APPROVAL, DENY}"
    using opa_decode_Inr by blast
qed

interpretation allow_all: policy_client_laws "AllowAllPolicyClient :: 'x policy_client"
  by unfold_locales (auto simp: AllowAllPolicyClient_def ret_def)

section \<open>Lemmas on the policy\<close>

lemma elevated_authorized: "caller_elevated inp \<Longrightarrow> caller_authorized inp"
  by (auto simp: caller_elevated_def caller_authorized_def role_among_def list_ex_iff split: option.splits)

lemma risk_unique: "risk_is inp a \<Longrightarrow> risk_is inp b \<Longrightarrow> a = b"
  by (simp add: risk_is_def)

text \<open>The policy as a decision function: at most one rule applies.\<close>

lemma rego_decision_cases:
  "rego_decision inp = Some (
     if truthy_ref (principal_ref inp) \<and> \<not> caller_authorized inp then snd (rego_rules inp ! 0)
     else if destructive inp then (if caller_elevated inp then snd (rego_rules inp ! 2) else rego_default)
     else if risk_is inp ''read_only'' \<and> caller_authorized inp then snd (rego_rules inp ! 1)
     else if risk_is inp ''mutating'' \<and> caller_elevated inp then snd (rego_rules inp ! 3)
     else if risk_is inp ''destructive'' \<and> caller_elevated inp then snd (rego_rules inp ! 4)
     else rego_default)"
proof -
  have e: "caller_elevated inp \<Longrightarrow> caller_authorized inp" by (rule elevated_authorized)
  have r: "risk_is inp ''read_only'' \<Longrightarrow> \<not> risk_is inp ''mutating''"
    "risk_is inp ''read_only'' \<Longrightarrow> \<not> risk_is inp ''destructive''"
    "risk_is inp ''mutating'' \<Longrightarrow> \<not> risk_is inp ''destructive''"
    using risk_unique [of inp] by fastforce+
  show ?thesis
    unfolding rego_decision_def rego_rules_def
    using e r by (simp add: nth_Cons')
qed

lemma get_str_dump [simp]:
  "get_str [(''outcome'', o'), (''matched_rule'', JStr m), (''reason'', JStr r)] ''matched_rule'' u = m"
  "get_str [(''outcome'', o'), (''matched_rule'', JStr m), (''reason'', JStr r)] ''reason'' u = r"
  by (simp_all add: get_str_def)

lemma opa_decode_dump:
  "pd_outcome d \<in> {ALLOW, REQUIRES_APPROVAL, DENY} \<Longrightarrow>
   opa_decode (HttpResponse 200 (Some (JObj [(''result'', dump_decision d)]))) = Inr d"
  by (auto simp: opa_decode_def dump_decision_def)

lemma rego_outcome: "rego_decision inp = Some d \<Longrightarrow> pd_outcome d \<in> {ALLOW, REQUIRES_APPROVAL, DENY}"
  by (auto simp: rego_decision_cases rego_rules_def rego_default_def ALLOW_def REQUIRES_APPROVAL_def
      DENY_def split: if_splits)

section \<open>Properties\<close>

text \<open>C10: the Rego policy never runs into conflicting rules, and its outcome is exactly this:
  \<open>allow\<close> for a read-only tool, an authorized caller and arguments that are not recognised as
  destructive; \<open>requires_approval\<close> for an elevated caller whose call is recognised as
  destructive or whose tool is mutating or destructive; \<open>deny\<close> for everything else.  In
  particular no mutating call is allowed without approval and a caller without an elevated
  role never reaches the approval path.\<close>

theorem rego_policy_exact:
  "\<exists>d. rego_decision inp = Some d \<and>
     pd_outcome d =
       (if risk_is inp ''read_only'' \<and> caller_authorized inp \<and> \<not> destructive inp then ALLOW
        else if caller_elevated inp \<and>
          (destructive inp \<or> risk_is inp ''mutating'' \<or> risk_is inp ''destructive'')
        then REQUIRES_APPROVAL else DENY)"
proof -
  have r: "risk_is inp ''read_only'' \<Longrightarrow> \<not> risk_is inp ''mutating''"
    "risk_is inp ''read_only'' \<Longrightarrow> \<not> risk_is inp ''destructive''"
    using risk_unique [of inp] by fastforce+
  show ?thesis
    using elevated_authorized [of inp] r
    by (auto simp: rego_decision_cases rego_rules_def rego_default_def ALLOW_def
        REQUIRES_APPROVAL_def DENY_def)
qed

text \<open>C11: the client fails closed.  \<open>OpaPolicyClient.evaluate\<close> returns a decision only from
  a successful response whose body is an object with a \<open>result\<close> object and one of the three
  outcomes; every transport error, error status, body that is not JSON or missing result
  raises, and the exception is \<open>PolicyUnavailableError\<close> unless the body is no object at all
  or its outcome is a list or an object.\<close>

theorem opa_client_fails_closed:
  "case opa_evaluate post opa_url inp x of
     (Inr d, x') \<Rightarrow> (\<exists>status doc result.
        post (opa_url_of opa_url) (JObj [(''input'', JObj inp)]) x =
          (HttpResponse status (Some (JObj doc)), x') \<and>
        200 \<le> status \<and> status < 300 \<and> dict_get doc ''result'' = Some (JObj result) \<and>
        dict_get result ''outcome'' = Some (JStr (pd_outcome d)) \<and>
        pd_outcome d \<in> {ALLOW, REQUIRES_APPROVAL, DENY})
   | (Inl e, x') \<Rightarrow> e = GatewayExn PolicyUnavailableError \<or>
        (\<exists>status v. fst (post (opa_url_of opa_url) (JObj [(''input'', JObj inp)]) x) =
           HttpResponse status (Some v) \<and> opa_unreadable v)"
proof -
  obtain h x' where h: "post (opa_url_of opa_url) (JObj [(''input'', JObj inp)]) x = (h, x')"
    by force
  have err: "e = GatewayExn PolicyUnavailableError \<or>
      (\<exists>status v. h = HttpResponse status (Some v) \<and> opa_unreadable v)"
    if "opa_decode h = Inl e" for e
    using that by (auto simp: opa_decode_def opa_unreadable_def
        split: http_result.splits option.splits json.splits if_splits)
  show ?thesis
  proof (cases "opa_decode h")
    case (Inl e)
    with h err [OF Inl] show ?thesis by (simp add: opa_evaluate_def)
  next
    case (Inr d)
    with h opa_decode_Inr [OF Inr] show ?thesis by (simp add: opa_evaluate_def)
  qed
qed

text \<open>The client is faithful.  In front of an OPA server that evaluates the policy, the
  decision the gateway receives is the policy's decision, with its rule and reason.\<close>

theorem opa_client_faithful:
  "map_option Inr (rego_decision inp) =
     Some (fst (opa_evaluate (\<lambda>url body x. (opa_server body, x)) opa_url inp x))"
proof -
  obtain d where d: "rego_decision inp = Some d"
    by (metis rego_decision_cases)
  then show ?thesis
    using opa_decode_dump [OF rego_outcome [OF d]] by (simp add: opa_evaluate_def opa_server_def)
qed

text \<open>A query that starts with a blank escapes the recognition of \<open>DELETE\<close> and
  \<open>UPDATE\<close> statements: whatever follows, as long as it names neither \<open>DROP\<close> nor
  \<open>TRUNCATE\<close>, an authorized call of \<open>db_query\<close> is allowed without approval.\<close>

theorem leading_blank_escapes_policy:
  assumes "dict_get inp ''tool_name'' = Some (JStr ''db_query'')"
    and "argument_text inp ''query'' = Some (CHR '' '' # statement)"
    and "\<not> sublist ''DROP'' (str_upper statement)"
    and "\<not> sublist ''TRUNCATE'' (str_upper statement)"
    and "risk_is inp ''read_only''" and "caller_authorized inp"
  shows "map_option pd_outcome (rego_decision inp) = Some ALLOW"
proof -
  have up: "str_upper (CHR '' '' # statement) = CHR '' '' # str_upper statement"
    by (simp add: str_upper_def char_upper_def)
  have "\<not> destructive inp"
    using assms by (simp add: destructive_def destructive_sql_def Let_def up str_contains_sublist
        sublist_Cons_right)
  with assms(5,6) show ?thesis
    by (simp add: rego_decision_cases rego_rules_def ALLOW_def)
qed

definition demo_policy_input :: jdict where
  "demo_policy_input = [(''tool_name'', JStr ''db_query''), (''risk_class'', JStr ''read_only''),
     (''arguments'', JObj [(''query'', JStr '' DELETE FROM orders'')]),
     (''principal'', JObj [(''tenant_id'', JStr ''acme''), (''roles'', JList [JStr ''user''])])]"

theorem leading_blank_escapes_policy_witness:
  "map_option pd_outcome (rego_decision demo_policy_input) = Some ALLOW"
proof -
  have "\<not> str_contains (str_upper ''DELETE FROM orders'') ''DROP''"
    "\<not> str_contains (str_upper ''DELETE FROM orders'') ''TRUNCATE''"
    by code_simp+
  then show ?thesis
    by (intro leading_blank_escapes_policy [where statement = "''DELETE FROM orders''"])
      (simp_all add: demo_policy_input_def argument_text_def risk_is_def caller_authorized_def
        role_among_def principal_ref_def json_members_def str_contains_sublist)
qed

end
