(* ===== verification/Registry.thy ===== *)
theory Registry
  imports Models
begin

text \<open>
  Tool definitions and the registry (\<open>gateway/registry.py\<close>).  A validated pydantic
  model is represented by its field dictionary, so \<open>model_dump\<close> is the identity on it.
  The input and output models and the handler of a tool are fields of its definition, as
  in the source; a handler is a computation on the external world \<open>'x\<close> (the database,
  the sandbox, the worker).
\<close>

section \<open>Definitions\<close>

text \<open>One entry of pydantic's \<open>ValidationError.errors()\<close>.\<close>

record pydantic_error =
  pe_loc :: "json list"
  pe_type :: string
  pe_msg :: string

record 'x tool_definition =
  td_name :: string
  td_description :: string
  td_risk_class :: risk_class
  td_input_model :: "jdict \<Rightarrow> pydantic_error list + jdict"
  td_output_model :: "jdict \<Rightarrow> exn + jdict"
  td_handler :: "jdict \<Rightarrow> ('x, jdict) aio"
  td_idempotent :: bool
  td_input_schema :: jdict
  td_output_schema :: jdict

definition from_validation_error :: "pydantic_error list \<Rightarrow> gateway_error" where
  "from_validation_error items = ToolInputError
     (map (\<lambda>i. \<lparr>ei_location = pe_loc i, ei_error_type = pe_type i, ei_message = pe_msg i\<rparr>) items)"

definition td_validate :: "'x tool_definition \<Rightarrow> jdict \<Rightarrow> exn + jdict" where
  "td_validate d arguments = (case td_input_model d arguments of
       Inl items \<Rightarrow> Inl (GatewayExn (from_validation_error items))
     | Inr request \<Rightarrow> Inr request)"

definition td_execute_validated :: "'x tool_definition \<Rightarrow> jdict \<Rightarrow> ('x, jdict) aio" where
  "td_execute_validated d request =
     bind_io (td_handler d request) (\<lambda>result. lift_res (td_output_model d result))"

definition td_execute :: "'x tool_definition \<Rightarrow> jdict \<Rightarrow> ('x, jdict) aio" where
  "td_execute d arguments = bind_io (lift_res (td_validate d arguments)) (td_execute_validated d)"

type_synonym 'x tool_registry = "(string, 'x tool_definition) dict"

definition empty_registry :: "'x tool_registry" where
  "empty_registry = []"

definition register :: "'x tool_definition \<Rightarrow> 'x tool_registry \<Rightarrow> exn + 'x tool_registry" where
  "register d reg =
     (if dict_get reg (td_name d) \<noteq> None
      then Inl (PyExn ''ValueError'' (''Tool already registered: '' @ td_name d))
      else Inr (dict_set (td_name d) d reg))"

definition list_tools :: "'x tool_registry \<Rightarrow> 'x tool_definition list" where
  "list_tools reg = dict_values reg"

definition registry_get :: "'x tool_registry \<Rightarrow> string \<Rightarrow> exn + 'x tool_definition" where
  "registry_get reg name = (case dict_get reg name of
       None \<Rightarrow> Inl (GatewayExn (ToolNotFoundError name))
     | Some d \<Rightarrow> Inr d)"

definition registry_validate :: "'x tool_registry \<Rightarrow> string \<Rightarrow> jdict \<Rightarrow> exn + jdict" where
  "registry_validate reg name arguments =
     (case registry_get reg name of Inl e \<Rightarrow> Inl e | Inr d \<Rightarrow> td_validate d arguments)"

definition registry_execute_validated ::
    "'x tool_registry \<Rightarrow> string \<Rightarrow> jdict \<Rightarrow> ('x, jdict) aio" where
  "registry_execute_validated reg name request =
     bind_io (lift_res (registry_get reg name)) (\<lambda>d. td_execute_validated d request)"

definition registry_execute :: "'x tool_registry \<Rightarrow> string \<Rightarrow> jdict \<Rightarrow> ('x, jdict) aio" where
  "registry_execute reg name arguments =
     bind_io (lift_res (registry_get reg name)) (\<lambda>d. td_execute d arguments)"

section \<open>Well-formed registries\<close>

definition registry_wf :: "'x tool_registry \<Rightarrow> bool" where
  "registry_wf reg = (distinct (dict_keys reg) \<and> list_all (\<lambda>(k, d). td_name d = k) reg)"

text \<open>Validating the dump of a validated request gives the same request again.\<close>

definition revalidates :: "'x tool_registry \<Rightarrow> bool" where
  "revalidates reg = list_all (\<lambda>(k, d). \<forall>a r. td_input_model d a = Inr r \<longrightarrow>
     td_input_model d r = Inr r) reg"

section \<open>Lemmas\<close>

lemma empty_registry_wf [simp]: "registry_wf empty_registry"
  by (simp add: registry_wf_def empty_registry_def)

lemma register_wf:
  assumes "register d reg = Inr reg'" and "registry_wf reg"
  shows "registry_wf reg'"
proof -
  have new: "td_name d \<notin> set (dict_keys reg)" and reg': "reg' = dict_set (td_name d) d reg"
    using assms(1) by (simp_all add: register_def map_of_eq_None_iff split: if_splits)
  then have "reg' = reg @ [(td_name d, d)]"
    by (simp add: dict_set_new)
  with assms(2) new show ?thesis
    by (simp add: registry_wf_def)
qed

lemma registry_get_name:
  "registry_wf reg \<Longrightarrow> registry_get reg name = Inr d \<Longrightarrow> td_name d = name"
  by (auto simp: registry_wf_def registry_get_def list_all_iff split: option.splits
      dest!: map_of_SomeD)

lemma register_appends:
  "register d reg = Inr reg' \<Longrightarrow> list_tools reg' = list_tools reg @ [d]"
  by (auto simp: register_def list_tools_def dict_set_new map_of_eq_None_iff split: if_splits)

lemma register_get:
  "register d reg = Inr reg' \<Longrightarrow>
   registry_get reg' name = (if name = td_name d then Inr d else registry_get reg name)"
  by (auto simp: register_def registry_get_def split: if_splits)

lemma registry_validate_Inr:
  "registry_validate reg name a = Inr r \<longleftrightarrow>
   (\<exists>d. registry_get reg name = Inr d \<and> td_input_model d a = Inr r)"
  by (auto simp: registry_validate_def td_validate_def split: sum.splits)

lemma registry_validate_idem:
  assumes "revalidates reg" and "registry_validate reg name a = Inr r"
  shows "registry_validate reg name r = Inr r"
proof -
  obtain d where d: "registry_get reg name = Inr d" and r: "td_input_model d a = Inr r"
    using assms(2) by (auto simp: registry_validate_Inr)
  from d have "(name, d) \<in> set reg"
    by (auto simp: registry_get_def split: option.splits dest: map_of_SomeD)
  with assms(1) r have "td_input_model d r = Inr r"
    by (auto simp: revalidates_def list_all_iff)
  with d show ?thesis by (auto simp: registry_validate_Inr)
qed

lemma registry_validate_error:
  assumes "registry_validate reg name a = Inl e"
  obtains "e = GatewayExn (ToolNotFoundError name)" "dict_get reg name = None"
  | d items where "registry_get reg name = Inr d" "e = GatewayExn (from_validation_error items)"
      "td_input_model d a = Inl items"
  using assms that
  by (auto simp: registry_validate_def registry_get_def td_validate_def
      split: sum.splits option.splits)

lemma registry_execute_split:
  "registry_execute reg name a = bind_io (lift_res (registry_validate reg name a))
     (registry_execute_validated reg name)"
  by (auto simp: registry_execute_def registry_execute_validated_def registry_validate_def
      td_execute_def io_defs fun_eq_iff split: sum.split)

end
