(* ===== verification/Repair.thy ===== *)
theory Repair
  imports Registry Complex_Main
begin

text \<open>
  Bounded repair of failed calls (\<open>gateway/repair\<close>): the backoff policy, the
  classification of failures and the retry loop.  The loop's injectable dependencies (random
  source, sleep, clock) are fields of a record and work on the same state \<open>'w\<close> as the
  executor and the repairer.  Seconds are rational numbers; the rounding of floats is not
  modelled.
\<close>

section \<open>Backoff\<close>

record backoff_policy =
  bp_max_attempts :: int
  bp_base_seconds :: rat
  bp_max_seconds :: rat
  bp_max_total_seconds :: rat
  bp_jitter_ratio :: rat

definition default_backoff :: backoff_policy where
  "default_backoff = \<lparr>bp_max_attempts = 3, bp_base_seconds = 1/4, bp_max_seconds = 5,
     bp_max_total_seconds = 30, bp_jitter_ratio = 1/5\<rparr>"

definition raw_delay :: "backoff_policy \<Rightarrow> nat \<Rightarrow> rat" where
  "raw_delay p retry_number = min (bp_max_seconds p) (bp_base_seconds p * 2 ^ (retry_number - 1))"

text \<open>\<open>u\<close> is the value of \<open>random.uniform(-1.0, 1.0)\<close>.\<close>

definition delay :: "backoff_policy \<Rightarrow> nat \<Rightarrow> rat \<Rightarrow> rat" where
  "delay p retry_number u = (let raw = raw_delay p retry_number;
     jitter = raw * bp_jitter_ratio p * u in max 0 (raw + jitter))"

section \<open>Diagnosis\<close>

record failure_diagnosis =
  fd_category :: repair_failure
  fd_message :: string

definition denial_codes :: "string list" where
  "denial_codes = [''policy_denied'', ''policy_unavailable'', ''approval_timeout'', ''approval_rejected'']"

definition issue_mentions :: "string \<Rightarrow> error_issue list \<Rightarrow> bool" where
  "issue_mentions word issues = list_ex (\<lambda>i. str_contains (ei_error_type i) word) issues"

definition schema_category :: "error_issue list \<Rightarrow> repair_failure" where
  "schema_category issues =
     (if issue_mentions ''missing'' issues then MISSING_REQUIRED_FIELD
      else if issue_mentions ''json'' issues then MALFORMED_JSON
      else if issue_mentions ''type'' issues then TYPE_COERCION
      else SCHEMA_MISMATCH)"

fun diagnose_category :: "exn \<Rightarrow> repair_failure" where
  "diagnose_category (GatewayExn e) =
     (if error_code e \<in> set denial_codes then POLICY_DENIED
      else if error_code e = ''schema_validation'' then schema_category (error_issues e)
      else case e of SandboxTimeoutError \<Rightarrow> TIMEOUT | SandboxError m \<Rightarrow> SANDBOX_CRASH
         | _ \<Rightarrow> TOOL_ERROR)"
| "diagnose_category _ = TOOL_ERROR"

definition diagnose :: "exn \<Rightarrow> failure_diagnosis" where
  "diagnose e = \<lparr>fd_category = diagnose_category e, fd_message = exn_str e\<rparr>"

section \<open>The loop\<close>

record repair_context =
  rx_risk_class :: risk_class
  rx_idempotent :: bool
  rx_tool_name :: string
  rx_tool_schema :: "jdict option"

record 'w repair_loop =
  rl_policy :: backoff_policy
  rl_random :: "'w \<Rightarrow> rat \<times> 'w"
  rl_sleep :: "rat \<Rightarrow> ('w, unit) aio"
  rl_monotonic :: "'w \<Rightarrow> rat \<times> 'w"

type_synonym ('w, 'a) executor = "jdict \<Rightarrow> ('w, 'a) aio"
type_synonym 'w repairer = "jdict \<Rightarrow> failure_diagnosis \<Rightarrow> ('w, jdict) aio"

definition can_retry :: "'w repair_loop \<Rightarrow> failure_diagnosis \<Rightarrow> repair_context \<Rightarrow> nat \<Rightarrow> rat \<Rightarrow>
    'w \<Rightarrow> bool \<times> 'w" where
  "can_retry L d ctx attempt started w =
     (if fd_category d = POLICY_DENIED then (False, w)
      else if bp_max_attempts (rl_policy L) \<le> int attempt then (False, w)
      else case rl_monotonic L w of (t, w1) \<Rightarrow>
        if bp_max_total_seconds (rl_policy L) \<le> t - started then (False, w1)
        else if rx_risk_class ctx \<noteq> READ_ONLY \<and> \<not> rx_idempotent ctx then (False, w1)
        else (fd_category d \<in> {SCHEMA_MISMATCH, MALFORMED_JSON, MISSING_REQUIRED_FIELD,
          TYPE_COERCION, TIMEOUT, SANDBOX_CRASH, TOOL_ERROR}, w1))"

definition give_up :: "failure_diagnosis \<Rightarrow> repair_context \<Rightarrow> exn \<Rightarrow> exn" where
  "give_up d ctx error =
     (if fd_category d \<in> {TIMEOUT, SANDBOX_CRASH} \<and> rx_risk_class ctx \<noteq> READ_ONLY
      then GatewayExn (NeedsReviewError ''A mutating call may have partially executed and needs review'')
      else error)"

definition next_arguments :: "'w repairer option \<Rightarrow> jdict \<Rightarrow> failure_diagnosis \<Rightarrow> exn \<Rightarrow>
    ('w, jdict) aio" where
  "next_arguments repairer current d error =
     (if fd_category d \<in> {TIMEOUT, SANDBOX_CRASH} then ret current
      else case repairer of None \<Rightarrow> raise_io error | Some f \<Rightarrow> f current d)"

text \<open>The delay, the check against the deadline and the sleep before the next attempt.\<close>

definition pause :: "'w repair_loop \<Rightarrow> nat \<Rightarrow> rat \<Rightarrow> exn \<Rightarrow> ('w, unit) aio" where
  "pause L attempt started error w =
     (case rl_random L w of (u, w1) \<Rightarrow>
        (let dl = delay (rl_policy L) attempt u in
         case rl_monotonic L w1 of (t, w2) \<Rightarrow>
           if t + dl - started > bp_max_total_seconds (rl_policy L) then (Inl error, w2)
           else rl_sleep L dl w2))"

function run_from :: "'w repair_loop \<Rightarrow> ('w, 'a) executor \<Rightarrow> repair_context \<Rightarrow> 'w repairer option \<Rightarrow>
    rat \<Rightarrow> nat \<Rightarrow> jdict \<Rightarrow> ('w, 'a \<times> nat) aio" where
  "run_from L executor ctx repairer started attempt current w =
     (case executor current w of
        (Inr out, w1) \<Rightarrow> (Inr (out, attempt), w1)
      | (Inl error, w1) \<Rightarrow>
          if \<not> is_exception error then (Inl error, w1)
          else (case can_retry L (diagnose error) ctx attempt started w1 of
              (False, w2) \<Rightarrow> (Inl (give_up (diagnose error) ctx error), w2)
            | (True, w2) \<Rightarrow>
               (case next_arguments repairer current (diagnose error) error w2 of
                  (Inl e, w3) \<Rightarrow> (Inl e, w3)
                | (Inr repaired, w3) \<Rightarrow>
                   (case pause L attempt started error w3 of
                      (Inl e, w4) \<Rightarrow> (Inl e, w4)
                    | (Inr u, w4) \<Rightarrow>
                        run_from L executor ctx repairer started (Suc attempt) repaired w4))))"
  by pat_completeness auto

lemma can_retry_attempts:
  "can_retry L d ctx attempt started w = (True, w') \<Longrightarrow> int attempt < bp_max_attempts (rl_policy L)"
  by (auto simp: can_retry_def split: if_splits prod.splits)

termination run_from
  by (relation "measure (\<lambda>(L, ex, ctx, rep, st, attempt, cur, w).
        nat (bp_max_attempts (rl_policy L) - int attempt))")
    (auto dest!: can_retry_attempts [OF sym])

declare run_from.simps [simp del]

definition run :: "'w repair_loop \<Rightarrow> jdict \<Rightarrow> ('w, 'a) executor \<Rightarrow> repair_context \<Rightarrow>
    'w repairer option \<Rightarrow> ('w, 'a \<times> nat) aio" where
  "run L arguments executor ctx repairer w =
     (case rl_monotonic L w of (started, w1) \<Rightarrow>
        run_from L executor ctx repairer started 1 arguments w1)"

text \<open>
  \<open>RepairLoop(policy)\<close> with its timing dependencies scripted: the \<open>i\<close>-th reading of the
  monotonic clock, the \<open>i\<close>-th random number, and whether the \<open>i\<close>-th sleep is cancelled.  The
  state of the loop's environment stands beside the state \<open>'x\<close> of the executor.
\<close>

record loop_env =
  le_clock :: "nat \<Rightarrow> rat"
  le_uniform :: "nat \<Rightarrow> rat"
  le_cancel :: "nat \<Rightarrow> bool"
  le_ticks :: nat
  le_draws :: nat
  le_sleeps :: "rat list"

definition RepairLoop :: "backoff_policy \<Rightarrow> ('x \<times> loop_env) repair_loop" where
  "RepairLoop p = \<lparr>rl_policy = p,
     rl_random = (\<lambda>(x, t). (le_uniform t (le_draws t), (x, t\<lparr>le_draws := Suc (le_draws t)\<rparr>))),
     rl_sleep = (\<lambda>d (x, t). (if le_cancel t (length (le_sleeps t)) then Inl CancelledExn else Inr (),
        (x, t\<lparr>le_sleeps := d # le_sleeps t\<rparr>))),
     rl_monotonic = (\<lambda>(x, t). (le_clock t (le_ticks t), (x, t\<lparr>le_ticks := Suc (le_ticks t)\<rparr>)))\<rparr>"

section \<open>Laws of a loop environment\<close>

text \<open>The part \<open>v\<close> of the state is out of reach of the loop's own dependencies.\<close>

locale quiet_loop =
  fixes L :: "'w repair_loop" and v :: "'w \<Rightarrow> 'v"
  assumes random_keeps [simp]: "rl_random L w = (u, w') \<Longrightarrow> v w' = v w"
    and monotonic_keeps [simp]: "rl_monotonic L w = (t, w') \<Longrightarrow> v w' = v w"
    and sleep_keeps: "rl_sleep L d w = (x, w') \<Longrightarrow> v w' = v w \<and> x \<in> {Inr (), Inl CancelledExn}"
begin

lemma can_retry_keeps: "can_retry L d ctx n st w = (b, w') \<Longrightarrow> v w' = v w"
  by (auto simp: can_retry_def split: if_splits prod.splits)

lemma pause_keeps:
  assumes "pause L n st e w = (x, w')"
  shows "v w' = v w \<and> x \<in> {Inr (), Inl e, Inl CancelledExn}"
proof -
  obtain u w1 where r: "rl_random L w = (u, w1)" by force
  obtain t w2 where m: "rl_monotonic L w1 = (t, w2)" by force
  have keep: "v w2 = v w" using r m by simp
  show ?thesis
  proof (cases "t + delay (rl_policy L) n u - st > bp_max_total_seconds (rl_policy L)")
    case True
    with assms r m keep show ?thesis by (simp add: pause_def Let_def)
  next
    case False
    with assms r m have "rl_sleep L (delay (rl_policy L) n u) w2 = (x, w')"
      by (simp add: pause_def Let_def)
    from sleep_keeps [OF this] keep show ?thesis by auto
  qed
qed

text \<open>The proof rule of the loop: \<open>I n\<close> holds before the \<open>n\<close>-th execution, \<open>R n\<close> after it
  failed.\<close>

lemma run_from_hoare:
  assumes ex: "\<And>n cur. hoare (\<lambda>w. I n cur (v w)) (executor cur) (\<lambda>x w. Q n x (v w))
      (\<lambda>e w. R n cur e (v w))"
    and rep: "\<And>f n cur e. repairer = Some f \<Longrightarrow> is_exception e \<Longrightarrow> diagnose_category e \<noteq> POLICY_DENIED \<Longrightarrow>
      int n < bp_max_attempts (rl_policy L) \<Longrightarrow>
      hoare (\<lambda>w. R n cur e (v w)) (f cur (diagnose e)) (\<lambda>cur' w. I (Suc n) cur' (v w) \<and> E e (v w))
        (\<lambda>e' w. E e' (v w))"
    and same: "\<And>n cur e s. R n cur e s \<Longrightarrow> diagnose_category e \<in> {TIMEOUT, SANDBOX_CRASH} \<Longrightarrow>
      int n < bp_max_attempts (rl_policy L) \<Longrightarrow> I (Suc n) cur s"
    and stop: "\<And>n cur e s. R n cur e s \<Longrightarrow> E e s \<and> E (give_up (diagnose e) ctx e) s"
    and cancel: "\<And>n cur s. 1 \<le> n \<Longrightarrow> I (Suc n) cur s \<Longrightarrow> E CancelledExn s"
  shows "1 \<le> attempt \<Longrightarrow> I attempt cur (v w) \<Longrightarrow> case run_from L executor ctx repairer started attempt cur w of
     (Inr (x, n), w') \<Rightarrow> Q n x (v w') | (Inl e, w') \<Rightarrow> E e (v w')"
proof (induction "nat (bp_max_attempts (rl_policy L) - int attempt)" arbitrary: attempt cur w
    rule: less_induct)
  case less
  let ?run = "run_from L executor ctx repairer started"
  note unfold = run_from.simps [of L executor ctx repairer started attempt cur w]
  from ex less.prems(2) show ?case
  proof (cases rule: hoare_cases)
    case (ret x w1)
    then show ?thesis by (simp add: unfold)
  next
    case (raise error w1)
    let ?d = "diagnose error"
    obtain b w2 where cr: "can_retry L ?d ctx attempt started w1 = (b, w2)" by force
    with raise have R: "R attempt cur error (v w2)" using can_retry_keeps by metis
    show ?thesis
    proof (cases "is_exception error \<and> b")
      case False
      with raise cr R stop show ?thesis
        by (auto simp: unfold split: bool.splits)
    next
      case True
      then have exn: "is_exception error" and cr: "can_retry L ?d ctx attempt started w1 = (True, w2)"
        using cr by auto
      have d: "diagnose_category error \<noteq> POLICY_DENIED"
        using cr by (auto simp: can_retry_def diagnose_def split: if_splits)
      have n: "int attempt < bp_max_attempts (rl_policy L)" by (rule can_retry_attempts [OF cr])
      have next_ok: "hoare (\<lambda>w. R attempt cur error (v w)) (next_arguments repairer cur ?d error)
          (\<lambda>cur' w. I (Suc attempt) cur' (v w) \<and> E error (v w)) (\<lambda>e' w. E e' (v w))"
        using same stop rep [OF _ exn d n] n
        by (auto simp: next_arguments_def diagnose_def split: option.split intro!: hoare_ret hoare_raise)
      from next_ok R show ?thesis
      proof (cases rule: hoare_cases)
        case (raise e w3)
        with \<open>executor cur w = _\<close> exn cr show ?thesis by (simp add: unfold)
      next
        case (ret cur' w3)
        obtain x w4 where pa: "pause L attempt started error w3 = (x, w4)" by force
        from pause_keeps [OF this] ret have w4: "I (Suc attempt) cur' (v w4)" "E error (v w4)"
          and x: "x \<in> {Inr (), Inl error, Inl CancelledExn}" by auto
        have lt: "nat (bp_max_attempts (rl_policy L) - int (Suc attempt)) <
            nat (bp_max_attempts (rl_policy L) - int attempt)"
          using n by simp
        note ih = less.hyps [OF lt _ w4(1)]
        show ?thesis
          using \<open>executor cur w = _\<close> exn cr ret pa x w4 ih cancel [OF less.prems(1) w4(1)]
          by (auto simp: unfold)
      qed
    qed
  qed
qed

lemma run_hoare:
  assumes "\<And>n cur. hoare (\<lambda>w. I n cur (v w)) (executor cur) (\<lambda>x w. Q n x (v w)) (\<lambda>e w. R n cur e (v w))"
    and "\<And>f n cur e. repairer = Some f \<Longrightarrow> is_exception e \<Longrightarrow> diagnose_category e \<noteq> POLICY_DENIED \<Longrightarrow>
      int n < bp_max_attempts (rl_policy L) \<Longrightarrow>
      hoare (\<lambda>w. R n cur e (v w)) (f cur (diagnose e)) (\<lambda>cur' w. I (Suc n) cur' (v w) \<and> E e (v w))
        (\<lambda>e' w. E e' (v w))"
    and "\<And>n cur e s. R n cur e s \<Longrightarrow> diagnose_category e \<in> {TIMEOUT, SANDBOX_CRASH} \<Longrightarrow>
      int n < bp_max_attempts (rl_policy L) \<Longrightarrow> I (Suc n) cur s"
    and "\<And>n cur e s. R n cur e s \<Longrightarrow> E e s \<and> E (give_up (diagnose e) ctx e) s"
    and "\<And>n cur s. 1 \<le> n \<Longrightarrow> I (Suc n) cur s \<Longrightarrow> E CancelledExn s"
  shows "hoare (\<lambda>w. I 1 cur (v w)) (run L cur executor ctx repairer) (\<lambda>(x, n) w. Q n x (v w))
    (\<lambda>e w. E e (v w))"
proof -
  have "case run L cur executor ctx repairer w of
     (Inr (x, n), w') \<Rightarrow> Q n x (v w') | (Inl e, w') \<Rightarrow> E e (v w')" if I: "I 1 cur (v w)" for w
  proof -
    obtain t w1 where m: "rl_monotonic L w = (t, w1)" by force
    with I have I1: "I 1 cur (v w1)" by simp
    have "case run_from L executor ctx repairer t 1 cur w1 of
        (Inr (x, n), w') \<Rightarrow> Q n x (v w') | (Inl e, w') \<Rightarrow> E e (v w')"
      by (rule run_from_hoare [where I = I and Q = Q and R = R and E = E])
        (assumption | rule assms I1 order_refl)+
    with m show ?thesis by (simp add: run_def)
  qed
  then show ?thesis by (fastforce simp: hoare_def split: prod.splits sum.splits)
qed

text \<open>Counting executions: \<open>calls\<close> is any count that one execution raises by one.\<close>

lemma run_calls:
  fixes calls :: "'v \<Rightarrow> nat"
  assumes ex: "\<And>a w x w'. executor a w = (x, w') \<Longrightarrow> calls (v w') = Suc (calls (v w))"
    and rep: "\<And>f a d w x w'. repairer = Some f \<Longrightarrow> f a d w = (x, w') \<Longrightarrow> calls (v w') = calls (v w)"
    and run: "run L cur executor ctx repairer w = (r, w')"
  shows "\<exists>n. calls (v w') = calls (v w) + n \<and> 1 \<le> n \<and> n \<le> max 1 (nat (bp_max_attempts (rl_policy L))) \<and>
    (case r of Inr (out, m) \<Rightarrow> m = n | Inl e \<Rightarrow> True)"
proof -
  let ?m = "max 1 (nat (bp_max_attempts (rl_policy L)))"
  let ?c = "calls (v w)"
  let ?after = "\<lambda>n s. calls s = ?c + n \<and> 1 \<le> n \<and> n \<le> ?m"
  let ?before = "\<lambda>n s. Suc (calls s) = ?c + n \<and> 1 \<le> n \<and> n \<le> ?m"
  have fits: "Suc n \<le> ?m" if "int n < bp_max_attempts (rl_policy L)" for n
    using that by linarith
  have "hoare (\<lambda>w. ?before 1 (v w)) (run L cur executor ctx repairer)
    (\<lambda>(x, n) w. ?after n (v w)) (\<lambda>e w. \<exists>n. ?after n (v w))"
  proof (rule run_hoare [where I = "\<lambda>n cur. ?before n" and R = "\<lambda>n cur e. ?after n"])
    show "hoare (\<lambda>w. ?before n (v w)) (executor cur) (\<lambda>x w. ?after n (v w)) (\<lambda>e w. ?after n (v w))"
      for n cur
      by (rule hoareI) (auto dest: ex)
    show "hoare (\<lambda>w. ?after n (v w)) (f cur (diagnose e))
        (\<lambda>cur' w. ?before (Suc n) (v w) \<and> (\<exists>n. ?after n (v w))) (\<lambda>e' w. \<exists>n. ?after n (v w))"
      if "repairer = Some f" "int n < bp_max_attempts (rl_policy L)" for f n cur e
      using fits [OF that(2)] by (intro hoareI) (auto dest!: rep [OF that(1)])
  next
    fix n cur and e :: exn and s
    assume a: "?after n s"
    then show "(\<exists>n. ?after n s) \<and> (\<exists>n. ?after n s)" by blast
    show "?before (Suc n) s" if "int n < bp_max_attempts (rl_policy L)"
      using a fits [OF that] by simp
  next
    show "\<exists>n. ?after n s" if "1 \<le> n" "?before (Suc n) s" for n s
      using that by (intro exI [of _ n]) simp
  qed
  moreover have "?before 1 (v w)" by simp
  ultimately show ?thesis
    by (cases rule: hoare_cases) (use run in auto)
qed

end

interpretation scripted: quiet_loop "RepairLoop p :: ('x \<times> loop_env) repair_loop" fst
  by unfold_locales (auto simp: RepairLoop_def split: if_splits)

text \<open>An executor that fails \<open>k\<close> times with a timeout and then succeeds, counting its
  executions.\<close>

definition flaky :: "nat \<Rightarrow> (nat \<times> loop_env, nat) executor" where
  "flaky k a = (\<lambda>(x, t). (if x < k then Inl (GatewayExn SandboxTimeoutError) else Inr x, (Suc x, t)))"

lemma flaky_run_from:
  assumes ro: "rx_risk_class ctx = READ_ONLY" and k: "int k < bp_max_attempts p"
    and delays: "\<And>j n m. le_clock t j - started + delay p n (le_uniform t m) < bp_max_total_seconds p"
    and nc: "\<And>i. \<not> le_cancel t i" and x: "x \<le> k"
  shows "fst (run_from (RepairLoop p) (flaky k) ctx repairer started (Suc x) arguments (x, t)) =
    Inr (k, Suc k)"
  using delays nc x
proof (induction "k - x" arbitrary: x t)
  case 0
  then show ?case
    by (simp add: run_from.simps [of _ _ _ _ _ "Suc x"] flaky_def)
next
  case (Suc d)
  then have lt: "x < k" by simp
  have pos: "0 \<le> delay p n u" for n u by (simp add: delay_def Let_def)
  have room: "\<not> bp_max_total_seconds p \<le> le_clock t a - started"
    "\<not> le_clock t a + delay p n (le_uniform t m) - started > bp_max_total_seconds p" for a n m
    using Suc.prems(1) [of a n m] pos [of n "le_uniform t m"] by linarith+
  have cat: "fd_category (diagnose (GatewayExn SandboxTimeoutError)) = TIMEOUT"
    by (simp add: diagnose_def denial_codes_def)
  have pol: "rl_policy (RepairLoop p :: (nat \<times> loop_env) repair_loop) = p" by (simp add: RepairLoop_def)
  have "int (Suc x) < bp_max_attempts p" using lt k by simp
  moreover have "fst (run_from (RepairLoop p) (flaky k) ctx repairer started (Suc (Suc x)) arguments
    (Suc x, t')) = Inr (k, Suc k)"
    if "le_clock t' = le_clock t" "le_uniform t' = le_uniform t" "le_cancel t' = le_cancel t" for t'
    using Suc.hyps(2) Suc.prems lt that by (intro Suc.hyps(1)) auto
  moreover have "\<exists>w2. can_retry (RepairLoop p) (diagnose (GatewayExn SandboxTimeoutError)) ctx (Suc x)
      started (Suc x, t) = (True, (Suc x, w2)) \<and> le_clock w2 = le_clock t \<and>
      le_uniform w2 = le_uniform t \<and> le_cancel w2 = le_cancel t"
    using calculation(1) room ro by (simp add: can_retry_def cat RepairLoop_def)
  moreover have "\<exists>w4. pause (RepairLoop p) (Suc x) started (GatewayExn SandboxTimeoutError) (Suc x, w2) =
      (Inr (), (Suc x, w4)) \<and> le_clock w4 = le_clock t \<and>
      le_uniform w4 = le_uniform t \<and> le_cancel w4 = le_cancel t"
    if "le_clock w2 = le_clock t" "le_uniform w2 = le_uniform t" "le_cancel w2 = le_cancel t" for w2
    using that room Suc.prems(2) by (simp add: pause_def RepairLoop_def Let_def)
  ultimately show ?case
    using lt by (fastforce simp: run_from.simps [of _ _ _ _ _ "Suc x"] flaky_def next_arguments_def cat ret_def)
qed

section \<open>Properties\<close>

text \<open>C23: the number of executions is bounded.  Whatever fails, \<open>RepairLoop.run\<close> executes the
  call at least once and at most \<open>max(1, max_attempts)\<close> times, and the attempt number it returns
  is the number of executions.  \<open>calls\<close> is any count that each execution raises by one and
  that the repairer leaves alone.\<close>

theorem repair_attempts_bounded:
  fixes calls :: "'x \<Rightarrow> nat"
  assumes "\<And>a w r w'. executor a w = (r, w') \<Longrightarrow> calls (fst w') = Suc (calls (fst w))"
    and "\<And>f a d w r w'. repairer = Some f \<Longrightarrow> f a d w = (r, w') \<Longrightarrow> calls (fst w') = calls (fst w)"
    and "run (RepairLoop p) arguments executor ctx repairer w = (r, w')"
  shows "\<exists>n. calls (fst w') = calls (fst w) + n \<and> 1 \<le> n \<and> n \<le> max 1 (nat (bp_max_attempts p)) \<and>
    (case r of Inr (out, m) \<Rightarrow> m = n | Inl e \<Rightarrow> True)"
  using scripted.run_calls [of executor calls repairer p arguments ctx w r w'] assms
  by (simp add: RepairLoop_def)

definition demo_env :: loop_env where
  "demo_env = \<lparr>le_clock = (\<lambda>i. 0), le_uniform = (\<lambda>i. 0), le_cancel = (\<lambda>i. False), le_ticks = 0,
     le_draws = 0, le_sleeps = []\<rparr>"

definition read_only_context :: repair_context where
  "read_only_context = \<lparr>rx_risk_class = READ_ONLY, rx_idempotent = False, rx_tool_name = ''db_query'',
     rx_tool_schema = None\<rparr>"

theorem repair_attempts_bounded_witness:
  "\<exists>n. fst (snd (run (RepairLoop default_backoff) [] (flaky 7) read_only_context None (0, demo_env))) = n \<and>
     1 \<le> n \<and> n \<le> 3"
proof -
  have ex: "fst w' = Suc (fst w)" if "flaky 7 a w = (r, w')" for a w r w'
    using that by (auto simp: flaky_def split: prod.splits)
  have "bp_max_attempts default_backoff = 3" by (simp add: default_backoff_def)
  moreover obtain r w' where
    r: "run (RepairLoop default_backoff) [] (flaky 7) read_only_context None (0, demo_env) = (r, w')"
    by (rule prod.exhaust)
  ultimately show ?thesis
    using repair_attempts_bounded [of "flaky 7" id None, OF _ _ r] ex by auto
qed

text \<open>C24: a call that is neither read-only nor idempotent is executed exactly once.  A success is
  returned as attempt 1; a timeout or a crash of the sandbox, after which the call may have
  taken effect, becomes \<open>NeedsReviewError\<close>; any other failure is raised as it is.\<close>

theorem unsafe_call_runs_once:
  assumes "rx_risk_class ctx \<noteq> READ_ONLY" and "\<not> rx_idempotent ctx"
    and "executor arguments (x, t\<lparr>le_ticks := Suc (le_ticks t)\<rparr>) = (r, (x', t'))"
  shows "fst (snd (run (RepairLoop p) arguments executor ctx repairer (x, t))) = x' \<and>
    fst (run (RepairLoop p) arguments executor ctx repairer (x, t)) = (case r of
       Inr out \<Rightarrow> Inr (out, 1)
     | Inl e \<Rightarrow> Inl (if diagnose_category e \<in> {TIMEOUT, SANDBOX_CRASH}
         then GatewayExn (NeedsReviewError ''A mutating call may have partially executed and needs review'')
         else e))"
proof -
  let ?t = "t\<lparr>le_ticks := Suc (le_ticks t)\<rparr>"
  let ?L = "RepairLoop p :: ('b \<times> loop_env) repair_loop"
  have start: "run ?L arguments executor ctx repairer (x, t) =
      run_from ?L executor ctx repairer (le_clock t (le_ticks t)) (Suc 0) arguments (x, ?t)"
    by (simp add: run_def RepairLoop_def)
  note unfold = run_from.simps [of ?L executor ctx repairer "le_clock t (le_ticks t)" "Suc 0" arguments "(x, ?t)"]
  show ?thesis
  proof (cases r)
    case (Inr out)
    with assms(3) show ?thesis by (simp add: start unfold)
  next
    case (Inl e)
    obtain b w2 where cr: "can_retry ?L (diagnose e) ctx (Suc 0) (le_clock t (le_ticks t)) (x', t') = (b, w2)"
      by (rule prod.exhaust)
    have "\<not> b" using cr assms(1,2) by (auto simp: can_retry_def split: if_splits prod.splits)
    moreover have "fst w2 = x'" using scripted.can_retry_keeps [OF cr] by simp
    moreover have "diagnose_category CancelledExn = TOOL_ERROR" by simp
    ultimately show ?thesis
      using assms cr Inl
      by (cases e) (auto simp: start unfold give_up_def diagnose_def simp del: diagnose_category.simps)
  qed
qed

definition mutating_context :: repair_context where
  "mutating_context = \<lparr>rx_risk_class = MUTATING, rx_idempotent = False, rx_tool_name = ''shell_exec'',
     rx_tool_schema = None\<rparr>"

theorem unsafe_call_runs_once_witness:
  "fst (run (RepairLoop default_backoff) [] (flaky 1) mutating_context None (0, demo_env)) =
     Inl (GatewayExn (NeedsReviewError ''A mutating call may have partially executed and needs review''))"
  using unsafe_call_runs_once [of mutating_context "flaky 1" "[]" 0 demo_env
      "Inl (GatewayExn SandboxTimeoutError)" 1 "demo_env\<lparr>le_ticks := 1\<rparr>" default_backoff None]
  by (simp add: mutating_context_def flaky_def demo_env_def denial_codes_def)

text \<open>A refusal is final.  When an execution fails with a policy denial, an unavailable policy,
  or a rejected or expired approval, the loop raises that error at once: no repair, no clock
  reading, no sleep, no further execution.\<close>

theorem denial_is_final:
  assumes "error_code err \<in> set denial_codes"
    and "executor current w = (Inl (GatewayExn err), w1)"
  shows "run_from L executor ctx repairer started attempt current w = (Inl (GatewayExn err), w1)"
  using assms by (simp add: run_from.simps [of L executor ctx repairer started attempt current w]
      can_retry_def diagnose_def give_up_def)

theorem denial_is_final_witness:
  "run_from (RepairLoop default_backoff) (\<lambda>a w. (Inl (GatewayExn (PolicyDeniedError ''no'')), w) :: (exn + unit) \<times> _)
     read_only_context (Some (\<lambda>a d. ret a)) 0 1 [] ((), demo_env) =
   (Inl (GatewayExn (PolicyDeniedError ''no'')), ((), demo_env))"
  by (rule denial_is_final) (simp_all add: denial_codes_def)

text \<open>Bounds of the backoff delay.  With non-negative limits, a jitter ratio between 0 and 1
  and a random factor between -1 and 1, the delay before a retry lies within the jitter ratio
  around the capped exponential, so it never exceeds \<open>max_seconds * (1 + jitter_ratio)\<close>.\<close>

theorem delay_bounds:
  assumes "0 \<le> bp_base_seconds p" and "0 \<le> bp_max_seconds p"
    and "0 \<le> bp_jitter_ratio p" and "bp_jitter_ratio p \<le> 1" and "- 1 \<le> u" and "u \<le> 1"
  shows "\<bar>delay p n u - raw_delay p n\<bar> \<le> raw_delay p n * bp_jitter_ratio p \<and>
    0 \<le> delay p n u \<and> delay p n u \<le> bp_max_seconds p * (1 + bp_jitter_ratio p)"
proof -
  let ?r = "raw_delay p n" and ?j = "bp_jitter_ratio p"
  have r: "0 \<le> ?r" "?r \<le> bp_max_seconds p"
    using assms(1,2) by (simp_all add: raw_delay_def)
  then have rj: "0 \<le> ?r * ?j" "?r * ?j \<le> ?r"
    using assms(3,4) by (simp_all add: mult_left_le)
  have "\<bar>?r * ?j * u\<bar> \<le> ?r * ?j"
    using rj(1) assms(5,6) by (subst abs_mult) (simp add: mult_left_le abs_le_iff)
  then have dev: "- (?r * ?j) \<le> ?r * ?j * u" "?r * ?j * u \<le> ?r * ?j" by linarith+
  with rj(2) have d: "delay p n u = ?r + ?r * ?j * u"
    by (simp add: delay_def Let_def)
  have "?r + ?r * ?j \<le> bp_max_seconds p * (1 + ?j)"
    using r(2) assms(3) mult_right_mono [of ?r "bp_max_seconds p" "1 + ?j"] by (simp add: algebra_simps)
  with d dev rj(2) show ?thesis by linarith
qed

theorem delay_bounds_witness:
  "0 \<le> delay default_backoff 3 1 \<and> delay default_backoff 3 1 \<le> 6"
proof -
  have "bp_max_seconds default_backoff * (1 + bp_jitter_ratio default_backoff) = 6"
    by (simp add: default_backoff_def)
  with delay_bounds [of default_backoff 1 3] show ?thesis
    by (simp add: default_backoff_def)
qed

text \<open>Transient timeouts are survived.  A read-only call that times out \<open>k\<close> times, with
  \<open>k\<close> below the attempt limit, and then succeeds is answered at attempt \<open>k + 1\<close>, provided the clock
  leaves room for the delays and no sleep is cancelled.\<close>

theorem transient_timeouts_recover:
  assumes "rx_risk_class ctx = READ_ONLY" and "int k < bp_max_attempts p"
    and "\<And>i. \<not> le_cancel t i"
    and "\<And>i j n m. le_clock t j - le_clock t i + delay p n (le_uniform t m) < bp_max_total_seconds p"
  shows "fst (run (RepairLoop p) arguments (flaky k) ctx repairer (0, t)) = Inr (k, Suc k)"
proof -
  let ?t = "t\<lparr>le_ticks := Suc (le_ticks t)\<rparr>"
  have "run (RepairLoop p) arguments (flaky k) ctx repairer (0, t) =
      run_from (RepairLoop p) (flaky k) ctx repairer (le_clock t (le_ticks t)) (Suc 0) arguments (0, ?t)"
    by (simp add: run_def RepairLoop_def)
  then show ?thesis
    using flaky_run_from [of ctx k p ?t "le_clock t (le_ticks t)" 0] assms by simp
qed

theorem transient_timeouts_recover_witness:
  "fst (run (RepairLoop default_backoff) [] (flaky 2) read_only_context None (0, demo_env)) = Inr (2, 3)"
proof -
  have "delay default_backoff n 0 \<le> 5" for n
    by (simp add: delay_def raw_delay_def default_backoff_def Let_def)
  then have d: "delay default_backoff n 0 < 30" for n
    by (rule order.strict_trans1) simp
  show ?thesis
    using transient_timeouts_recover [of read_only_context 2 default_backoff demo_env "[]" None] d
    by (simp add: demo_env_def read_only_context_def default_backoff_def)
qed

end
