(* ===== verification/Json_Loads.thy ===== *)
theory Json_Loads
  imports Json
begin

text \<open>
  The parser \<open>json.loads\<close> of Python's standard library on text, which the audit verifier, the
  log's recovery, the repair advisors and the worker protocol use, and its round trip with
  \<open>json.dumps\<close>.  The parameter \<open>frepr\<close> stands for \<open>repr(float(text))\<close>, the text that Python
  prints for the float it read.  An escape for a code point above 255 is outside the model's
  strings and is treated like a malformed one.  Recursion is bounded by the length of the input,
  which is enough because every call consumes a character.
\<close>

section \<open>Scanning\<close>

definition json_ws :: "char \<Rightarrow> bool" where
  "json_ws c = (c \<in> {CHR '' '', CHR 0x09, CHR 0x0A, CHR 0x0D})"

definition skip_ws :: "string \<Rightarrow> string" where
  "skip_ws s = dropWhile json_ws s"

definition hex_value :: "char \<Rightarrow> nat option" where
  "hex_value c = (let n = (of_char c :: nat) in
     if 48 \<le> n \<and> n \<le> 57 then Some (n - 48)
     else if 97 \<le> n \<and> n \<le> 102 then Some (n - 87)
     else if 65 \<le> n \<and> n \<le> 70 then Some (n - 55) else None)"

definition hex4 :: "char \<Rightarrow> char \<Rightarrow> char \<Rightarrow> char \<Rightarrow> nat option" where
  "hex4 a b c d = (case (hex_value a, hex_value b, hex_value c, hex_value d) of
     (Some p, Some q, Some r, Some s) \<Rightarrow> Some (((p * 16 + q) * 16 + r) * 16 + s) | _ \<Rightarrow> None)"

definition unescape :: "char \<Rightarrow> char option" where
  "unescape c = (if c \<in> {CHR 0x22, CHR 0x5C, CHR ''/''} then Some c
     else if c = CHR ''b'' then Some (CHR 0x08) else if c = CHR ''f'' then Some (CHR 0x0C)
     else if c = CHR ''n'' then Some (CHR 0x0A) else if c = CHR ''r'' then Some (CHR 0x0D)
     else if c = CHR ''t'' then Some (CHR 0x09) else None)"

text \<open>\<open>py_scanstring\<close> after the opening quote: the text and the rest of the input.\<close>

fun scan_string :: "string \<Rightarrow> (string \<times> string) option" where
  "scan_string [] = None"
| "scan_string (c # cs) =
     (if c = CHR 0x22 then Some ([], cs)
      else if c = CHR 0x5C then
        (case cs of
           [] \<Rightarrow> None
         | e # rest \<Rightarrow>
             if e = CHR ''u'' then
               (case rest of
                  h1 # h2 # h3 # h4 # rest' \<Rightarrow>
                    (case hex4 h1 h2 h3 h4 of
                       None \<Rightarrow> None
                     | Some n \<Rightarrow> if n < 256
                         then map_option (map_prod ((#) (char_of n)) id) (scan_string rest') else None)
                | _ \<Rightarrow> None)
             else (case unescape e of
                 None \<Rightarrow> None
               | Some x \<Rightarrow> map_option (map_prod ((#) x) id) (scan_string rest)))
      else if of_char c < (32 :: nat) then None
      else map_option (map_prod ((#) c) id) (scan_string cs))"

declare scan_string.simps [simp del]

definition is_digit :: "char \<Rightarrow> bool" where
  "is_digit c = (let n = (of_char c :: nat) in 48 \<le> n \<and> n \<le> 57)"

text \<open>The parts of \<open>NUMBER_RE\<close>: an integer without superfluous zeros, a fraction, an exponent.
  Each returns the matched text and the rest.\<close>

definition scan_nat :: "string \<Rightarrow> (string \<times> string) option" where
  "scan_nat s = (case s of
       [] \<Rightarrow> None
     | c # cs \<Rightarrow> if c = CHR ''0'' then Some ([c], cs)
         else if is_digit c then Some (takeWhile is_digit s, dropWhile is_digit s) else None)"

definition scan_frac :: "string \<Rightarrow> string \<times> string" where
  "scan_frac s = (case s of
       c # d # cs \<Rightarrow> if c = CHR ''.'' \<and> is_digit d
         then (c # takeWhile is_digit (d # cs), dropWhile is_digit (d # cs)) else ([], s)
     | _ \<Rightarrow> ([], s))"

definition scan_exp :: "string \<Rightarrow> string \<times> string" where
  "scan_exp s = (case s of
       c # cs \<Rightarrow> if c \<in> {CHR ''e'', CHR ''E''} then
           (let (sign, ds) = (case cs of g # r \<Rightarrow> if g \<in> {CHR ''+'', CHR ''-''} then ([g], r) else ([], cs)
                                       | [] \<Rightarrow> ([], cs))
            in if takeWhile is_digit ds = [] then ([], s)
               else (c # sign @ takeWhile is_digit ds, dropWhile is_digit ds))
         else ([], s)
     | [] \<Rightarrow> ([], s))"

definition digits_value :: "string \<Rightarrow> nat" where
  "digits_value ds = foldl (\<lambda>n c. 10 * n + (of_char c - 48)) 0 ds"

definition scan_number :: "(string \<Rightarrow> string) \<Rightarrow> string \<Rightarrow> (json \<times> string) option" where
  "scan_number frepr s =
     (let (neg, s1) = (case s of c # cs \<Rightarrow> if c = CHR ''-'' then (True, cs) else (False, s) | [] \<Rightarrow> (False, s))
      in case scan_nat s1 of
           None \<Rightarrow> None
         | Some (ds, s2) \<Rightarrow>
             (let (fr, s3) = scan_frac s2; (ex, s4) = scan_exp s3
              in Some (if fr = [] \<and> ex = []
                   then JInt (if neg then - int (digits_value ds) else int (digits_value ds))
                   else JFloat (frepr ((if neg then ''-'' else []) @ ds @ fr @ ex)), s4)))"

section \<open>Values\<close>

definition scan_constant :: "string \<Rightarrow> (json \<times> string) option" where
  "scan_constant s =
     (if prefix ''null'' s then Some (JNull, drop 4 s)
      else if prefix ''true'' s then Some (JBool True, drop 4 s)
      else if prefix ''false'' s then Some (JBool False, drop 5 s)
      else if prefix ''NaN'' s then Some (JFloat ''NaN'', drop 3 s)
      else if prefix ''Infinity'' s then Some (JFloat ''Infinity'', drop 8 s)
      else if prefix ''-Infinity'' s then Some (JFloat ''-Infinity'', drop 9 s)
      else None)"

text \<open>\<open>scan_once\<close>, and the loops over the items of a list and the members of an object.\<close>

fun scan_value :: "(string \<Rightarrow> string) \<Rightarrow> nat \<Rightarrow> string \<Rightarrow> (json \<times> string) option"
and scan_items :: "(string \<Rightarrow> string) \<Rightarrow> nat \<Rightarrow> string \<Rightarrow> (json list \<times> string) option"
and scan_members :: "(string \<Rightarrow> string) \<Rightarrow> nat \<Rightarrow> string \<Rightarrow> ((string \<times> json) list \<times> string) option"
where
  "scan_value frepr 0 s = None"
| "scan_value frepr (Suc n) s = (case s of
       [] \<Rightarrow> None
     | c # cs \<Rightarrow>
         if c = CHR 0x22 then map_option (map_prod JStr id) (scan_string cs)
         else if c = CHR ''['' then
           (case skip_ws cs of
              [] \<Rightarrow> None
            | d # ds \<Rightarrow> if d = CHR '']'' then Some (JList [], ds)
                else map_option (map_prod JList id) (scan_items frepr n (d # ds)))
         else if c = CHR ''{'' then
           (case skip_ws cs of
              [] \<Rightarrow> None
            | d # ds \<Rightarrow> if d = CHR ''}'' then Some (JObj [], ds)
                else map_option (map_prod (\<lambda>kvs. JObj (fold (\<lambda>(k, v). dict_set k v) kvs [])) id)
                  (scan_members frepr n (d # ds)))
         else (case scan_constant s of Some r \<Rightarrow> Some r | None \<Rightarrow> scan_number frepr s))"
| "scan_items frepr 0 s = None"
| "scan_items frepr (Suc n) s = (case scan_value frepr n s of
       None \<Rightarrow> None
     | Some (v, r) \<Rightarrow> (case skip_ws r of
           [] \<Rightarrow> None
         | d # ds \<Rightarrow> if d = CHR '']'' then Some ([v], ds)
             else if d = CHR '','' then map_option (map_prod ((#) v) id) (scan_items frepr n (skip_ws ds))
             else None))"
| "scan_members frepr 0 s = None"
| "scan_members frepr (Suc n) s = (case s of
       [] \<Rightarrow> None
     | c # cs \<Rightarrow>
         if c \<noteq> CHR 0x22 then None
         else (case scan_string cs of
             None \<Rightarrow> None
           | Some (k, r) \<Rightarrow> (case skip_ws r of
                 [] \<Rightarrow> None
               | d # ds \<Rightarrow>
                   if d \<noteq> CHR '':'' then None
                   else (case scan_value frepr n (skip_ws ds) of
                       None \<Rightarrow> None
                     | Some (v, r') \<Rightarrow> (case skip_ws r' of
                           [] \<Rightarrow> None
                         | e # es \<Rightarrow>
                             if e = CHR ''}'' then Some ([(k, v)], es)
                             else if e = CHR '','' then
                               map_option (map_prod ((#) (k, v)) id) (scan_members frepr n (skip_ws es))
                             else None)))))"

definition json_loads :: "(string \<Rightarrow> string) \<Rightarrow> string \<Rightarrow> json option" where
  "json_loads frepr s = (let t = skip_ws s in
     case scan_value frepr (Suc (2 * length t)) t of
       None \<Rightarrow> None
     | Some (v, r) \<Rightarrow> if skip_ws r = [] then Some v else None)"

section \<open>Lemmas on scanning\<close>

lemma of_char_char_of_nat [simp]: "n < 256 \<Longrightarrow> (of_char (char_of n :: char) :: nat) = n"
  by (simp add: of_char_of)

lemma of_char_less [simp]: "(of_char (c :: char) :: nat) < 256"
  by (metis of_char_mod_256 mod_less_divisor zero_less_numeral)

lemma hex_value_digit [simp]: "n < 16 \<Longrightarrow> hex_value (hex_digit n) = Some n"
  by (simp add: hex_value_def hex_digit_def Let_def)

lemma hex4_of_char:
  "n < 256 \<Longrightarrow> hex4 (CHR ''0'') (CHR ''0'') (hex_digit (n div 16)) (hex_digit (n mod 16)) = Some n"
proof -
  assume "n < 256"
  then have "n div 16 < 16" by (simp add: less_mult_imp_div_less)
  moreover have "hex_value (CHR ''0'') = Some 0" by (simp add: hex_value_def)
  ultimately show ?thesis by (simp add: hex4_def)
qed

lemma scan_simple_escape:
  "unescape e = Some x \<Longrightarrow>
   scan_string (CHR 0x5C # e # rest) = map_option (map_prod ((#) x) id) (scan_string rest)"
  by (subst scan_string.simps) (auto simp: unescape_def)

lemma char_eqI: "(of_char c :: nat) = of_char d \<Longrightarrow> c = d"
  by simp

lemma scan_escape:
  "scan_string (json_escape c @ rest) = map_option (map_prod ((#) c) id) (scan_string rest)"
proof -
  have plain: "CHR 0x5C \<noteq> c \<Longrightarrow> CHR 0x22 \<noteq> c \<Longrightarrow> 32 \<le> (of_char c :: nat) \<Longrightarrow>
     scan_string (c # rest) = map_option (map_prod ((#) c) id) (scan_string rest)"
    by (simp add: scan_string.simps)
  have hex: "scan_string (CHR 0x5C # CHR ''u'' # CHR ''0'' # CHR ''0'' # hex_digit (of_char c div 16) #
      hex_digit (of_char c mod 16) # rest) = map_option (map_prod ((#) c) id) (scan_string rest)"
    by (subst scan_string.simps) (simp add: hex4_of_char)
  have codes: "of_char c = (10 :: nat) \<Longrightarrow> c = CHR 0x0A" "of_char c = (13 :: nat) \<Longrightarrow> c = CHR 0x0D"
    "of_char c = (9 :: nat) \<Longrightarrow> c = CHR 0x09" "of_char c = (12 :: nat) \<Longrightarrow> c = CHR 0x0C"
    "of_char c = (8 :: nat) \<Longrightarrow> c = CHR 0x08"
    by (rule char_eqI, simp)+
  consider "c = CHR 0x22" | "c = CHR 0x5C" | "c = CHR 0x0A" | "c = CHR 0x0D" | "c = CHR 0x09"
    | "c = CHR 0x0C" | "c = CHR 0x08"
    | "c \<noteq> CHR 0x22" "c \<noteq> CHR 0x5C" "of_char c \<noteq> (10 :: nat)" "of_char c \<noteq> (13 :: nat)"
      "of_char c \<noteq> (9 :: nat)" "of_char c \<noteq> (12 :: nat)" "of_char c \<noteq> (8 :: nat)"
    using codes by blast
  then show ?thesis
  proof cases
    case 8
    then show ?thesis using plain hex by (auto simp: json_escape_def Let_def)
  qed (simp_all add: json_escape_def scan_simple_escape unescape_def)
qed

lemma scan_string_quote:
  "scan_string (concat (map json_escape s) @ CHR 0x22 # rest) = Some (s, rest)"
  by (induction s) (simp_all add: scan_escape, simp add: scan_string.simps)

lemma is_digit_char_of [simp]: "(n :: nat) < 10 \<Longrightarrow> is_digit (char_of (48 + n))"
  by (simp add: is_digit_def Let_def)

lemma nat_digits_digits: "c \<in> set (nat_digits n) \<Longrightarrow> is_digit c"
proof (induction n rule: nat_digits.induct)
  case (1 n)
  then show ?case by (auto simp: nat_digits.simps [of n] split: if_splits)
qed

lemma digits_value_append: "digits_value (ds @ [c]) = 10 * digits_value ds + (of_char c - 48)"
  by (simp add: digits_value_def)

lemma digits_value_nat_digits [simp]: "digits_value (nat_digits n) = n"
proof (induction n rule: nat_digits.induct)
  case (1 n)
  show ?case
  proof (cases "n < 10")
    case True
    then show ?thesis by (simp add: nat_digits.simps [of n] digits_value_def)
  next
    case False
    with 1 show ?thesis
      by (subst nat_digits.simps) (simp add: digits_value_append)
  qed
qed

lemma nat_digits_ne [simp]: "nat_digits n \<noteq> []"
  by (simp add: nat_digits.simps [of n])

lemma hd_nat_digits: "hd (nat_digits n) = CHR ''0'' \<Longrightarrow> n = 0"
proof (induction n rule: nat_digits.induct)
  case (1 n)
  show ?case
  proof (cases "n < 10")
    case True
    with "1.prems" have "char_of (48 + n) = CHR ''0''" by (simp add: nat_digits.simps [of n])
    then have "(of_char (char_of (48 + n) :: char) :: nat) = of_char (CHR ''0'')" by (rule arg_cong)
    with True show ?thesis by simp
  next
    case False
    then have "nat_digits n = nat_digits (n div 10) @ [char_of (48 + n mod 10)]"
      by (subst nat_digits.simps) simp
    with "1.prems" have "hd (nat_digits (n div 10)) = CHR ''0''" by simp
    with "1.IH" [OF False] False show ?thesis by simp
  qed
qed

text \<open>What may follow a value in a text that \<open>json.dumps\<close> wrote.\<close>

definition delim :: "string \<Rightarrow> bool" where
  "delim rest = (case rest of [] \<Rightarrow> True
     | c # cs \<Rightarrow> c \<in> {CHR '','', CHR '']'', CHR ''}'', CHR '' '', CHR 0x0A, CHR 0x0D, CHR 0x09})"

lemma delim_Cons: "delim (c # cs) \<Longrightarrow> \<not> is_digit c \<and> c \<notin> {CHR ''.'', CHR ''e'', CHR ''E'', CHR ''+'', CHR ''-''}"
  by (auto simp: delim_def is_digit_def)

lemma delim_digits [simp]:
  "delim rest \<Longrightarrow> takeWhile is_digit rest = [] \<and> dropWhile is_digit rest = rest"
  by (cases rest) (auto dest: delim_Cons)

lemma takeWhile_delim [simp]: "delim rest \<Longrightarrow> takeWhile is_digit (s @ rest) = takeWhile is_digit s"
  by (induction s) auto

lemma dropWhile_delim [simp]: "delim rest \<Longrightarrow> dropWhile is_digit (s @ rest) = dropWhile is_digit s @ rest"
  by (induction s) auto

lemma scan_nat_append:
  "delim rest \<Longrightarrow> scan_nat s = Some (ds, r) \<Longrightarrow> scan_nat (s @ rest) = Some (ds, r @ rest)"
  by (cases s) (auto simp: scan_nat_def split: if_splits)

lemma scan_frac_append: "delim rest \<Longrightarrow> scan_frac (s @ rest) = map_prod id (\<lambda>r. r @ rest) (scan_frac s)"
  by (cases s rule: list.exhaust [case_product list.exhaust [of "tl s"]]; cases rest)
    (auto simp: scan_frac_def split: list.splits dest: delim_Cons)

lemma scan_exp_append: "delim rest \<Longrightarrow> scan_exp (s @ rest) = map_prod id (\<lambda>r. r @ rest) (scan_exp s)"
proof -
  assume d: "delim rest"
  then have g: "c \<notin> {CHR ''+'', CHR ''-''}" "\<not> is_digit c" if "rest = c # cs" for c cs
    using that delim_Cons by blast+
  from d show ?thesis
  proof (cases s)
    case Nil
    with d show ?thesis by (cases rest) (auto simp: scan_exp_def dest: delim_Cons)
  next
    case (Cons c cs)
    from d g show ?thesis
      by (cases cs; cases rest) (auto simp: Cons scan_exp_def)
  qed
qed

lemma scan_number_append:
  assumes "delim rest" and "scan_number frepr s = Some (v, r)"
  shows "scan_number frepr (s @ rest) = Some (v, r @ rest)"
proof (cases s)
  case Nil
  with assms(2) show ?thesis by (simp add: scan_number_def scan_nat_def)
next
  case (Cons c cs)
  let ?s1 = "if c = CHR ''-'' then cs else s"
  obtain ds s2 where n: "scan_nat ?s1 = Some (ds, s2)"
    using assms(2) Cons by (auto simp: scan_number_def split: option.splits if_splits)
  from scan_nat_append [OF assms(1) this] assms n Cons show ?thesis
    by (auto simp: scan_number_def scan_frac_append scan_exp_append Let_def split: prod.splits)
qed

lemma scan_nat_digits: "scan_nat (nat_digits n) = Some (nat_digits n, [])"
proof -
  obtain c cs where c: "nat_digits n = c # cs" by (cases "nat_digits n") auto
  have digits: "\<forall>x \<in> set (nat_digits n). is_digit x" using nat_digits_digits by blast
  show ?thesis
  proof (cases "c = CHR ''0''")
    case True
    with c hd_nat_digits [of n] have "n = 0" by simp
    moreover have "char_of (48 :: nat) = CHR ''0''" by (rule char_eqI) simp
    ultimately show ?thesis by (simp add: scan_nat_def nat_digits.simps [of 0])
  next
    case False
    with digits c show ?thesis by (simp add: scan_nat_def)
  qed
qed

lemma scan_number_int: "scan_number frepr (str_of_int i) = Some (JInt i, [])"
proof -
  obtain c cs where c: "nat_digits (nat i) = c # cs" "is_digit c"
    using nat_digits_digits [of _ "nat i"] by (cases "nat_digits (nat i)") auto
  then have "c \<noteq> CHR ''-''" by (auto simp: is_digit_def)
  moreover have "digits_value (c # cs) = nat i" using c(1) digits_value_nat_digits [of "nat i"] by simp
  ultimately show ?thesis
    using c scan_nat_digits [of "nat i"] scan_nat_digits [of "nat (- i)"]
    by (auto simp: scan_number_def str_of_int_def str_of_nat_def scan_frac_def scan_exp_def Let_def)
qed

section \<open>Round trip\<close>

text \<open>The values \<open>json.dumps\<close> can be given: keys are distinct and floats have the text that
  Python prints for them.\<close>

primrec json_wf :: "(string \<Rightarrow> string) \<Rightarrow> json \<Rightarrow> bool" where
  "json_wf frepr JNull = True"
| "json_wf frepr (JBool b) = True"
| "json_wf frepr (JInt i) = True"
| "json_wf frepr (JFloat r) = (scan_number frepr r = Some (JFloat r, []) \<or>
     r \<in> {''NaN'', ''Infinity'', ''-Infinity''})"
| "json_wf frepr (JStr s) = True"
| "json_wf frepr (JList xs) = list_all id (map (json_wf frepr) xs)"
| "json_wf frepr (JObj kvs) = (distinct (dict_keys kvs) \<and>
     list_all snd (map (map_prod id (json_wf frepr)) kvs))"

text \<open>The first character of a rendered value decides the branch of \<open>scan_once\<close>.\<close>

lemma scan_number_value:
  assumes "scan_number frepr s = Some (v, r)"
  shows "scan_value frepr (Suc n) s = Some (v, r)"
proof -
  have dig: "\<exists>c cs. t = c # cs \<and> is_digit c" if "scan_nat t = Some z" for t z
    using that by (auto simp: scan_nat_def is_digit_def split: list.splits if_splits)
  obtain c cs where s: "s = c # cs" using assms by (cases s) (auto simp: scan_number_def scan_nat_def)
  have c: "is_digit c \<or> c = CHR ''-'' \<and> cs \<noteq> [] \<and> is_digit (hd cs)"
  proof (cases "c = CHR ''-''")
    case True
    with assms s have "scan_nat cs \<noteq> None" by (auto simp: scan_number_def split: option.splits)
    with dig True show ?thesis by fastforce
  next
    case False
    with assms s have "scan_nat s \<noteq> None" by (auto simp: scan_number_def split: option.splits)
    with dig s show ?thesis by fastforce
  qed
  have "\<not> prefix w s" if "w \<in> {''null'', ''true'', ''false'', ''NaN'', ''Infinity'', ''-Infinity''}" for w
    using that c by (cases cs) (auto simp: s is_digit_def)
  then have "scan_constant s = None" by (simp add: scan_constant_def)
  moreover from c have "c \<notin> {CHR 0x22, CHR ''['', CHR ''{''}" by (auto simp: is_digit_def)
  ultimately show ?thesis using assms by (simp add: s)
qed

lemma skip_ws_append [simp]: "list_all json_ws ws \<Longrightarrow> skip_ws (ws @ s) = skip_ws s"
  by (induction ws) (auto simp: skip_ws_def)

lemma skip_ws_id [simp]: "\<not> json_ws c \<Longrightarrow> skip_ws (c # s) = c # s"
  by (simp add: skip_ws_def)

lemma fold_dict_set:
  "distinct (dict_keys (d @ kvs)) \<Longrightarrow> fold (\<lambda>(k, v). dict_set k v) kvs d = d @ kvs"
proof (induction kvs arbitrary: d)
  case (Cons p kvs)
  obtain k v where p: "p = (k, v)" by force
  with Cons.prems have "k \<notin> set (dict_keys d)" by auto
  with Cons.IH [of "d @ [p]"] Cons.prems p show ?case by (simp add: dict_set_new)
qed simp

text \<open>Separators as \<open>json.dumps\<close> writes them.\<close>

definition seps_ok :: "string \<Rightarrow> string \<Rightarrow> bool" where
  "seps_ok isep ksep = (\<exists>w w'. isep = CHR '','' # w \<and> ksep = CHR '':'' # w' \<and>
     list_all json_ws w \<and> list_all json_ws w')"

text \<open>The text \<open>t\<close> is read as the value \<open>v\<close>.\<close>

definition reads :: "(string \<Rightarrow> string) \<Rightarrow> json \<Rightarrow> string \<Rightarrow> bool" where
  "reads frepr v t = (\<forall>n rest. delim rest \<longrightarrow> length t \<le> n \<longrightarrow> scan_value frepr n (t @ rest) = Some (v, rest))"

lemma readsD: "reads frepr v t \<Longrightarrow> delim rest \<Longrightarrow> length t \<le> n \<Longrightarrow> scan_value frepr n (t @ rest) = Some (v, rest)"
  by (simp add: reads_def)

definition starts_value :: "string \<Rightarrow> bool" where
  "starts_value s = (\<exists>c cs. s = c # cs \<and> \<not> json_ws c \<and> c \<notin> {CHR '']'', CHR ''}'', CHR '',''})"

lemma reads_starts:
  assumes "json_wf frepr v"
  shows "starts_value (json_render isep ksep v)"
proof -
  have number: "starts_value t" if num: "scan_number frepr t = Some z" for t z
  proof -
    obtain c cs where t: "t = c # cs" using num by (cases t) (auto simp: scan_number_def scan_nat_def)
    have "is_digit c \<or> c = CHR ''-''"
      using num by (auto simp: t scan_number_def scan_nat_def is_digit_def split: if_splits option.splits)
    then show ?thesis unfolding t starts_value_def json_ws_def is_digit_def by force
  qed
  show ?thesis
    using assms number
    by (cases v) (auto simp: starts_value_def json_ws_def json_quote_def scan_number_int)
qed

lemma delim_ws: "list_all json_ws w \<Longrightarrow> delim rest \<Longrightarrow> delim (w @ rest)"
  by (cases w) (auto simp: delim_def json_ws_def)

text \<open>The items of a list and the members of an object, each with the text \<open>r\<close> gives it; blanks may precede
  the closing bracket.\<close>

lemma scan_items_render:
  assumes seps: "seps_ok isep ksep" and tw: "list_all json_ws tw" and xs: "xs \<noteq> []"
    and r: "\<And>x. x \<in> set xs \<Longrightarrow> reads frepr x (r x) \<and> starts_value (r x)"
    and n: "length (join isep (map r xs)) < n"
  shows "scan_items frepr n (join isep (map r xs) @ tw @ CHR '']'' # rest) = Some (xs, rest)"
  using xs r n
proof (induction xs arbitrary: n)
  case (Cons x xs)
  obtain w w' where sep: "isep = CHR '','' # w" and w: "list_all json_ws w"
    using seps by (auto simp: seps_ok_def)
  obtain m where m: "n = Suc m" using Cons.prems(3) by (cases n) auto
  have x: "scan_value frepr m (r x @ t) = Some (x, t)" if "delim t" "length (r x) \<le> m" for t
    using Cons.prems(2) [of x] that by (simp add: reads_def)
  have closing: "delim (tw @ CHR '']'' # rest)" by (rule delim_ws [OF tw]) (simp add: delim_def)
  show ?case
  proof (cases xs)
    case Nil
    with x [OF closing] Cons.prems(3) m tw show ?thesis by (simp add: json_ws_def)
  next
    case (Cons y ys)
    let ?t = "join isep (map r xs) @ tw @ CHR '']'' # rest"
    have len: "length (r x) \<le> m" "length (join isep (map r xs)) < m"
      using Cons.prems(3) m Cons sep by simp_all
    have start: "skip_ws ?t = ?t"
      using Cons.prems(2) [of y] Cons by (cases ys) (auto simp: starts_value_def)
    have ih: "scan_items frepr m ?t = Some (xs, rest)"
      using Cons.IH [OF _ _ len(2)] Cons.prems(2) Cons by simp
    have "scan_value frepr m (r x @ isep @ ?t) = Some (x, isep @ ?t)"
      using len(1) by (intro x) (simp_all add: sep delim_def)
    with ih start m w Cons show ?thesis by (simp add: sep json_ws_def)
  qed
qed simp

abbreviation member_text :: "(json \<Rightarrow> string) \<Rightarrow> string \<Rightarrow> string \<times> json \<Rightarrow> string" where
  "member_text r ksep p \<equiv> json_quote (fst p) @ ksep @ r (snd p)"

lemma scan_members_render:
  assumes seps: "seps_ok isep ksep" and tw: "list_all json_ws tw" and kvs: "kvs \<noteq> []"
    and r: "\<And>p. p \<in> set kvs \<Longrightarrow> reads frepr (snd p) (r (snd p)) \<and> starts_value (r (snd p))"
    and n: "length (join isep (map (member_text r ksep) kvs)) < n"
  shows "scan_members frepr n (join isep (map (member_text r ksep) kvs) @ tw @ CHR ''}'' # rest) = Some (kvs, rest)"
  using kvs r n
proof (induction kvs arbitrary: n)
  case (Cons p kvs)
  let ?m = "member_text r ksep"
  obtain w w' where sep: "isep = CHR '','' # w" "ksep = CHR '':'' # w'"
    and w: "list_all json_ws w" "list_all json_ws w'"
    using seps by (auto simp: seps_ok_def)
  obtain k v where p: "p = (k, v)" by force
  obtain m where m: "n = Suc m" using Cons.prems(3) by (cases n) auto
  have first: "scan_members frepr n (?m p @ t) = (case skip_ws t of [] \<Rightarrow> None
      | e # es \<Rightarrow> if e = CHR ''}'' then Some ([(k, v)], es)
          else if e = CHR '','' then map_option (map_prod ((#) (k, v)) id) (scan_members frepr m (skip_ws es))
          else None)" if t: "delim t" "length (r v) \<le> m" for t
  proof -
    have val: "scan_value frepr m (r v @ t) = Some (v, t)"
      using Cons.prems(2) [of p] t by (simp add: reads_def p)
    have st: "skip_ws (r v @ t) = r v @ t"
      using Cons.prems(2) [of p] by (auto simp: starts_value_def p)
    have "scan_string (concat (map json_escape k) @ CHR 0x22 # CHR '':'' # w' @ r v @ t) =
        Some (k, CHR '':'' # w' @ r v @ t)"
      by (rule scan_string_quote)
    with val st w show ?thesis
      by (simp add: m p json_quote_def sep json_ws_def)
  qed
  have closing: "delim (tw @ CHR ''}'' # rest)" by (rule delim_ws [OF tw]) (simp add: delim_def)
  show ?case
  proof (cases kvs)
    case Nil
    with first [OF closing] Cons.prems(3) m p tw show ?thesis
      by (simp add: json_ws_def sep)
  next
    case (Cons q qs)
    let ?t = "join isep (map ?m kvs) @ tw @ CHR ''}'' # rest"
    have len: "length (r v) \<le> m" "length (join isep (map ?m kvs)) < m"
      using Cons.prems(3) m Cons sep p by simp_all
    have start: "skip_ws ?t = ?t"
      using Cons by (cases qs) (auto simp: json_quote_def json_ws_def)
    have ih: "scan_members frepr m ?t = Some (kvs, rest)"
      using Cons.IH [OF _ _ len(2)] Cons.prems(2) Cons by simp
    have "scan_members frepr n (?m p @ isep @ ?t) = Some ((k, v) # kvs, rest)"
      using first [of "isep @ ?t"] len(1) ih start w by (simp add: sep delim_def json_ws_def)
    with Cons p show ?thesis by simp
  qed
qed simp

lemma reads_number:
  assumes "scan_number frepr t = Some (v, [])"
  shows "reads frepr v t"
proof -
  have "scan_value frepr n (t @ rest) = Some (v, rest)" if "delim rest" "length t \<le> n" for n rest
  proof -
    have "t \<noteq> []" using assms by (auto simp: scan_number_def scan_nat_def)
    with that obtain m where "n = Suc m" by (cases n) auto
    with scan_number_value [OF scan_number_append [OF that(1) assms]] show ?thesis by simp
  qed
  then show ?thesis by (simp add: reads_def)
qed

lemma reads_constant:
  assumes "\<And>rest. scan_constant (t @ rest) = Some (v, rest)"
    and "t = c # cs" and "c \<notin> {CHR 0x22, CHR ''['', CHR ''{''}"
  shows "reads frepr v t"
proof -
  have "scan_value frepr n (t @ rest) = Some (v, rest)" if "length t \<le> n" for n rest
  proof -
    from that obtain m where "n = Suc m" using assms(2) by (cases n) auto
    with assms(1) [of rest] assms(2,3) show ?thesis by simp
  qed
  then show ?thesis by (simp add: reads_def)
qed

lemma reads_string: "reads frepr (JStr s) (json_quote s)"
proof -
  have "scan_value frepr n (json_quote s @ rest) = Some (JStr s, rest)" if "length (json_quote s) \<le> n"
    for n rest
  proof -
    from that obtain m where "n = Suc m" by (cases n) (auto simp: json_quote_def)
    then show ?thesis by (simp add: json_quote_def scan_string_quote)
  qed
  then show ?thesis by (simp add: reads_def)
qed

text \<open>The values without parts have the same text in every layout.\<close>

fun scalar :: "json \<Rightarrow> bool" where
  "scalar (JList xs) = False"
| "scalar (JObj kvs) = False"
| "scalar v = True"

lemma reads_scalar:
  assumes "json_wf frepr v" and "scalar v"
  shows "reads frepr v (json_render isep ksep v)"
proof (cases v)
  case JNull
  show ?thesis
    unfolding JNull by (rule reads_constant [where c = "CHR ''n''" and cs = "''ull''"]) (simp_all add: scan_constant_def)
next
  case (JBool b)
  show ?thesis
    unfolding JBool
    by (rule reads_constant [where c = "if b then CHR ''t'' else CHR ''f''" and cs = "if b then ''rue'' else ''alse''"])
      (simp_all add: scan_constant_def)
next
  case (JInt i)
  show ?thesis unfolding JInt by (simp add: reads_number [OF scan_number_int])
next
  case (JFloat r)
  with assms consider "scan_number frepr r = Some (JFloat r, [])" | "r = ''NaN''" | "r = ''Infinity''"
    | "r = ''-Infinity''" by auto
  then have "reads frepr (JFloat r) r"
  proof cases
    case 1
    then show ?thesis by (rule reads_number)
  next
    case 2
    then show ?thesis
      by (intro reads_constant [where c = "CHR ''N''" and cs = "''aN''"]) (simp_all add: scan_constant_def)
  next
    case 3
    then show ?thesis
      by (intro reads_constant [where c = "CHR ''I''" and cs = "''nfinity''"]) (simp_all add: scan_constant_def)
  next
    case 4
    then show ?thesis
      by (intro reads_constant [where c = "CHR ''-''" and cs = "''Infinity''"]) (simp_all add: scan_constant_def)
  qed
  then show ?thesis by (simp add: JFloat)
next
  case (JStr s)
  then show ?thesis by (simp add: reads_string)
qed (use assms in auto)

lemma join_starts:
  "xs \<noteq> [] \<Longrightarrow> starts_value (hd xs) \<Longrightarrow>
   \<exists>c cs. join sep xs @ t = c # cs \<and> \<not> json_ws c \<and> c \<notin> {CHR '']'', CHR ''}'', CHR '',''}"
  by (cases xs; cases "tl xs") (auto simp: starts_value_def)

lemma reads_list:
  assumes seps: "seps_ok isep ksep" and lw: "list_all json_ws lw" and tw: "list_all json_ws tw"
    and r: "\<And>x. x \<in> set xs \<Longrightarrow> reads frepr x (r x) \<and> starts_value (r x)"
  shows "reads frepr (JList xs) (CHR ''['' # lw @ join isep (map r xs) @ tw @ '']'')"
proof -
  let ?j = "join isep (map r xs)"
  have "scan_value frepr n ((CHR ''['' # lw @ ?j @ tw @ '']'') @ rest) = Some (JList xs, rest)"
    if "length ?j + 2 \<le> n" for n rest
  proof -
    from that obtain m where m: "n = Suc m" "length ?j < m" by (cases n) auto
    show ?thesis
    proof (cases "xs = []")
      case True
      with m lw tw show ?thesis by (simp add: json_ws_def)
    next
      case False
      then obtain c cs where c: "?j @ tw @ CHR '']'' # rest = c # cs" "\<not> json_ws c" "c \<noteq> CHR '']''"
        using join_starts [of "map r xs" isep "tw @ CHR '']'' # rest"] r [of "hd xs"]
        by (auto simp: hd_map)
      with scan_items_render [OF seps tw False r m(2), of rest] m(1) lw show ?thesis by simp
    qed
  qed
  then show ?thesis by (auto simp: reads_def)
qed

lemma reads_obj:
  assumes seps: "seps_ok isep ksep" and lw: "list_all json_ws lw" and tw: "list_all json_ws tw" and d: "distinct (dict_keys kvs)"
    and r: "\<And>p. p \<in> set kvs \<Longrightarrow> reads frepr (snd p) (r (snd p)) \<and> starts_value (r (snd p))"
  shows "reads frepr (JObj kvs) (CHR ''{'' # lw @ join isep (map (member_text r ksep) kvs) @ tw @ ''}'')"
proof -
  let ?j = "join isep (map (member_text r ksep) kvs)"
  have "scan_value frepr n ((CHR ''{'' # lw @ ?j @ tw @ ''}'') @ rest) = Some (JObj kvs, rest)"
    if "length ?j + 2 \<le> n" for n rest
  proof -
    from that obtain m where m: "n = Suc m" "length ?j < m" by (cases n) auto
    show ?thesis
    proof (cases "kvs = []")
      case True
      with m lw tw show ?thesis by (simp add: json_ws_def)
    next
      case False
      have "starts_value (member_text r ksep (hd kvs))"
        by (simp add: starts_value_def json_quote_def json_ws_def)
      with False obtain c cs where c: "?j @ tw @ CHR ''}'' # rest = c # cs" "\<not> json_ws c" "c \<noteq> CHR ''}''"
        using join_starts [of "map (member_text r ksep) kvs" isep "tw @ CHR ''}'' # rest"]
        by (auto simp: hd_map)
      with scan_members_render [OF seps tw False r m(2), of rest] m(1) fold_dict_set [of "[]" kvs] d lw
      show ?thesis by simp
    qed
  qed
  then show ?thesis by (auto simp: reads_def)
qed

lemma json_wf_member: "json_wf frepr (JObj kvs) \<Longrightarrow> p \<in> set kvs \<Longrightarrow> json_wf frepr (snd p)"
  by (auto simp: list_all_iff)

lemma snd_snds: "snd p \<in> Basic_BNFs.snds p"
  by (rule Basic_BNFs.snds.intros)

lemma reads_wf:
  assumes seps: "seps_ok isep ksep"
  shows "json_wf frepr v \<Longrightarrow> reads frepr v (json_render isep ksep v)"
proof (induction v)
  case (JList xs)
  have "reads frepr x (json_render isep ksep x) \<and> starts_value (json_render isep ksep x)" if "x \<in> set xs" for x
    using JList that by (auto simp: list_all_iff intro: reads_starts)
  from reads_list [where lw = "[]" and tw = "[]", OF seps _ _ this] show ?case by simp
next
  case (JObj kvs)
  have "reads frepr (snd p) (json_render isep ksep (snd p)) \<and> starts_value (json_render isep ksep (snd p))" if "p \<in> set kvs" for p
    using JObj.IH [OF that snd_snds] json_wf_member [OF JObj.prems that] by (auto intro: reads_starts)
  from reads_obj [where lw = "[]" and tw = "[]", OF seps _ _ _ this] JObj.prems show ?case by (simp add: comp_def)
qed (auto intro!: reads_scalar simp del: json_render.simps)

lemma json_wf_sort: "json_wf frepr v \<Longrightarrow> json_wf frepr (json_sort v)"
proof (induction v)
  case (JObj kvs)
  have "json_wf frepr (json_sort (snd p))" if "p \<in> set kvs" for p
  proof -
    have "json_wf frepr (snd p)" using JObj.prems that by (auto simp: list_all_iff)
    moreover have "snd p \<in> Basic_BNFs.snds p" by (rule Basic_BNFs.snds.intros)
    ultimately show ?thesis using JObj.IH that by blast
  qed
  moreover have "distinct (dict_keys (sort_key fst (map (map_prod id json_sort) kvs)))"
    using JObj.prems by (metis distinct_map distinct_sort json_wf.simps(7) keys_map_prod set_sort)
  ultimately show ?case by (auto simp: list_all_iff)
qed (auto simp: list_all_iff)

section \<open>The rendered text is printable ASCII\<close>

definition printable :: "char \<Rightarrow> bool" where
  "printable c = (32 \<le> (of_char c :: nat) \<and> (of_char c :: nat) \<le> 126)"

lemma scan_nat_split: "scan_nat s = Some (ds, r) \<Longrightarrow> s = ds @ r \<and> (\<forall>c \<in> set ds. is_digit c)"
proof -
  assume "scan_nat s = Some (ds, r)"
  moreover have "is_digit (CHR ''0'')" by (simp add: is_digit_def)
  ultimately show ?thesis
    by (auto simp: scan_nat_def split: list.splits if_splits dest: set_takeWhileD)
qed

lemma scan_frac_split:
  "scan_frac s = (fr, r) \<Longrightarrow> s = fr @ r \<and> (\<forall>c \<in> set fr. is_digit c \<or> c = CHR ''.'')"
  by (auto simp: scan_frac_def split: list.splits if_splits dest: set_takeWhileD)

lemma scan_exp_split:
  "scan_exp s = (ex, r) \<Longrightarrow>
   s = ex @ r \<and> (\<forall>c \<in> set ex. is_digit c \<or> c \<in> {CHR ''e'', CHR ''E'', CHR ''+'', CHR ''-''})"
  by (auto simp: scan_exp_def Let_def split: list.splits if_splits prod.splits dest: set_takeWhileD)

lemma digit_printable: "is_digit c \<Longrightarrow> printable c"
  by (simp add: is_digit_def printable_def Let_def)

lemma scan_number_printable:
  assumes "scan_number frepr s = Some (v, [])" and "c \<in> set s"
  shows "printable c"
proof (cases s)
  case (Cons d cs)
  let ?s1 = "if d = CHR ''-'' then cs else s"
  obtain ds s2 where n: "scan_nat ?s1 = Some (ds, s2)"
    using assms Cons by (auto simp: scan_number_def split: option.splits if_splits)
  obtain fr s3 where f: "scan_frac s2 = (fr, s3)" by force
  obtain ex s4 where e: "scan_exp s3 = (ex, s4)" by force
  have "s4 = []" using assms(1) n f e Cons by (auto simp: scan_number_def Let_def split: if_splits)
  then have "?s1 = ds @ fr @ ex"
    using scan_nat_split [OF n] scan_frac_split [OF f] scan_exp_split [OF e] by simp
  then have parts: "set ?s1 = set ds \<union> set fr \<union> set ex" by (simp only: set_append Un_assoc)
  have sym: "printable x" if "x \<in> {CHR ''.'', CHR ''e'', CHR ''E'', CHR ''+'', CHR ''-''}" for x
    using that by (auto simp: printable_def)
  have "printable x" if "x \<in> set ds" for x using that scan_nat_split [OF n] digit_printable by blast
  moreover have "printable x" if "x \<in> set fr" for x
    using that scan_frac_split [OF f] digit_printable sym by blast
  moreover have "printable x" if "x \<in> set ex" for x
    using that scan_exp_split [OF e] digit_printable sym by blast
  ultimately have all: "\<forall>x \<in> set ?s1 \<union> {CHR ''-''}. printable x"
    using sym unfolding parts by blast
  have "c \<in> set ?s1 \<union> {CHR ''-''}" using assms(2) Cons by auto
  with all show ?thesis by blast
qed (use assms(2) in simp)

lemma escape_printable: "c \<in> set (json_escape d) \<Longrightarrow> printable c"
proof -
  assume c: "c \<in> set (json_escape d)"
  have "printable (hex_digit n)" if "n < 16" for n
    using that by (simp add: hex_digit_def printable_def)
  then have "printable (hex_digit (of_char d div 16))" "printable (hex_digit (of_char d mod 16))"
    by (simp_all add: less_mult_imp_div_less)
  with c show ?thesis
    by (auto simp: json_escape_def Let_def printable_def split: if_splits)
qed

lemma quote_printable: "c \<in> set (json_quote s) \<Longrightarrow> printable c"
  using escape_printable by (auto simp: json_quote_def) (auto simp: printable_def)

lemma set_join: "c \<in> set (join sep xs) \<Longrightarrow> c \<in> set sep \<or> (\<exists>x \<in> set xs. c \<in> set x)"
  by (induction sep xs rule: join.induct) auto

lemma render_printable:
  assumes seps: "\<forall>c \<in> set (isep @ ksep). printable c"
  shows "json_wf frepr v \<Longrightarrow> c \<in> set (json_render isep ksep v) \<Longrightarrow> printable c"
proof (induction v arbitrary: c)
  case (JInt i)
  then show ?case using scan_number_printable [OF scan_number_int] by simp
next
  case (JFloat r)
  then show ?case using scan_number_printable [of frepr r] by (auto simp: printable_def)
next
  case (JStr s)
  then show ?case using quote_printable by simp
next
  case (JList xs)
  have b: "printable (CHR ''['')" "printable (CHR '']'')" by (simp_all add: printable_def)
  from JList seps b show ?case by (auto simp: list_all_iff dest!: set_join)
next
  case (JObj kvs)
  have b: "printable (CHR ''{'')" "printable (CHR ''}'')" by (simp_all add: printable_def)
  have "json_wf frepr (snd p)" if "p \<in> set kvs" for p
    using JObj.prems(1) that by (auto simp: list_all_iff)
  moreover have "snd p \<in> Basic_BNFs.snds p" for p :: "string \<times> json" by (rule Basic_BNFs.snds.intros)
  ultimately have "printable x" if "p \<in> set kvs" "x \<in> set (json_render isep ksep (snd p))" for p x
    using JObj.IH that by blast
  with JObj.prems(2) seps b show ?case
    by (auto dest!: set_join) (use quote_printable in blast)+
qed (auto simp: printable_def split: if_splits)

section \<open>What the parser returns\<close>

text \<open>Documented behaviour of Python's floats: the text printed for a float that was read is
  itself a number that is read back and printed the same.\<close>

definition frepr_ok :: "(string \<Rightarrow> string) \<Rightarrow> bool" where
  "frepr_ok frepr = (\<forall>s t r. scan_number id s = Some (JFloat t, r) \<longrightarrow> json_wf frepr (JFloat (frepr t)))"

lemma scan_number_wf:
  assumes "frepr_ok frepr" and "scan_number frepr s = Some (v, r)"
  shows "json_wf frepr v"
proof (cases v)
  case (JFloat u)
  with assms(2) obtain t where "scan_number id s = Some (JFloat t, r)" "u = frepr t"
    by (auto simp: scan_number_def Let_def split: option.splits prod.splits if_splits)
  with assms(1) JFloat show ?thesis by (auto simp: frepr_ok_def)
qed (use assms(2) in \<open>auto simp: scan_number_def Let_def split: option.splits prod.splits if_splits\<close>)

lemma scan_constant_wf: "scan_constant s = Some (v, r) \<Longrightarrow> json_wf frepr v"
  by (auto simp: scan_constant_def split: if_splits)

lemma dict_of_members_wf:
  assumes "list_all (json_wf frepr) (map snd kvs)" and "json_wf frepr (JObj d)"
  shows "json_wf frepr (JObj (fold (\<lambda>(k, v). dict_set k v) kvs d))"
  using assms
proof (induction kvs arbitrary: d)
  case (Cons p kvs)
  obtain k v where p: "p = (k, v)" by force
  have "json_wf frepr (JObj (dict_set k v d))"
    using Cons.prems by (auto simp: p list_all_iff set_dict_set)
  with Cons p show ?case by simp
qed simp

lemma scan_wf:
  assumes "frepr_ok frepr"
  shows "scan_value frepr n s = Some (v, r) \<Longrightarrow> json_wf frepr v"
    and "scan_items frepr n s = Some (xs, r') \<Longrightarrow> list_all (json_wf frepr) xs"
    and "scan_members frepr n s = Some (kvs, r'') \<Longrightarrow> list_all (json_wf frepr) (map snd kvs)"
proof (induction n arbitrary: s v r xs r' kvs r'')
  case (Suc n)
  {
    case 1
    have empty: "json_wf frepr (JObj [])" by simp
    show ?case
      using 1 Suc.IH dict_of_members_wf [OF _ empty] empty scan_constant_wf scan_number_wf [OF assms]
      by (auto simp: list.pred_map comp_def simp del: json_wf.simps(7) split: list.splits if_splits option.splits)
  next
    case 2
    then show ?case
      using Suc.IH by (auto split: list.splits if_splits option.splits)
  next
    case 3
    then show ?case
      using Suc.IH by (auto split: list.splits if_splits option.splits)
  }
qed simp_all

lemma json_loads_wf: "frepr_ok frepr \<Longrightarrow> json_loads frepr s = Some v \<Longrightarrow> json_wf frepr v"
  by (auto simp: json_loads_def Let_def simp del: scan_value.simps split: option.splits if_splits
      dest: scan_wf(1))

text \<open>The canonical text determines the document.\<close>

lemma json_loads_render:
  assumes wf: "json_wf frepr v" and seps: "seps_ok isep ksep"
  shows "json_loads frepr (json_render isep ksep v) = Some v"
proof -
  let ?t = "json_render isep ksep v"
  have "scan_value frepr (Suc (2 * length ?t)) (?t @ []) = Some (v, [])"
    by (rule readsD [OF reads_wf [OF seps wf]]) (simp_all add: delim_def)
  moreover have "skip_ws ?t = ?t"
    using reads_starts [OF wf, of isep ksep] by (auto simp: starts_value_def)
  ultimately show ?thesis by (simp add: json_loads_def skip_ws_def [of "[]"])
qed

lemma standard_seps: "seps_ok '', '' '': ''" "seps_ok '','' '':''"
  by (simp_all add: seps_ok_def json_ws_def)

lemma json_loads_dumps:
  assumes "json_wf frepr v"
  shows "json_loads frepr (json_dumps v) = Some (json_sort v)"
    and "json_loads frepr (json_dumps_compact v) = Some (json_sort v)"
  using json_loads_render [OF json_wf_sort [OF assms]] standard_seps
  unfolding json_dumps_def json_dumps_compact_def by blast+

lemma json_dumps_compact_inj:
  "json_wf frepr v \<Longrightarrow> json_wf frepr v' \<Longrightarrow> json_dumps_compact v = json_dumps_compact v' \<Longrightarrow>
   json_sort v = json_sort v'"
  using json_loads_dumps(2) [of frepr v] json_loads_dumps(2) [of frepr v'] by simp

section \<open>Properties\<close>

text \<open>\<open>json.loads\<close> reads back what \<open>json.dumps(..., sort_keys=True)\<close> wrote, with the default
  and with the compact separators: the value with the keys of every object in sorted order, for
  every value with distinct keys whose floats have the text Python prints.\<close>

theorem json_roundtrip:
  assumes "json_wf frepr v"
  shows "json_loads frepr (json_dumps v) = Some (json_sort v) \<and>
    json_loads frepr (json_dumps_compact v) = Some (json_sort v)"
  using json_loads_dumps [OF assms] by blast

theorem json_roundtrip_witness:
  "json_loads id (json_dumps (JObj [(''b'', JList [JInt (- 3), JFloat ''1.5'']), (''a'', JStr ''x'')])) =
   Some (JObj [(''a'', JStr ''x''), (''b'', JList [JInt (- 3), JFloat ''1.5''])])"
proof -
  have "json_wf id (JObj [(''b'', JList [JInt (- 3), JFloat ''1.5'']), (''a'', JStr ''x'')])"
    by code_simp
  from json_roundtrip [OF this] show ?thesis
    by (simp add: less_char_def less_eq_char_def)
qed

end
