(* ===== verification/Advisor.thy ===== *)
theory Advisor
  imports Repair Policy Json_Loads
begin

text \<open>
  The repair advisors (\<open>gateway/repair/advisor.py\<close>): the protocol \<open>RepairAdvisor\<close>, the parser of
  a model's answer and the two clients.  The HTTP request is a parameter, as for the policy
  client.  Every failure of the request or of the answer's shape is one of the exceptions that
  the clients turn into \<open>ValueError\<close>.
\<close>

type_synonym 'w repair_advisor =
  "string \<Rightarrow> jdict \<Rightarrow> jdict \<Rightarrow> failure_diagnosis \<Rightarrow> ('w, jdict) aio"

section \<open>Parsing the answer\<close>

text \<open>\<open>str.splitlines()\<close>: line boundaries below code point 256; \<open>CR LF\<close> is one boundary.\<close>

definition is_linebreak :: "char \<Rightarrow> bool" where
  "is_linebreak c = (let n = (of_char c :: nat) in (10 \<le> n \<and> n \<le> 13) \<or> (28 \<le> n \<and> n \<le> 30) \<or> n = 133)"

fun splitlines_from :: "string \<Rightarrow> string \<Rightarrow> string list" where
  "splitlines_from acc [] = (if acc = [] then [] else [rev acc])"
| "splitlines_from acc [c] = (if is_linebreak c then [rev acc] else [rev (c # acc)])"
| "splitlines_from acc (c # d # cs) =
     (if c = CHR 0x0D \<and> d = CHR 0x0A then rev acc # splitlines_from [] cs
      else if is_linebreak c then rev acc # splitlines_from [] (d # cs)
      else splitlines_from (c # acc) (d # cs))"

definition splitlines :: "string \<Rightarrow> string list" where
  "splitlines s = splitlines_from [] s"

definition fence_mark :: string where
  "fence_mark = replicate 3 (CHR 0x60)"

text \<open>\<open>_parse_arguments\<close>; \<open>None\<close> is a \<open>ValueError\<close> (\<open>JSONDecodeError\<close> among them).\<close>

definition normalize_answer :: "string \<Rightarrow> string" where
  "normalize_answer content = (let normalized = str_strip content in
     if prefix fence_mark normalized \<and> suffix fence_mark normalized
     then str_strip (join [CHR 0x0A] (butlast (tl (splitlines normalized)))) else normalized)"

definition parse_arguments :: "(string \<Rightarrow> string) \<Rightarrow> json \<Rightarrow> jdict option" where
  "parse_arguments frepr content = (case content of
       JStr s \<Rightarrow> (case json_loads frepr (normalize_answer s) of
           Some (JObj decoded) \<Rightarrow> (case dict_get decoded ''arguments'' of
               Some (JObj repaired) \<Rightarrow> Some repaired
             | _ \<Rightarrow> None)
         | _ \<Rightarrow> None)
     | _ \<Rightarrow> None)"

text \<open>\<open>v[key]\<close> and \<open>v[0]\<close>; \<open>None\<close> is a \<open>KeyError\<close>, \<open>IndexError\<close> or \<open>TypeError\<close>.  The first
  character of a string is a string.\<close>

fun subscript :: "json \<Rightarrow> string \<Rightarrow> json option" where
  "subscript (JObj kvs) k = dict_get kvs k"
| "subscript _ k = None"

fun first_item :: "json \<Rightarrow> json option" where
  "first_item (JList (x # xs)) = Some x"
| "first_item (JStr (c # cs)) = Some (JStr [c])"
| "first_item _ = None"

definition openai_content :: "json \<Rightarrow> json option" where
  "openai_content payload = Option.bind (subscript payload ''choices'') (\<lambda>c.
     Option.bind (first_item c) (\<lambda>i. Option.bind (subscript i ''message'') (\<lambda>m. subscript m ''content'')))"

definition anthropic_content :: "json \<Rightarrow> json option" where
  "anthropic_content payload = Option.bind (subscript payload ''content'') (\<lambda>c.
     Option.bind (first_item c) (\<lambda>i. subscript i ''text''))"

section \<open>The clients\<close>

record advisor_config =
  ad_endpoint :: string
  ad_model :: string
  ad_api_key :: string
  ad_anthropic_version :: string
  ad_max_tokens :: int

type_synonym 'w http_post = "string \<Rightarrow> json \<Rightarrow> (string, string) dict \<Rightarrow> 'w \<Rightarrow> http_result \<times> 'w"

definition tool_contract :: jdict where
  "tool_contract = [(''tool_contract'', JStr (''Query only the orders table. Its columns are order_id, '' @
     ''customer_name, customer_email, status, and total_cents. '' @
     ''max_rows limits returned rows and must not be used as a SQL parameter.''))]"

definition repair_prompt :: "string \<Rightarrow> string \<Rightarrow> jdict \<Rightarrow> jdict \<Rightarrow> failure_diagnosis \<Rightarrow> jdict" where
  "repair_prompt instruction tool_name arguments tool_schema d =
    [(''tool_name'', JStr tool_name), (''tool_schema'', JObj tool_schema), (''arguments'', JObj arguments),
     (''failure_category'', JStr (failure_value (fd_category d))),
     (''validation_error'', JStr (fd_message d)), (''instruction'', JStr instruction)] @
    (if tool_name = ''db_query'' then tool_contract else [])"

text \<open>From the response to the proposal: the envelope, then the guard on policy denials.\<close>

definition accept_answer :: "(string \<Rightarrow> string) \<Rightarrow> (json \<Rightarrow> json option) \<Rightarrow> string \<Rightarrow> failure_diagnosis \<Rightarrow>
    http_result \<Rightarrow> exn + jdict" where
  "accept_answer frepr content_of invalid d h =
     (case (case h of
              HttpResponse status (Some payload) \<Rightarrow>
                (if is_success status then Option.bind (content_of payload) (parse_arguments frepr) else None)
            | _ \<Rightarrow> None) of
        None \<Rightarrow> Inl (PyExn ''ValueError'' invalid)
      | Some repaired \<Rightarrow>
          (if fd_category d = POLICY_DENIED then Inl (PyExn ''ValueError'' ''Policy denials cannot be repaired'')
           else Inr repaired))"

definition openai_body :: "advisor_config \<Rightarrow> jdict \<Rightarrow> json" where
  "openai_body c prompt = JObj
    [(''model'', JStr (ad_model c)), (''temperature'', JInt 0),
     (''response_format'', JObj [(''type'', JStr ''json_object'')]),
     (''messages'', JList
       [JObj [(''role'', JStr ''system''),
              (''content'', JStr ''Repair tool arguments without changing the requested operation.'')],
        JObj [(''role'', JStr ''user''), (''content'', JStr (json_dumps (JObj prompt)))]])]"

definition LLMRepairAdvisor :: "(string \<Rightarrow> string) \<Rightarrow> 'w http_post \<Rightarrow> advisor_config \<Rightarrow> 'w repair_advisor" where
  "LLMRepairAdvisor frepr post c tool_name arguments tool_schema d w =
     (let prompt = repair_prompt
            ''Return only a JSON object named arguments with corrected tool arguments.''
            tool_name arguments tool_schema d
      in case post (ad_endpoint c) (openai_body c prompt)
             [(''Authorization'', ''Bearer '' @ ad_api_key c)] w of
           (h, w') \<Rightarrow> (accept_answer frepr openai_content
             ''The repair model returned an invalid response'' d h, w'))"

definition anthropic_body :: "advisor_config \<Rightarrow> jdict \<Rightarrow> json" where
  "anthropic_body c prompt = JObj
    [(''model'', JStr (ad_model c)), (''max_tokens'', JInt (ad_max_tokens c)), (''temperature'', JInt 0),
     (''system'', JStr (''Repair tool arguments without changing the requested operation. '' @
       ''Return valid JSON only.'')),
     (''messages'', JList
       [JObj [(''role'', JStr ''user''), (''content'', JStr (json_dumps (JObj prompt)))]])]"

definition AnthropicRepairAdvisor :: "(string \<Rightarrow> string) \<Rightarrow> 'w http_post \<Rightarrow> advisor_config \<Rightarrow>
    'w repair_advisor" where
  "AnthropicRepairAdvisor frepr post c tool_name arguments tool_schema d w =
     (let prompt = repair_prompt
            (''Return only a JSON object named arguments with corrected tool arguments. '' @
             ''Do not change the requested operation.'') tool_name arguments tool_schema d
      in case post (ad_endpoint c) (anthropic_body c prompt)
             [(''x-api-key'', ad_api_key c), (''anthropic-version'', ad_anthropic_version c),
              (''content-type'', ''application/json'')] w of
           (h, w') \<Rightarrow> (accept_answer frepr anthropic_content
             ''The Anthropic repair model returned an invalid response'' d h, w'))"

section \<open>Laws of an advisor\<close>

locale repair_advisor_laws =
  fixes A :: "'w repair_advisor"
  assumes advice_law: "A tool arguments schema d w = (r, w') \<Longrightarrow> (case r of
       Inr proposal \<Rightarrow> fd_category d \<noteq> POLICY_DENIED
     | Inl e \<Rightarrow> \<exists>m. e = PyExn ''ValueError'' m)"
begin

text \<open>An advisor's own failure is diagnosed as a tool error and is no refusal.\<close>

lemma failure_is_tool_error:
  "A tool arguments schema d w = (Inl e, w') \<Longrightarrow> diagnose_category e = TOOL_ERROR"
  using advice_law by fastforce

end

lemma accept_answer_law:
  "case accept_answer frepr content_of invalid d h of
     Inr proposal \<Rightarrow> fd_category d \<noteq> POLICY_DENIED | Inl e \<Rightarrow> \<exists>m. e = PyExn ''ValueError'' m"
  by (auto simp: accept_answer_def split: option.split)

interpretation llm: repair_advisor_laws "LLMRepairAdvisor frepr post c"
  by unfold_locales (use accept_answer_law in \<open>auto simp: LLMRepairAdvisor_def Let_def split: prod.splits\<close>)

interpretation anthropic: repair_advisor_laws "AnthropicRepairAdvisor frepr post c"
  by unfold_locales (use accept_answer_law in \<open>auto simp: AnthropicRepairAdvisor_def Let_def split: prod.splits\<close>)

section \<open>Lemmas on answers\<close>

lemma splitlines_line:
  "\<forall>c \<in> set line. \<not> is_linebreak c \<Longrightarrow>
   splitlines_from acc (line @ CHR 0x0A # rest) = (rev acc @ line) # splitlines_from [] rest"
proof (induction line arbitrary: acc)
  case Nil
  have "is_linebreak (CHR 0x0A)" by (simp add: is_linebreak_def)
  then show ?case by (cases rest) auto
next
  case (Cons c line)
  have "is_linebreak (CHR 0x0D)" by (simp add: is_linebreak_def)
  with Cons.prems have c: "c \<noteq> CHR 0x0D" "\<not> is_linebreak c" by auto
  obtain d ds where d: "line @ CHR 0x0A # rest = d # ds" by (cases line) auto
  have "splitlines_from acc ((c # line) @ CHR 0x0A # rest) = splitlines_from (c # acc) (line @ CHR 0x0A # rest)"
    using c by (simp add: d)
  with Cons show ?case by simp
qed

lemma splitlines_last:
  "line \<noteq> [] \<Longrightarrow> \<forall>c \<in> set line. \<not> is_linebreak c \<Longrightarrow> splitlines_from acc line = [rev acc @ line]"
proof (induction acc line rule: splitlines_from.induct)
  case (3 acc c d cs)
  have "is_linebreak (CHR 0x0D)" by (simp add: is_linebreak_def)
  with 3 show ?case by auto
qed auto

lemma printable_no_linebreak: "printable c \<Longrightarrow> \<not> is_linebreak c"
  by (auto simp: printable_def is_linebreak_def Let_def)

lemma str_strip_id:
  assumes "s \<noteq> []" and "\<not> is_space (hd s)" and "\<not> is_space (last s)"
  shows "str_strip s = s"
proof -
  have "dropWhile is_space s = s" using assms(1,2) by (cases s) auto
  moreover have "dropWhile is_space (rev s) = rev s" using assms(1,3) by (cases s rule: rev_cases) auto
  ultimately show ?thesis by (simp add: str_strip_def)
qed

text \<open>A JSON object inside a Markdown code fence.\<close>

definition fenced :: "string \<Rightarrow> string" where
  "fenced t = fence_mark @ ''json'' @ [CHR 0x0A] @ t @ [CHR 0x0A] @ fence_mark"

lemma normalize_plain:
  assumes "t \<noteq> []" and "hd t = CHR ''{''" and "last t = CHR ''}''"
  shows "normalize_answer t = t"
proof -
  have "str_strip t = t" using assms by (intro str_strip_id) (simp_all add: is_space_def)
  moreover have "\<not> prefix fence_mark t"
    using assms(1,2) by (cases t) (auto simp: fence_mark_def numeral_3_eq_3)
  ultimately show ?thesis by (simp add: normalize_answer_def)
qed

lemma normalize_fenced:
  assumes "t \<noteq> []" and "hd t = CHR ''{''" and "last t = CHR ''}''" and p: "\<forall>c \<in> set t. printable c"
  shows "normalize_answer (fenced t) = t"
proof -
  have mark: "fence_mark = [CHR 0x60, CHR 0x60, CHR 0x60]" by (simp add: fence_mark_def numeral_3_eq_3)
  have strip: "str_strip (fenced t) = fenced t" "str_strip t = t"
    using assms by (auto intro!: str_strip_id simp: fenced_def mark is_space_def)
  have "\<forall>c \<in> set (fence_mark @ ''json''). \<not> is_linebreak c" "\<forall>c \<in> set fence_mark. \<not> is_linebreak c"
    by (auto simp: mark is_linebreak_def)
  moreover have "\<forall>c \<in> set t. \<not> is_linebreak c" using p printable_no_linebreak by blast
  ultimately have "splitlines (fenced t) = [fence_mark @ ''json'', t, fence_mark]"
    using splitlines_line [of "fence_mark @ ''json''" "[]" "t @ [CHR 0x0A] @ fence_mark"]
      splitlines_line [of t "[]" fence_mark] splitlines_last [of fence_mark "[]"]
    by (simp add: splitlines_def fenced_def mark)
  moreover have "prefix fence_mark (fenced t)" "suffix fence_mark (fenced t)"
    by (auto simp: fenced_def suffix_def intro: exI [of _ "fence_mark @ ''json'' @ [CHR 0x0A] @ t @ [CHR 0x0A]"])
  ultimately show ?thesis using strip by (simp add: normalize_answer_def)
qed

lemma answer_shape:
  assumes "json_wf frepr (JObj a)"
  shows "let t = json_dumps (JObj [(''arguments'', JObj a)]) in
    t \<noteq> [] \<and> hd t = CHR ''{'' \<and> last t = CHR ''}'' \<and> (\<forall>c \<in> set t. printable c)"
proof -
  have wf: "json_wf frepr (json_sort (JObj [(''arguments'', JObj a)]))"
    using assms by (intro json_wf_sort) simp
  have "\<forall>c \<in> set ('', '' @ '': ''). printable c" by (simp add: printable_def)
  from render_printable [OF this wf] show ?thesis
    by (simp add: json_dumps_def Let_def del: json_render.simps(7)) simp
qed

section \<open>Properties\<close>

text \<open>Well-formed advice arrives.  Whatever JSON arguments a model proposes, written by
  \<open>json.dumps\<close> as the object with the key \<open>arguments\<close>, bare or inside a Markdown code fence, both
  clients return exactly these arguments (keys sorted) for a repairable failure and refuse them
  with \<open>ValueError\<close> for a policy denial.\<close>

theorem advice_roundtrip:
  assumes wf: "json_wf frepr (JObj a)" and sorted: "json_sort (JObj a) = JObj a'"
    and t: "t = json_dumps (JObj [(''arguments'', JObj a)])" and content: "content \<in> {t, fenced t}"
  shows "accept_answer frepr openai_content m d (HttpResponse 200 (Some (JObj [(''choices'',
        JList [JObj [(''message'', JObj [(''content'', JStr content)])]])]))) =
      (if fd_category d = POLICY_DENIED then Inl (PyExn ''ValueError'' ''Policy denials cannot be repaired'')
       else Inr a') \<and>
    accept_answer frepr anthropic_content m d (HttpResponse 200 (Some (JObj [(''content'',
        JList [JObj [(''text'', JStr content)]])]))) =
      (if fd_category d = POLICY_DENIED then Inl (PyExn ''ValueError'' ''Policy denials cannot be repaired'')
       else Inr a')"
proof -
  have shape: "t \<noteq> []" "hd t = CHR ''{''" "last t = CHR ''}''" "\<forall>c \<in> set t. printable c"
    using answer_shape [OF wf] by (simp_all add: t Let_def)
  then have "normalize_answer content = t"
    using content normalize_plain normalize_fenced by auto
  moreover have "json_loads frepr t = Some (JObj [(''arguments'', JObj a')])"
    using json_loads_dumps(1) [of frepr "JObj [(''arguments'', JObj a)]"] wf sorted by (simp add: t)
  ultimately have "parse_arguments frepr (JStr content) = Some a'"
    by (simp add: parse_arguments_def)
  then show ?thesis
    by (simp add: accept_answer_def openai_content_def anthropic_content_def)
qed

theorem advice_roundtrip_witness:
  "accept_answer id openai_content ''invalid'' \<lparr>fd_category = SCHEMA_MISMATCH, fd_message = []\<rparr>
     (HttpResponse 200 (Some (JObj [(''choices'', JList [JObj [(''message'', JObj [(''content'',
        JStr (fenced (json_dumps (JObj [(''arguments'', JObj [(''max_rows'', JInt 5)])]))))])]])]))) =
   Inr [(''max_rows'', JInt 5)]"
  using advice_roundtrip [of id "[(''max_rows'', JInt 5)]" "[(''max_rows'', JInt 5)]" _
      "fenced (json_dumps (JObj [(''arguments'', JObj [(''max_rows'', JInt 5)])]))" "''invalid''"
      "\<lparr>fd_category = SCHEMA_MISMATCH, fd_message = []\<rparr>", OF _ _ refl]
  by simp

text \<open>An advisor never repairs a refusal and fails with \<open>ValueError\<close> only.  Whatever the
  endpoint answers, and also when it cannot be reached, both clients either propose arguments for
  a failure that is no policy denial or raise \<open>ValueError\<close>.\<close>

theorem advisors_never_repair_denials:
  "(case fst (LLMRepairAdvisor frepr post c tool arguments schema d w) of
      Inr proposal \<Rightarrow> fd_category d \<noteq> POLICY_DENIED | Inl e \<Rightarrow> \<exists>m. e = PyExn ''ValueError'' m) \<and>
   (case fst (AnthropicRepairAdvisor frepr post c tool arguments schema d w) of
      Inr proposal \<Rightarrow> fd_category d \<noteq> POLICY_DENIED | Inl e \<Rightarrow> \<exists>m. e = PyExn ''ValueError'' m)"
  by (rule conjI [OF llm.advice_law [OF surjective_pairing] anthropic.advice_law [OF surjective_pairing]])

end
