(* ===== verification/Sha256.thy ===== *)
theory Sha256
  imports Prelude "HOL-Library.Word"
begin

unbundle bit_operations_syntax

text \<open>
  \<open>hashlib.sha256(data).hexdigest()\<close> and \<open>hmac.new(key, data, sha256).hexdigest()\<close> of Python's
  standard library, which chain the audit log and sign the worker requests.  Byte strings are
  \<open>string\<close>s: a character is a byte.  The constants are the first 32 bits of the fractional parts of the
  cube roots (\<open>sha_k\<close>) and square roots (\<open>sha_h\<close>) of the first primes, in decimal.
\<close>

definition sha_k :: "32 word list" where
  "sha_k = [
     1116352408, 1899447441, 3049323471, 3921009573, 961987163, 1508970993,
     2453635748, 2870763221, 3624381080, 310598401, 607225278, 1426881987,
     1925078388, 2162078206, 2614888103, 3248222580, 3835390401, 4022224774,
     264347078, 604807628, 770255983, 1249150122, 1555081692, 1996064986,
     2554220882, 2821834349, 2952996808, 3210313671, 3336571891, 3584528711,
     113926993, 338241895, 666307205, 773529912, 1294757372, 1396182291,
     1695183700, 1986661051, 2177026350, 2456956037, 2730485921, 2820302411,
     3259730800, 3345764771, 3516065817, 3600352804, 4094571909, 275423344,
     430227734, 506948616, 659060556, 883997877, 958139571, 1322822218,
     1537002063, 1747873779, 1955562222, 2024104815, 2227730452, 2361852424,
     2428436474, 2756734187, 3204031479, 3329325298]"

definition sha_h :: "32 word list" where
  "sha_h = [
     1779033703, 3144134277, 1013904242, 2773480762, 1359893119, 2600822924,
     528734635, 1541459225]"

definition small_sigma0 :: "32 word \<Rightarrow> 32 word" where
  "small_sigma0 x = (word_rotr 7 x XOR word_rotr 18 x) XOR drop_bit 3 x"

definition small_sigma1 :: "32 word \<Rightarrow> 32 word" where
  "small_sigma1 x = (word_rotr 17 x XOR word_rotr 19 x) XOR drop_bit 10 x"

definition big_sigma0 :: "32 word \<Rightarrow> 32 word" where
  "big_sigma0 x = (word_rotr 2 x XOR word_rotr 13 x) XOR word_rotr 22 x"

definition big_sigma1 :: "32 word \<Rightarrow> 32 word" where
  "big_sigma1 x = (word_rotr 6 x XOR word_rotr 11 x) XOR word_rotr 25 x"

definition sha_ch :: "32 word \<Rightarrow> 32 word \<Rightarrow> 32 word \<Rightarrow> 32 word" where
  "sha_ch x y z = (x AND y) XOR (NOT x AND z)"

definition sha_maj :: "32 word \<Rightarrow> 32 word \<Rightarrow> 32 word \<Rightarrow> 32 word" where
  "sha_maj x y z = ((x AND y) XOR (x AND z)) XOR (y AND z)"

text \<open>The message schedule, newest word first.\<close>

fun sha_extend :: "nat \<Rightarrow> 32 word list \<Rightarrow> 32 word list" where
  "sha_extend 0 ws = ws"
| "sha_extend (Suc n) ws =
     sha_extend n ((small_sigma1 (ws ! 1) + ws ! 6 + small_sigma0 (ws ! 14) + ws ! 15) # ws)"

fun sha_round :: "32 word \<times> 32 word \<Rightarrow> 32 word list \<Rightarrow> 32 word list" where
  "sha_round (k, w) [a, b, c, d, e, f, g, h] =
     (let t1 = h + big_sigma1 e + sha_ch e f g + k + w; t2 = big_sigma0 a + sha_maj a b c
      in [t1 + t2, a, b, c, d + t1, e, f, g])"
| "sha_round kw hs = hs"

definition sha_block :: "32 word list \<Rightarrow> 32 word list \<Rightarrow> 32 word list" where
  "sha_block ws hs = map2 (+) hs (fold sha_round (zip sha_k (rev (sha_extend 48 (rev ws)))) hs)"

definition byte_word :: "char \<Rightarrow> 32 word" where
  "byte_word c = word_of_nat (of_char c)"

fun be_words :: "string \<Rightarrow> 32 word list" where
  "be_words (a # b # c # d # rest) =
     (((byte_word a * 256 + byte_word b) * 256 + byte_word c) * 256 + byte_word d) # be_words rest"
| "be_words _ = []"

fun be_bytes :: "nat \<Rightarrow> nat \<Rightarrow> string" where
  "be_bytes 0 n = []"
| "be_bytes (Suc k) n = be_bytes k (n div 256) @ [char_of (n mod 256)]"

definition sha_pad :: "string \<Rightarrow> string" where
  "sha_pad m = m @ [char_of (128 :: nat)] @ replicate ((119 - length m mod 64) mod 64) (char_of (0 :: nat))
     @ be_bytes 8 (8 * length m)"

fun sha_blocks :: "nat \<Rightarrow> 32 word list \<Rightarrow> 32 word list \<Rightarrow> 32 word list" where
  "sha_blocks 0 ws hs = hs"
| "sha_blocks (Suc n) ws hs = sha_blocks n (drop 16 ws) (sha_block (take 16 ws) hs)"

definition sha_words :: "string \<Rightarrow> 32 word list" where
  "sha_words m = (let p = sha_pad m in sha_blocks (length p div 64) (be_words p) sha_h)"

definition sha256 :: "string \<Rightarrow> string" where
  "sha256 m = concat (map (\<lambda>w. be_bytes 4 (unat w)) (sha_words m))"

definition hex_char :: "nat \<Rightarrow> char" where
  "hex_char n = (if n < 10 then char_of (48 + n) else char_of (87 + n))"

definition hexdigest :: "string \<Rightarrow> string" where
  "hexdigest bs = concat (map (\<lambda>c. let n = (of_char c :: nat) in [hex_char (n div 16), hex_char (n mod 16)]) bs)"

text \<open>\<open>hashlib.sha256(m).hexdigest()\<close>\<close>

definition sha256_hex :: "string \<Rightarrow> string" where
  "sha256_hex m = hexdigest (sha256 m)"

definition xor_byte :: "nat \<Rightarrow> char \<Rightarrow> char" where
  "xor_byte k c = char_of (k XOR (of_char c :: nat))"

text \<open>\<open>hmac.new(key, m, hashlib.sha256).hexdigest()\<close>\<close>

definition hmac_key :: "string \<Rightarrow> string" where
  "hmac_key key = (let k = (if 64 < length key then sha256 key else key)
     in k @ replicate (64 - length k) (char_of (0 :: nat)))"

definition hmac_sha256_hex :: "string \<Rightarrow> string \<Rightarrow> string" where
  "hmac_sha256_hex key m = (let k = hmac_key key
     in sha256_hex (map (xor_byte 92) k @ sha256 (map (xor_byte 54) k @ m)))"

end
