(* ===== verification/Audit_Log.thy ===== *)
theory Audit_Log
  imports Models Json_Loads Sha256
begin

text \<open>
  The hash-chained audit log (\<open>gateway/audit/log.py\<close>) and its verifier
  (\<open>gateway/audit/verify.py\<close>).  The file is its text, \<open>None\<close> when it does not exist.  What
  pydantic and Python print is a parameter: \<open>ac_dump_json\<close> is \<open>AuditRecord.model_dump_json\<close>,
  \<open>ac_tfmt\<close> the text of a timestamp, \<open>ac_frepr\<close> the text Python prints for a float it read.
  Writing a line can fail after part of it reached the file.
\<close>

section \<open>Files\<close>

abbreviation LF :: char where "LF \<equiv> CHR 0x0A"
abbreviation CR :: char where "CR \<equiv> CHR 0x0D"

text \<open>Text mode translates \<open>CR\<close> and \<open>CR LF\<close>; iterating over the stream gives the lines with
  their terminators.\<close>

fun universal_newlines :: "string \<Rightarrow> string" where
  "universal_newlines [] = []"
| "universal_newlines [c] = [if c = CR then LF else c]"
| "universal_newlines (c # d # cs) =
     (if c = CR then LF # (if d = LF then universal_newlines cs else universal_newlines (d # cs))
      else c # universal_newlines (d # cs))"

fun split_lines :: "string \<Rightarrow> string \<Rightarrow> string list" where
  "split_lines acc [] = (if acc = [] then [] else [rev acc])"
| "split_lines acc (c # cs) =
     (if c = LF then rev (c # acc) # split_lines [] cs else split_lines (c # acc) cs)"

definition stream_lines :: "string \<Rightarrow> string list" where
  "stream_lines body = split_lines [] (universal_newlines body)"

section \<open>The log\<close>

definition GENESIS_HASH :: string where
  "GENESIS_HASH = replicate 64 (CHR ''0'')"

definition canonical_json :: "jdict \<Rightarrow> string" where
  "canonical_json value = json_dumps_compact (JObj value)"

definition record_hash :: "jdict \<Rightarrow> string" where
  "record_hash payload = sha256_hex (canonical_json payload)"

record audit_codec =
  ac_dump_json :: "audit_record \<Rightarrow> string"
  ac_tfmt :: "timestamp \<Rightarrow> string"
  ac_frepr :: "string \<Rightarrow> string"

datatype write_fate = WriteOk | WriteFails nat

record audit_log =
  al_file :: "string option"
  al_last_hash :: string
  al_clock :: "nat \<Rightarrow> timestamp"
  al_disk :: "nat \<Rightarrow> write_fate"
  al_writes :: nat

definition read_last_hash :: "(string \<Rightarrow> string) \<Rightarrow> string option \<Rightarrow> exn + string" where
  "read_last_hash frepr file = (case file of
       None \<Rightarrow> Inr GENESIS_HASH
     | Some body \<Rightarrow> (case rev (filter (\<lambda>line. str_strip line \<noteq> []) (stream_lines body)) of
           [] \<Rightarrow> Inr GENESIS_HASH
         | last_line # earlier \<Rightarrow> (case json_loads frepr last_line of
               None \<Rightarrow> Inl (PyExn ''JSONDecodeError'' [])
             | Some (JObj payload) \<Rightarrow> (case dict_get payload ''record_hash'' of
                   Some (JStr value) \<Rightarrow> Inr value
                 | _ \<Rightarrow> Inr GENESIS_HASH)
             | Some other \<Rightarrow> Inl (PyExn ''AttributeError'' ''get''))))"

definition AuditLogger :: "(string \<Rightarrow> string) \<Rightarrow> string option \<Rightarrow> (nat \<Rightarrow> timestamp) \<Rightarrow>
    (nat \<Rightarrow> write_fate) \<Rightarrow> exn + audit_log" where
  "AuditLogger frepr file clock disk = (case read_last_hash frepr file of
       Inl e \<Rightarrow> Inl e
     | Inr h \<Rightarrow> Inr \<lparr>al_file = file, al_last_hash = h, al_clock = clock, al_disk = disk, al_writes = 0\<rparr>)"

text \<open>The keyword arguments of \<open>append\<close>.\<close>

record audit_fields =
  af_call_id :: string
  af_session_id :: string
  af_trace_id :: string
  af_tool_name :: string
  af_arguments :: jdict
  af_policy_input :: "jdict option"
  af_policy_decision :: string
  af_matched_rule :: "string option"
  af_approver_identity :: "string option"
  af_sandbox_runtime :: string
  af_attempts :: "attempt_record list"
  af_repair_attempts :: "repair_attempt_record list option"
  af_outcome :: string
  af_duration_ms :: string
  af_principal :: "principal option"
  af_timestamp :: "timestamp option"

definition pending_record :: "audit_fields \<Rightarrow> timestamp \<Rightarrow> string \<Rightarrow> audit_record" where
  "pending_record f timestamp last_hash = \<lparr>au_timestamp = timestamp, au_call_id = af_call_id f,
     au_session_id = af_session_id f, au_trace_id = af_trace_id f, au_tool_name = af_tool_name f,
     au_arguments = af_arguments f,
     au_policy_input = (case af_policy_input f of None \<Rightarrow> [] | Some d \<Rightarrow> d),
     au_policy_decision = af_policy_decision f, au_matched_rule = af_matched_rule f,
     au_approver_identity = af_approver_identity f, au_sandbox_runtime = af_sandbox_runtime f,
     au_attempts = af_attempts f,
     au_repair_attempts = (case af_repair_attempts f of None \<Rightarrow> [] | Some l \<Rightarrow> l),
     au_outcome = af_outcome f, au_duration_ms = af_duration_ms f,
     au_previous_hash = last_hash, au_record_hash = ''pending'', au_principal = af_principal f\<rparr>"

definition unsigned_payload :: "jdict \<Rightarrow> jdict" where
  "unsigned_payload payload = dict_del ''record_hash'' payload"

definition sign_record :: "audit_codec \<Rightarrow> audit_record \<Rightarrow> audit_record" where
  "sign_record C pending =
     pending\<lparr>au_record_hash := record_hash (unsigned_payload (dump_audit (ac_tfmt C) pending))\<rparr>"

definition append_sync :: "audit_codec \<Rightarrow> audit_fields \<Rightarrow> (audit_log, audit_record) aio" where
  "append_sync C f s =
     (let timestamp = (case af_timestamp f of Some t \<Rightarrow> t | None \<Rightarrow> al_clock s (al_writes s));
          record = sign_record C (pending_record f timestamp (al_last_hash s));
          line = ac_dump_json C record @ [LF];
          body = (case al_file s of None \<Rightarrow> [] | Some t \<Rightarrow> t);
          s1 = s\<lparr>al_writes := Suc (al_writes s)\<rparr>
      in case al_disk s (al_writes s) of
           WriteOk \<Rightarrow> (Inr record, s1\<lparr>al_file := Some (body @ line), al_last_hash := au_record_hash record\<rparr>)
         | WriteFails n \<Rightarrow> (Inl (PyExn ''OSError'' ''write failed''),
             s1\<lparr>al_file := (if n = 0 then al_file s else Some (body @ take n line))\<rparr>))"

text \<open>\<open>append\<close> runs it under the lock in a worker thread: one step here.\<close>

definition audit_append :: "audit_codec \<Rightarrow> audit_fields \<Rightarrow> (audit_log, audit_record) aio" where
  "audit_append C f = append_sync C f"

section \<open>The verifier\<close>

abbreviation integrity :: "string \<Rightarrow> exn" where
  "integrity m \<equiv> PyExn ''AuditIntegrityError'' m"

definition verify_payload :: "nat \<Rightarrow> string \<Rightarrow> json option \<Rightarrow> exn + string" where
  "verify_payload line_number previous_hash doc = (case doc of
       None \<Rightarrow> Inl (integrity (''Invalid JSON on audit line '' @ str_of_nat line_number))
     | Some (JObj payload) \<Rightarrow>
         (if dict_get payload ''previous_hash'' \<noteq> Some (JStr previous_hash)
          then Inl (integrity (''Broken audit link on line '' @ str_of_nat line_number))
          else (case dict_get payload ''record_hash'' of
              Some (JStr stored_hash) \<Rightarrow>
                (if stored_hash \<noteq> record_hash (unsigned_payload payload)
                 then Inl (integrity (''Tampered audit record on line '' @ str_of_nat line_number))
                 else Inr stored_hash)
            | _ \<Rightarrow> Inl (integrity (''Missing record hash on line '' @ str_of_nat line_number))))
     | Some other \<Rightarrow> Inl (integrity (''Audit line '' @ str_of_nat line_number @ '' is not an object'')))"

fun verify_lines :: "(string \<Rightarrow> string) \<Rightarrow> nat \<Rightarrow> string \<Rightarrow> string list \<Rightarrow> exn + string" where
  "verify_lines frepr line_number previous_hash [] = Inr previous_hash"
| "verify_lines frepr line_number previous_hash (line # rest) =
     (if str_strip line = [] then verify_lines frepr (Suc line_number) previous_hash rest
      else case verify_payload line_number previous_hash (json_loads frepr line) of
          Inl e \<Rightarrow> Inl e
        | Inr h \<Rightarrow> verify_lines frepr (Suc line_number) h rest)"

definition verify_audit_file :: "(string \<Rightarrow> string) \<Rightarrow> string option \<Rightarrow> exn + bool" where
  "verify_audit_file frepr file = (case file of
       None \<Rightarrow> Inr True
     | Some body \<Rightarrow> (case verify_lines frepr 1 GENESIS_HASH (stream_lines body) of
           Inl e \<Rightarrow> Inl e
         | Inr h \<Rightarrow> Inr True))"

section \<open>Well-formed logs\<close>

text \<open>Documented behaviour of pydantic: \<open>model_dump_json\<close> writes, on one line, the document that
  \<open>model_dump(mode="json")\<close> returns.\<close>

definition audit_codec_ok :: "audit_codec \<Rightarrow> bool" where
  "audit_codec_ok C = (\<forall>r. json_wf (ac_frepr C) (JObj (dump_audit (ac_tfmt C) r)) \<longrightarrow>
     json_loads (ac_frepr C) (ac_dump_json C r @ [LF]) = Some (JObj (dump_audit (ac_tfmt C) r)) \<and>
     LF \<notin> set (ac_dump_json C r) \<and> CR \<notin> set (ac_dump_json C r))"

definition repair_wf :: "(string \<Rightarrow> string) \<Rightarrow> repair_attempt_record \<Rightarrow> bool" where
  "repair_wf frepr r = (json_wf frepr (JObj (rr_original_arguments r)) \<and>
     json_wf frepr (JObj (rr_proposed_arguments r)))"

text \<open>The arguments that \<open>append\<close> is called with are JSON documents.\<close>

definition fields_wf :: "(string \<Rightarrow> string) \<Rightarrow> audit_fields \<Rightarrow> bool" where
  "fields_wf frepr f = (json_wf frepr (JObj (af_arguments f)) \<and>
     json_wf frepr (JObj (case af_policy_input f of None \<Rightarrow> [] | Some d \<Rightarrow> d)) \<and>
     list_all (repair_wf frepr) (case af_repair_attempts f of None \<Rightarrow> [] | Some l \<Rightarrow> l) \<and>
     json_wf frepr (JFloat (af_duration_ms f)))"

text \<open>The file ends in a complete line and verifies, and the logger holds its last hash.\<close>

definition log_ok :: "audit_codec \<Rightarrow> audit_log \<Rightarrow> bool" where
  "log_ok C s = (case al_file s of
       None \<Rightarrow> al_last_hash s = GENESIS_HASH
     | Some body \<Rightarrow> (body = [] \<or> last body = LF) \<and> CR \<notin> set body \<and>
         verify_lines (ac_frepr C) 1 GENESIS_HASH (stream_lines body) = Inr (al_last_hash s))"

fun append_all :: "audit_codec \<Rightarrow> audit_fields list \<Rightarrow> (audit_log, audit_record list) aio" where
  "append_all C [] = ret []"
| "append_all C (f # fs) = bind_io (audit_append C f) (\<lambda>r. bind_io (append_all C fs) (\<lambda>rs. ret (r # rs)))"

section \<open>Lemmas\<close>

lemma universal_newlines_id: "CR \<notin> set body \<Longrightarrow> universal_newlines body = body"
  by (induction body rule: universal_newlines.induct) auto

lemma split_lines_append:
  "body = [] \<and> acc = [] \<or> body \<noteq> [] \<and> last body = LF \<Longrightarrow>
   split_lines acc (body @ extra) = split_lines acc body @ split_lines [] extra"
  by (induction acc body rule: split_lines.induct) (auto split: if_splits)

lemma split_lines_one: "LF \<notin> set line \<Longrightarrow> split_lines acc (line @ [LF]) = [rev acc @ line @ [LF]]"
  by (induction line arbitrary: acc) auto

lemma stream_lines_append:
  assumes "body = [] \<or> last body = LF" and "CR \<notin> set body" and "LF \<notin> set line" and "CR \<notin> set line"
  shows "stream_lines (body @ line @ [LF]) = stream_lines body @ [line @ [LF]]"
  using assms split_lines_append [of body "[]" "line @ [LF]"]
  by (auto simp: stream_lines_def universal_newlines_id split_lines_one)

lemma verify_lines_append:
  "verify_lines frepr n p (xs @ ys) = (case verify_lines frepr n p xs of
     Inl e \<Rightarrow> Inl e | Inr h \<Rightarrow> verify_lines frepr (n + length xs) h ys)"
  by (induction frepr n p xs rule: verify_lines.induct) (auto split: sum.splits)

lemma json_loads_nonblank: "json_loads frepr s = Some v \<Longrightarrow> str_strip s \<noteq> []"
proof
  assume l: "json_loads frepr s = Some v" and "str_strip s = []"
  then have sp: "\<forall>c \<in> set (skip_ws s). is_space c"
    by (auto simp: str_strip_eq_Nil skip_ws_def dest: set_dropWhileD)
  obtain r where v: "scan_value frepr (Suc (2 * length (skip_ws s))) (skip_ws s) = Some (v, r)"
    using l by (auto simp: json_loads_def Let_def split: option.splits if_splits)
  then obtain c cs where c: "skip_ws s = c # cs" by (cases "skip_ws s") auto
  with sp have "is_space c" by simp
  then have c': "c \<notin> {CHR 0x22, CHR ''['', CHR ''{''}" "\<not> is_digit c" "c \<notin> {CHR ''-'', CHR ''0''}"
    "c \<notin> {CHR ''n'', CHR ''t'', CHR ''f'', CHR ''N'', CHR ''I''}"
    by (auto simp: is_space_def is_digit_def Let_def)
  have "scan_constant (c # cs) = None" using c' by (auto simp: scan_constant_def)
  moreover have "scan_number frepr (c # cs) = None" using c' by (simp add: scan_number_def scan_nat_def)
  ultimately have "scan_value frepr (Suc (2 * length (skip_ws s))) (skip_ws s) = None"
    using c' by (simp add: c)
  with v show False by simp
qed

lemma unsigned_sign:
  "unsigned_payload (dump_audit tf (r\<lparr>au_record_hash := h\<rparr>)) = unsigned_payload (dump_audit tf r)"
  by (simp add: unsigned_payload_def dict_del_def dump_audit_def)

lemma verify_payload_signed:
  "verify_payload n p (Some (JObj (dump_audit (ac_tfmt C) (sign_record C (pending_record f ts p))))) =
   Inr (au_record_hash (sign_record C (pending_record f ts p)))"
proof -
  let ?r = "sign_record C (pending_record f ts p)"
  have "dict_get (dump_audit (ac_tfmt C) ?r) ''previous_hash'' = Some (JStr p)"
    "dict_get (dump_audit (ac_tfmt C) ?r) ''record_hash'' = Some (JStr (au_record_hash ?r))"
    by (simp_all add: dump_audit_def sign_record_def pending_record_def)
  moreover have "record_hash (unsigned_payload (dump_audit (ac_tfmt C) ?r)) = au_record_hash ?r"
    by (simp add: sign_record_def unsigned_sign)
  ultimately show ?thesis by (simp add: verify_payload_def)
qed

lemma json_wf_opt_str [simp]: "json_wf frepr (j_opt_str v)" "json_wf frepr (j_opt_time tf t)"
  by (auto simp: j_opt_str_def j_opt_time_def split: option.split)

lemma json_wf_principal [simp]: "json_wf frepr (JObj (dump_principal p))"
  by (simp add: dump_principal_def list_all_iff)

lemma json_wf_attempt [simp]: "json_wf frepr (dump_attempt tf a)"
  by (simp add: dump_attempt_def)

lemma json_wf_repair [simp]: "repair_wf frepr r \<Longrightarrow> json_wf frepr (dump_repair r)"
  by (simp add: dump_repair_def repair_wf_def)

lemma json_wf_dump_audit:
  assumes "json_wf frepr (JObj (au_arguments r))" and "json_wf frepr (JObj (au_policy_input r))"
    and "list_all (repair_wf frepr) (au_repair_attempts r)" and "json_wf frepr (JFloat (au_duration_ms r))"
  shows "json_wf frepr (JObj (dump_audit tf r))"
proof -
  have attempts: "json_wf frepr (JList (map (dump_attempt tf) (au_attempts r)))"
    by (simp add: list_all_iff)
  have repairs: "json_wf frepr (JList (map dump_repair (au_repair_attempts r)))"
    using assms(3) by (simp add: list_all_iff)
  have principal: "json_wf frepr (case au_principal r of None \<Rightarrow> JNull | Some p \<Rightarrow> JObj (dump_principal p))"
    by (simp split: option.split del: json_wf.simps(7))
  show ?thesis
    unfolding dump_audit_def json_wf.simps(7)
    using assms(1,2,4) attempts repairs principal by (simp del: json_wf.simps(4,6,7))
qed

lemma fields_wf_record:
  "fields_wf (ac_frepr C) f \<Longrightarrow>
   json_wf (ac_frepr C) (JObj (dump_audit (ac_tfmt C) (sign_record C (pending_record f ts h))))"
  by (rule json_wf_dump_audit)
    (simp_all add: fields_wf_def sign_record_def pending_record_def del: json_wf.simps(4,7))

lemma append_log_ok:
  assumes C: "audit_codec_ok C" and f: "fields_wf (ac_frepr C) f" and ok: "log_ok C s"
    and disk: "al_disk s (al_writes s) \<in> {WriteOk, WriteFails 0}"
    and step: "audit_append C f s = (x, s')"
  shows "log_ok C s' \<and> al_disk s' = al_disk s \<and>
    (case x of
       Inr r \<Rightarrow> au_previous_hash r = al_last_hash s \<and> au_record_hash r = al_last_hash s' \<and>
         al_file s' = Some ((case al_file s of None \<Rightarrow> [] | Some t \<Rightarrow> t) @ ac_dump_json C r @ [LF])
     | Inl e \<Rightarrow> al_file s' = al_file s \<and> al_last_hash s' = al_last_hash s)"
proof (cases "al_disk s (al_writes s) = WriteOk")
  case False
  with disk step ok show ?thesis
    by (auto simp: audit_append_def append_sync_def log_ok_def Let_def split: option.splits)
next
  case True
  let ?body = "case al_file s of None \<Rightarrow> [] | Some t \<Rightarrow> t"
  obtain ts where x: "x = Inr (sign_record C (pending_record f ts (al_last_hash s)))"
    and fil: "al_file s' = Some (?body @ ac_dump_json C (sign_record C (pending_record f ts (al_last_hash s))) @ [LF])"
    and last: "al_last_hash s' = au_record_hash (sign_record C (pending_record f ts (al_last_hash s)))"
    and d: "al_disk s' = al_disk s"
    using step True by (auto simp: audit_append_def append_sync_def Let_def)
  let ?r = "sign_record C (pending_record f ts (al_last_hash s))"
  let ?line = "ac_dump_json C ?r"
  have line: "json_loads (ac_frepr C) (?line @ [LF]) = Some (JObj (dump_audit (ac_tfmt C) ?r))"
    "LF \<notin> set ?line" "CR \<notin> set ?line"
    using C fields_wf_record [OF f, of ts "al_last_hash s"] unfolding audit_codec_ok_def by blast+
  have body: "?body = [] \<or> last ?body = LF" "CR \<notin> set ?body"
    "verify_lines (ac_frepr C) 1 GENESIS_HASH (stream_lines ?body) = Inr (al_last_hash s)"
    using ok by (auto simp: log_ok_def stream_lines_def split: option.splits)
  have "verify_lines (ac_frepr C) n (al_last_hash s) [?line @ [LF]] = Inr (au_record_hash ?r)" for n
    using line(1) json_loads_nonblank [OF line(1)] by (simp add: verify_payload_signed)
  then have "verify_lines (ac_frepr C) 1 GENESIS_HASH (stream_lines (?body @ ?line @ [LF])) =
      Inr (au_record_hash ?r)"
    using stream_lines_append [OF body(1,2) line(2,3)] body(3) by (simp add: verify_lines_append)
  with fil last d x body(2) line(3) show ?thesis
    by (auto simp: log_ok_def sign_record_def pending_record_def)
qed

lemma verify_lines_last:
  "verify_lines frepr n p ls = Inr h \<Longrightarrow>
   (case rev (filter (\<lambda>line. str_strip line \<noteq> []) ls) of
      [] \<Rightarrow> h = p
    | l # _ \<Rightarrow> \<exists>payload. json_loads frepr l = Some (JObj payload) \<and>
        dict_get payload ''record_hash'' = Some (JStr h))"
proof (induction ls arbitrary: h rule: rev_induct)
  case (snoc l ls)
  then obtain h' where h': "verify_lines frepr n p ls = Inr h'"
    by (auto simp: verify_lines_append split: sum.splits)
  show ?case
  proof (cases "str_strip l = []")
    case True
    with snoc.prems h' have "h' = h" by (simp add: verify_lines_append)
    with snoc.IH [OF h'] True show ?thesis by (simp split: list.splits)
  next
    case False
    with snoc.prems h' have "verify_payload (n + length ls) h' (json_loads frepr l) = Inr h"
      by (auto simp: verify_lines_append split: sum.splits)
    with False show ?thesis
      by (auto simp: verify_payload_def split: option.splits json.splits if_splits)
  qed
qed simp

lemma log_ok_resume: "log_ok C s \<Longrightarrow> read_last_hash (ac_frepr C) (al_file s) = Inr (al_last_hash s)"
  by (auto simp: log_ok_def read_last_hash_def split: option.splits list.splits dest!: verify_lines_last)

lemma append_all_log_ok:
  assumes C: "audit_codec_ok C" and fs: "list_all (fields_wf (ac_frepr C)) fs" and ok: "log_ok C s"
    and disk: "\<And>i. al_disk s i = WriteOk"
  shows "\<exists>rs s'. append_all C fs s = (Inr rs, s') \<and> length rs = length fs \<and> log_ok C s'"
  using fs ok disk
proof (induction fs arbitrary: s)
  case Nil
  then show ?case by (simp add: ret_def)
next
  case (Cons f fs)
  obtain x s1 where step: "audit_append C f s = (x, s1)" by force
  moreover have "x \<noteq> Inl e" for e
    using step Cons.prems(3) by (auto simp: audit_append_def append_sync_def Let_def)
  ultimately obtain r where r: "audit_append C f s = (Inr r, s1)" by (cases x) auto
  have s1: "log_ok C s1" "al_disk s1 = al_disk s"
    using append_log_ok [OF C _ Cons.prems(2) _ r] Cons.prems by auto
  from Cons.IH [OF _ s1(1)] Cons.prems s1(2) obtain rs s' where
    "append_all C fs s1 = (Inr rs, s')" "length rs = length fs" "log_ok C s'"
    by auto
  with r show ?case by (simp add: bind_io_def ret_def)
qed

section \<open>Chains\<close>

text \<open>What the verifier checks, on the decoded records.\<close>

fun chain_ok :: "string \<Rightarrow> jdict list \<Rightarrow> bool" where
  "chain_ok previous_hash [] = True"
| "chain_ok previous_hash (p # ps) = (dict_get p ''previous_hash'' = Some (JStr previous_hash) \<and>
     dict_get p ''record_hash'' = Some (JStr (record_hash (unsigned_payload p))) \<and>
     chain_ok (record_hash (unsigned_payload p)) ps)"

fun chain_end :: "string \<Rightarrow> jdict list \<Rightarrow> string" where
  "chain_end previous_hash [] = previous_hash"
| "chain_end previous_hash (p # ps) = chain_end (record_hash (unsigned_payload p)) ps"

definition audit_records :: "(string \<Rightarrow> string) \<Rightarrow> string option \<Rightarrow> json option list" where
  "audit_records frepr log = (case log of None \<Rightarrow> [] | Some body \<Rightarrow>
     map (json_loads frepr) (filter (\<lambda>line. str_strip line \<noteq> []) (stream_lines body)))"

lemma verify_payload_Inr:
  "verify_payload n p doc = Inr h \<longleftrightarrow> (\<exists>payload. doc = Some (JObj payload) \<and>
     dict_get payload ''previous_hash'' = Some (JStr p) \<and>
     dict_get payload ''record_hash'' = Some (JStr (record_hash (unsigned_payload payload))) \<and>
     h = record_hash (unsigned_payload payload))"
  by (auto simp: verify_payload_def split: option.splits json.splits if_splits)

lemma verify_lines_chain:
  "verify_lines frepr n p ls = Inr h \<Longrightarrow>
   \<exists>ps. map (json_loads frepr) (filter (\<lambda>line. str_strip line \<noteq> []) ls) = map (Some \<circ> JObj) ps \<and>
     chain_ok p ps \<and> chain_end p ps = h"
proof (induction frepr n p ls rule: verify_lines.induct)
  case (2 frepr n p l ls)
  show ?case
  proof (cases "str_strip l = []")
    case True
    with 2 show ?thesis by simp
  next
    case False
    with "2.prems" obtain h1 where h1: "verify_payload n p (json_loads frepr l) = Inr h1"
      "verify_lines frepr (Suc n) h1 ls = Inr h"
      by (auto split: sum.splits)
    from "2.IH"(2) [OF False h1] obtain ps where
      ps: "map (json_loads frepr) (filter (\<lambda>line. str_strip line \<noteq> []) ls) = map (Some \<circ> JObj) ps"
      "chain_ok h1 ps" "chain_end h1 ps = h"
      by blast
    from h1(1) obtain q where "json_loads frepr l = Some (JObj q)"
      "dict_get q ''previous_hash'' = Some (JStr p)"
      "dict_get q ''record_hash'' = Some (JStr (record_hash (unsigned_payload q)))"
      "h1 = record_hash (unsigned_payload q)"
      by (auto simp: verify_payload_Inr)
    with ps False show ?thesis by (intro exI [of _ "q # ps"]) simp
  qed
qed simp

lemma verify_file_chain:
  assumes "verify_audit_file frepr log = Inr b"
  shows "\<exists>ps. audit_records frepr log = map (Some \<circ> JObj) ps \<and> chain_ok GENESIS_HASH ps"
  using assms
  by (auto simp: verify_audit_file_def audit_records_def split: option.splits sum.splits
      dest!: verify_lines_chain)

lemma chain_ok_append:
  "chain_ok h (ps @ qs) \<longleftrightarrow> chain_ok h ps \<and> chain_ok (chain_end h ps) qs"
  by (induction h ps rule: chain_ok.induct) auto

lemma chain_end_append: "chain_end h (ps @ qs) = chain_end (chain_end h ps) qs"
  by (induction h ps rule: chain_end.induct) auto

text \<open>The sorted document determines every field.\<close>

lemma dict_get_sorted:
  "distinct (dict_keys d) \<Longrightarrow> json_sort (JObj d) = JObj e \<Longrightarrow> dict_get e k = map_option json_sort (dict_get d k)"
proof -
  assume d: "distinct (dict_keys d)" and "json_sort (JObj d) = JObj e"
  then have e: "e = sort_key fst (map (map_prod id json_sort) d)" by simp
  have "distinct (dict_keys e)" "distinct (dict_keys (map (map_prod id json_sort) d))"
    using d by (metis distinct_map distinct_sort e keys_map_prod set_sort, simp)
  then have "map_of e = map_of (map (map_prod id json_sort) d)"
    using map_of_inject_set e by fastforce
  moreover have "map_of (map (map_prod id json_sort) d) k = map_option json_sort (map_of d k)"
    by (induction d) auto
  ultimately show ?thesis by simp
qed

lemma json_wf_unsigned: "json_wf frepr (JObj p) \<Longrightarrow> json_wf frepr (JObj (unsigned_payload p))"
  by (auto simp: unsigned_payload_def dict_del_def list_all_iff distinct_map inj_on_def)

lemma same_previous:
  assumes "json_wf frepr (JObj p)" and "json_wf frepr (JObj q)"
    and "canonical_json (unsigned_payload p) = canonical_json (unsigned_payload q)"
    and "dict_get p ''previous_hash'' = Some (JStr a)" and "dict_get q ''previous_hash'' = Some (JStr b)"
  shows "json_sort (JObj (unsigned_payload p)) = json_sort (JObj (unsigned_payload q)) \<and> a = b"
proof -
  have wf: "json_wf frepr (JObj (unsigned_payload p))" "json_wf frepr (JObj (unsigned_payload q))"
    using assms(1,2) json_wf_unsigned by blast+
  have eq: "json_sort (JObj (unsigned_payload p)) = json_sort (JObj (unsigned_payload q))"
    using json_dumps_compact_inj [OF wf] assms(3) by (simp add: canonical_json_def)
  obtain e where e: "json_sort (JObj (unsigned_payload p)) = JObj e" by simp
  then have e': "json_sort (JObj (unsigned_payload q)) = JObj e" using eq by simp
  have "dict_get e ''previous_hash'' = Some (JStr a)"
    using dict_get_sorted [OF _ e, of "''previous_hash''"] wf assms(4) by (simp add: unsigned_payload_def)
  moreover have "dict_get e ''previous_hash'' = Some (JStr b)"
    using dict_get_sorted [OF _ e', of "''previous_hash''"] wf assms(5) by (simp add: unsigned_payload_def)
  ultimately show ?thesis using eq by simp
qed

definition sha_collision :: bool where
  "sha_collision = (\<exists>a b. a \<noteq> b \<and> sha256_hex a = sha256_hex b)"

definition genesis_preimage :: bool where
  "genesis_preimage = (\<exists>a. sha256_hex a = GENESIS_HASH)"

lemma chain_binding:
  assumes "chain_ok GENESIS_HASH ps" and "chain_ok GENESIS_HASH qs"
    and "list_all (\<lambda>p. json_wf frepr (JObj p)) ps" and "list_all (\<lambda>p. json_wf frepr (JObj p)) qs"
    and "chain_end GENESIS_HASH ps = chain_end GENESIS_HASH qs"
    and "\<not> sha_collision" and "\<not> genesis_preimage"
  shows "map (\<lambda>p. json_sort (JObj (unsigned_payload p))) ps = map (\<lambda>p. json_sort (JObj (unsigned_payload p))) qs"
  using assms
proof (induction ps arbitrary: qs rule: rev_induct)
  case Nil
  show ?case
  proof (cases qs rule: rev_cases)
    case (snoc qs' q)
    with Nil.prems(5) have "sha256_hex (canonical_json (unsigned_payload q)) = GENESIS_HASH"
      by (simp add: chain_end_append record_hash_def)
    with Nil.prems(7) show ?thesis by (auto simp: genesis_preimage_def)
  qed simp
next
  case (snoc p ps)
  show ?case
  proof (cases qs rule: rev_cases)
    case Nil
    with snoc.prems(5) have "sha256_hex (canonical_json (unsigned_payload p)) = GENESIS_HASH"
      by (simp add: chain_end_append record_hash_def)
    with snoc.prems(7) show ?thesis by (auto simp: genesis_preimage_def)
  next
    case (snoc qs' q)
    note qs = snoc
    have "record_hash (unsigned_payload p) = record_hash (unsigned_payload q)"
      using snoc.prems(5) by (simp add: qs chain_end_append)
    then have "canonical_json (unsigned_payload p) = canonical_json (unsigned_payload q)"
      using snoc.prems(6) by (auto simp: record_hash_def sha_collision_def)
    then have last: "json_sort (JObj (unsigned_payload p)) = json_sort (JObj (unsigned_payload q))"
      and "chain_end GENESIS_HASH ps = chain_end GENESIS_HASH qs'"
      using same_previous [of frepr p q] snoc.prems(1-4) by (auto simp: qs chain_ok_append)
    then show ?thesis
      using snoc.IH [of qs'] snoc.prems last by (auto simp: qs chain_ok_append)
  qed
qed

section \<open>A concrete codec\<close>

text \<open>Lines as \<open>json.dumps\<close> renders the dump satisfy what is assumed of pydantic.\<close>

lemma render_one_line:
  "json_wf frepr v \<Longrightarrow> LF \<notin> set (json_render '','' '':'' v) \<and> CR \<notin> set (json_render '','' '':'' v)"
  using render_printable [of "'',''" "'':''" frepr v] by (fastforce simp: printable_def)

definition dumps_codec :: "(string \<Rightarrow> string) \<Rightarrow> audit_codec" where
  "dumps_codec frepr = \<lparr>ac_dump_json = (\<lambda>r. json_render '','' '':'' (JObj (dump_audit (\<lambda>t. str_of_int t) r))),
     ac_tfmt = (\<lambda>t. str_of_int t), ac_frepr = frepr\<rparr>"

lemma json_loads_render_line:
  assumes "json_wf frepr v"
  shows "json_loads frepr (json_render '','' '':'' v @ [LF]) = Some v"
proof -
  let ?t = "json_render '','' '':'' v"
  have seps: "seps_ok '','' '':''" by (simp add: seps_ok_def)
  have start: "skip_ws (?t @ [LF]) = ?t @ [LF]"
    using reads_starts [OF assms, of "'',''" "'':''"] by (auto simp: starts_value_def)
  have "scan_value frepr (Suc (2 * length (?t @ [LF]))) (?t @ [LF]) = Some (v, [LF])"
    by (rule readsD [OF reads_wf [OF seps assms]]) (simp_all add: delim_def)
  then show ?thesis
    unfolding json_loads_def Let_def start by (simp add: skip_ws_def json_ws_def del: scan_value.simps)
qed

lemma dumps_codec_ok: "audit_codec_ok (dumps_codec frepr)"
  using json_loads_render_line [of frepr] render_one_line [of frepr]
  unfolding audit_codec_ok_def dumps_codec_def by (simp del: json_wf.simps json_render.simps)

definition demo_fields :: audit_fields where
  "demo_fields = \<lparr>af_call_id = ''c1'', af_session_id = ''s1'', af_trace_id = ''t1'',
     af_tool_name = ''db_query'', af_arguments = [(''query'', JStr ''SELECT 1'')], af_policy_input = None,
     af_policy_decision = ''allow'', af_matched_rule = Some ''read_only_tool'',
     af_approver_identity = None, af_sandbox_runtime = ''docker'', af_attempts = [],
     af_repair_attempts = None, af_outcome = ''succeeded'', af_duration_ms = ''12.5'',
     af_principal = None, af_timestamp = None\<rparr>"

definition demo_log :: "(nat \<Rightarrow> write_fate) \<Rightarrow> audit_log" where
  "demo_log disk = \<lparr>al_file = None, al_last_hash = GENESIS_HASH, al_clock = int, al_disk = disk,
     al_writes = 0\<rparr>"

lemma demo_log_ok:
  assumes "frepr ''12.5'' = ''12.5''"
  shows "log_ok (dumps_codec frepr) (demo_log disk)" "fields_wf (ac_frepr (dumps_codec frepr)) demo_fields"
proof -
  have "scan_number frepr ''12.5'' = Some (JFloat (frepr ''12.5''), [])"
    by (simp add: scan_number_def scan_nat_def scan_frac_def scan_exp_def is_digit_def)
  with assms show "fields_wf (ac_frepr (dumps_codec frepr)) demo_fields"
    by (simp add: fields_wf_def dumps_codec_def demo_fields_def)
qed (simp add: log_ok_def demo_log_def)

text \<open>The log after two appends: the first line is a log, too.\<close>

lemma demo_two_lines:
  assumes fr: "frepr ''12.5'' = ''12.5''"
  shows "\<exists>kept line. last kept = LF \<and> line \<noteq> [] \<and> last line = LF \<and> CR \<notin> set (kept @ line) \<and>
    al_file (snd (append_all (dumps_codec frepr) [demo_fields, demo_fields] (demo_log (\<lambda>i. WriteOk)))) =
      Some (kept @ line) \<and>
    verify_audit_file frepr (Some (kept @ line)) = Inr True"
proof -
  let ?C = "dumps_codec frepr" and ?s = "demo_log (\<lambda>i. WriteOk)"
  note ok = demo_log_ok [where frepr = frepr, OF fr]
  have c: "audit_codec_ok ?C" by (rule dumps_codec_ok)
  have fine: "\<exists>r s1. audit_append ?C demo_fields s = (Inr r, s1)" if "al_disk s = (\<lambda>i. WriteOk)" for s
    using that by (simp add: audit_append_def append_sync_def Let_def)
  have d: "al_disk ?s = (\<lambda>i. WriteOk)" by (simp add: demo_log_def)
  from fine [OF d] obtain r1 s1 where s1: "audit_append ?C demo_fields ?s = (Inr r1, s1)" by blast
  note l1 = append_log_ok [OF c ok(2) ok(1) _ s1]
  from l1 d fine obtain r2 s2 where s2: "audit_append ?C demo_fields s1 = (Inr r2, s2)" by fastforce
  note l2 = append_log_ok [OF c ok(2) _ _ s2]
  obtain kept where k: "al_file s1 = Some kept" "kept \<noteq> []" "last kept = LF"
    using l1 d by (auto simp: demo_log_def)
  have s2ok: "log_ok ?C s2" "al_file s2 = Some (kept @ ac_dump_json ?C r2 @ [LF])"
    using l1 l2 d k(1) by auto
  then have "verify_audit_file frepr (al_file s2) = Inr True" "CR \<notin> set (kept @ ac_dump_json ?C r2 @ [LF])"
    by (auto simp: log_ok_def verify_audit_file_def dumps_codec_def)
  moreover have "snd (append_all ?C [demo_fields, demo_fields] ?s) = s2"
    using s1 s2 by (simp add: bind_io_def ret_def)
  ultimately show ?thesis using k s2ok(2) by (intro exI [of _ kept] exI [of _ "ac_dump_json ?C r2 @ [LF]"]) simp
qed

section \<open>Properties\<close>

lemma verify_file_end:
  assumes "verify_audit_file frepr log = Inr b"
  shows "\<exists>ps. audit_records frepr log = map (Some \<circ> JObj) ps \<and> chain_ok GENESIS_HASH ps \<and>
    read_last_hash frepr log = Inr (chain_end GENESIS_HASH ps)"
proof (cases log)
  case None
  then show ?thesis by (simp add: audit_records_def read_last_hash_def exI [of _ "[]"])
next
  case (Some body)
  then obtain h where v: "verify_lines frepr 1 GENESIS_HASH (stream_lines body) = Inr h"
    using assms by (auto simp: verify_audit_file_def split: sum.splits)
  from verify_lines_last [OF v] have "read_last_hash frepr log = Inr h"
    by (auto simp: Some read_last_hash_def split: list.splits)
  with verify_lines_chain [OF v] show ?thesis by (auto simp: Some audit_records_def)
qed





text \<open>Cutting records off the end goes unnoticed.  When a file verifies, so does the file that
  is left after removing everything behind any complete line: the chain has no end marker, so
  evidence of the latest calls can be deleted without trace in the file itself.\<close>

theorem truncation_is_not_detected:
  assumes "verify_audit_file frepr (Some (kept @ removed)) = Inr True"
    and "kept = [] \<or> last kept = LF" and "CR \<notin> set (kept @ removed)"
  shows "verify_audit_file frepr (Some kept) = Inr True"
proof -
  have "stream_lines (kept @ removed) = stream_lines kept @ split_lines [] removed"
    using assms(2,3) split_lines_append [of kept "[]" removed]
    by (auto simp: stream_lines_def universal_newlines_id)
  with assms(1) show ?thesis
    by (auto simp: verify_audit_file_def verify_lines_append split: sum.splits)
qed

theorem truncation_is_not_detected_witness:
  "\<exists>kept removed. removed \<noteq> [] \<and>
     al_file (snd (append_all (dumps_codec id) [demo_fields, demo_fields] (demo_log (\<lambda>i. WriteOk)))) =
       Some (kept @ removed) \<and> verify_audit_file id (Some kept) = Inr True"
proof -
  from demo_two_lines [of id] obtain kept line where
    "line \<noteq> []" "last kept = LF" "CR \<notin> set (kept @ line)"
    "al_file (snd (append_all (dumps_codec id) [demo_fields, demo_fields] (demo_log (\<lambda>i. WriteOk)))) =
      Some (kept @ line)"
    "verify_audit_file id (Some (kept @ line)) = Inr True"
    by auto
  with truncation_is_not_detected [of id kept line] show ?thesis by blast
qed

text \<open>A torn write locks the log.  When the disk fails after the first character of a record
  reached the file, the append raises, the verifier rejects the file and a new \<open>AuditLogger\<close> on
  it raises \<open>JSONDecodeError\<close>, so the gateway cannot be started with this log again.\<close>

theorem torn_write_locks_the_log:
  assumes "log_ok C s" and "al_disk s (al_writes s) = WriteFails 1"
    and "\<And>r. ac_dump_json C r \<noteq> [] \<and> hd (ac_dump_json C r) = CHR ''{''"
    and "audit_append C f s = (x, s')"
  shows "x = Inl (PyExn ''OSError'' ''write failed'') \<and>
    AuditLogger (ac_frepr C) (al_file s') clock disk = Inl (PyExn ''JSONDecodeError'' []) \<and>
    (\<exists>n. verify_audit_file (ac_frepr C) (al_file s') =
      Inl (integrity (''Invalid JSON on audit line '' @ str_of_nat n)))"
proof -
  let ?body = "case al_file s of None \<Rightarrow> [] | Some t \<Rightarrow> t"
  have "take 1 (ac_dump_json C r @ [LF]) = ''{''" for r
    using assms(3) [of r] by (cases "ac_dump_json C r") auto
  then have file': "al_file s' = Some (?body @ ''{'')" and x: "x = Inl (PyExn ''OSError'' ''write failed'')"
    using assms(2,4) by (auto simp: audit_append_def append_sync_def Let_def)
  have body: "?body = [] \<or> last ?body = LF" "CR \<notin> set ?body"
    "verify_lines (ac_frepr C) 1 GENESIS_HASH (stream_lines ?body) = Inr (al_last_hash s)"
    using assms(1) by (auto simp: log_ok_def stream_lines_def split: option.splits)
  have st: "stream_lines (?body @ ''{'') = stream_lines ?body @ [''{'']"
    using body(1,2) split_lines_append [of ?body "[]" "''{''"]
    by (auto simp: stream_lines_def universal_newlines_id)
  have bad: "json_loads (ac_frepr C) ''{'' = None" by (simp add: json_loads_def skip_ws_def json_ws_def)
  have nb: "str_strip ''{'' \<noteq> []" by (simp add: str_strip_def is_space_def)
  have "AuditLogger (ac_frepr C) (al_file s') clock disk = Inl (PyExn ''JSONDecodeError'' [])"
    using bad nb by (simp add: AuditLogger_def read_last_hash_def file' st)
  moreover have "verify_audit_file (ac_frepr C) (al_file s') =
      Inl (integrity (''Invalid JSON on audit line '' @ str_of_nat (1 + length (stream_lines ?body))))"
    using bad nb body(3) by (simp add: verify_audit_file_def file' st verify_lines_append verify_payload_def)
  ultimately show ?thesis using x by blast
qed

theorem torn_write_locks_the_log_witness:
  "AuditLogger id (al_file (snd (audit_append (dumps_codec id) demo_fields (demo_log (\<lambda>i. WriteFails 1)))))
     int (\<lambda>i. WriteOk) = Inl (PyExn ''JSONDecodeError'' [])"
proof -
  obtain x s' where step: "audit_append (dumps_codec id) demo_fields (demo_log (\<lambda>i. WriteFails 1)) = (x, s')"
    by (rule prod.exhaust)
  have "ac_dump_json (dumps_codec id) r \<noteq> [] \<and> hd (ac_dump_json (dumps_codec id) r) = CHR ''{''" for r
    by (simp add: dumps_codec_def)
  moreover have "al_disk (demo_log (\<lambda>i. WriteFails 1)) (al_writes (demo_log (\<lambda>i. WriteFails 1))) = WriteFails 1"
    "ac_frepr (dumps_codec id) = id"
    by (simp_all add: demo_log_def dumps_codec_def)
  ultimately show ?thesis
    using torn_write_locks_the_log [OF demo_log_ok(1) _ _ step] step by simp
qed

end
