(* ===== verification/Control_Plane.thy ===== *)
theory Control_Plane
  imports Models
begin

text \<open>
  The durable control plane (\<open>gateway/control_plane\<close>): the tables of
  \<open>control_plane/models.py\<close> and the operations of \<open>ControlPlaneRepository\<close>.  Every operation is
  one transaction: it commits, or it raises and leaves the database as it was.  A transaction
  fails when the database does (\<open>cp_up\<close> gives the fate of the \<open>i\<close>-th one) or when it violates a
  constraint.  PostgreSQL enforces foreign keys and column lengths (\<open>cp_postgres\<close>); SQLite, which
  the tests use, enforces neither.
\<close>

section \<open>Tables\<close>

record tenant_model =
  tm_id :: string
  tm_name :: string
  tm_created_at :: timestamp

record principal_model =
  pm_tenant_id :: string
  pm_subject :: string
  pm_roles :: "string list"
  pm_issuer :: "string option"
  pm_agent_id :: "string option"
  pm_created_at :: timestamp

record tool_call_model =
  tcm_call_id :: string
  tcm_trace_id :: string
  tcm_session_id :: string
  tcm_tenant_id :: "string option"
  tcm_subject :: "string option"
  tcm_tool_name :: string
  tcm_risk_class :: "string option"
  tcm_arguments :: jdict
  tcm_current_state :: string
  tcm_created_at :: timestamp
  tcm_updated_at :: timestamp

record attempt_model =
  atm_call_id :: string
  atm_attempt :: attempt_record

record approval_model =
  apm_tenant_id :: "string option"
  apm_request :: approval_request
  apm_decided_at :: "timestamp option"

record idempotency_model =
  ikm_call_id :: string
  ikm_status :: string

record policy_version_model =
  pvm_bundle_hash :: string
  pvm_bundle_uri :: "string option"
  pvm_signed :: bool

record configuration_model =
  cfm_value :: jdict
  cfm_version :: int

record control_plane =
  cp_tenants :: "(string, tenant_model) dict"
  cp_principals :: "(string \<times> string, principal_model) dict"
  cp_tool_calls :: "(string, tool_call_model) dict"
  cp_attempts :: "attempt_model list"
  cp_approvals :: "(string, approval_model) dict"
  cp_keys :: "(string \<times> string, idempotency_model) dict"
  cp_policy_versions :: "(string, policy_version_model) dict"
  cp_configurations :: "(string, configuration_model) dict"
  cp_postgres :: bool
  cp_up :: "nat \<Rightarrow> bool"
  cp_transactions :: nat
  cp_clock :: "nat \<Rightarrow> timestamp"

section \<open>Transactions\<close>

text \<open>\<open>transact body\<close>: the body sees the time of its \<open>utc_now\<close> defaults and the database, and
  gives the result and the new database, or the constraint it violates.\<close>

definition transact :: "(timestamp \<Rightarrow> control_plane \<Rightarrow> string + 'a \<times> control_plane) \<Rightarrow>
    (control_plane, 'a) aio" where
  "transact body c =
     (let c1 = c\<lparr>cp_transactions := Suc (cp_transactions c)\<rparr> in
      if \<not> cp_up c (cp_transactions c) then (Inl (PyExn ''OperationalError'' ''database unavailable''), c1)
      else case body (cp_clock c (cp_transactions c)) c1 of
          Inl violation \<Rightarrow> (Inl (PyExn ''DBAPIError'' violation), c1)
        | Inr (x, c2) \<Rightarrow> (Inr x, c2))"

definition fits :: "control_plane \<Rightarrow> nat \<Rightarrow> string \<Rightarrow> bool" where
  "fits c n s = (\<not> cp_postgres c \<or> length s \<le> n)"

definition fits_opt :: "control_plane \<Rightarrow> nat \<Rightarrow> string option \<Rightarrow> bool" where
  "fits_opt c n s = (case s of None \<Rightarrow> True | Some t \<Rightarrow> fits c n t)"

definition tenant_known :: "bool \<Rightarrow> (string, tenant_model) dict \<Rightarrow> string option \<Rightarrow> bool" where
  "tenant_known postgres tenants t = (case t of None \<Rightarrow> True
     | Some tid \<Rightarrow> \<not> postgres \<or> dict_get tenants tid \<noteq> None)"

abbreviation tenant_exists :: "control_plane \<Rightarrow> string option \<Rightarrow> bool" where
  "tenant_exists c t \<equiv> tenant_known (cp_postgres c) (cp_tenants c) t"

definition healthcheck :: "control_plane \<Rightarrow> bool \<times> control_plane" where
  "healthcheck c = (cp_up c (cp_transactions c), c\<lparr>cp_transactions := Suc (cp_transactions c)\<rparr>)"

section \<open>Operations\<close>

definition upsert_tenant :: "string \<Rightarrow> string \<Rightarrow> (control_plane, unit) aio" where
  "upsert_tenant tenant_id name = transact (\<lambda>now c.
     if \<not> (fits c 128 tenant_id \<and> fits c 256 name) then Inl ''value too long for tenants''
     else Inr ((), c\<lparr>cp_tenants := dict_set tenant_id
       (case dict_get (cp_tenants c) tenant_id of
          None \<Rightarrow> \<lparr>tm_id = tenant_id, tm_name = name, tm_created_at = now\<rparr>
        | Some t \<Rightarrow> t\<lparr>tm_name := name\<rparr>) (cp_tenants c)\<rparr>))"

definition upsert_principal :: "principal \<Rightarrow> (control_plane, unit) aio" where
  "upsert_principal p = transact (\<lambda>now c.
     let key = (p_tenant_id p, p_subject p);
         row = (case dict_get (cp_principals c) key of
             None \<Rightarrow> \<lparr>pm_tenant_id = p_tenant_id p, pm_subject = p_subject p,
               pm_roles = map role_value (p_roles p), pm_issuer = p_issuer p, pm_agent_id = p_agent_id p,
               pm_created_at = now\<rparr>
           | Some m \<Rightarrow> m\<lparr>pm_tenant_id := p_tenant_id p, pm_subject := p_subject p,
               pm_roles := map role_value (p_roles p), pm_issuer := p_issuer p, pm_agent_id := p_agent_id p\<rparr>)
     in if \<not> tenant_exists c (Some (p_tenant_id p)) then Inl ''principals.tenant_id''
        else if \<not> (fits c 256 (p_subject p) \<and> fits_opt c 512 (p_issuer p) \<and> fits_opt c 256 (p_agent_id p))
        then Inl ''value too long for principals''
        else Inr ((), c\<lparr>cp_principals := dict_set key row (cp_principals c)\<rparr>))"

definition create_approval :: "approval_request \<Rightarrow> string option \<Rightarrow> (control_plane, unit) aio" where
  "create_approval r tenant_id = transact (\<lambda>now c.
     if dict_get (cp_approvals c) (ap_approval_id r) \<noteq> None then Inl ''approvals.approval_id''
     else if \<not> tenant_exists c tenant_id then Inl ''approvals.tenant_id''
     else if \<not> (fits c 128 (ap_approval_id r) \<and> fits c 128 (ap_call_id r) \<and> fits c 256 (ap_tool_name r) \<and>
       fits c 256 (ap_matched_rule r) \<and> fits_opt c 64 (ap_decision r) \<and> fits_opt c 256 (ap_approver r))
     then Inl ''value too long for approvals''
     else Inr ((), c\<lparr>cp_approvals := dict_set (ap_approval_id r)
       \<lparr>apm_tenant_id = tenant_id, apm_request = r, apm_decided_at = None\<rparr> (cp_approvals c)\<rparr>))"

definition resolve_approval :: "string \<Rightarrow> string \<Rightarrow> string \<Rightarrow> string \<Rightarrow> timestamp \<Rightarrow>
    (control_plane, bool) aio" where
  "resolve_approval approval_id decision approver reason decided_at = transact (\<lambda>now c.
     case dict_get (cp_approvals c) approval_id of
       None \<Rightarrow> Inr (False, c)
     | Some a \<Rightarrow>
         if ap_decision (apm_request a) \<noteq> None then Inr (False, c)
         else if \<not> (fits c 64 decision \<and> fits c 256 approver) then Inl ''value too long for approvals''
         else Inr (True, c\<lparr>cp_approvals := dict_set approval_id
           (a\<lparr>apm_request := (apm_request a)\<lparr>ap_decision := Some decision, ap_approver := Some approver,
               ap_reason := Some reason\<rparr>, apm_decided_at := Some decided_at\<rparr>) (cp_approvals c)\<rparr>))"

definition tool_call_row :: "tool_call_record \<Rightarrow> timestamp \<Rightarrow> tool_call_model" where
  "tool_call_row r created = \<lparr>tcm_call_id = tc_call_id r, tcm_trace_id = tc_trace_id r,
     tcm_session_id = tc_session_id r, tcm_tenant_id = map_option p_tenant_id (tc_principal r),
     tcm_subject = map_option p_subject (tc_principal r), tcm_tool_name = tc_tool_name r,
     tcm_risk_class = map_option risk_value (tc_risk_class r), tcm_arguments = tc_arguments r,
     tcm_current_state = state_value (tc_current_state r), tcm_created_at = created,
     tcm_updated_at = tc_updated_at r\<rparr>"

definition upsert_tool_call :: "tool_call_record \<Rightarrow> (control_plane, unit) aio" where
  "upsert_tool_call r = transact (\<lambda>now c.
     let created = (case dict_get (cp_tool_calls c) (tc_call_id r) of
           None \<Rightarrow> tc_created_at r | Some m \<Rightarrow> tcm_created_at m);
         row = tool_call_row r created
     in if \<not> tenant_exists c (tcm_tenant_id row) then Inl ''tool_calls.tenant_id''
        else if \<not> (fits c 128 (tcm_call_id row) \<and> fits c 128 (tcm_trace_id row) \<and>
          fits c 128 (tcm_session_id row) \<and> fits_opt c 256 (tcm_subject row) \<and>
          fits c 256 (tcm_tool_name row)) then Inl ''value too long for tool_calls''
        else if \<not> distinct (map ar_attempt (tc_attempts r)) then Inl ''uq_attempt_call_number''
        else if \<not> list_all (\<lambda>a. fits_opt c 128 (ar_outcome a)) (tc_attempts r)
        then Inl ''value too long for attempts''
        else Inr ((), c\<lparr>cp_tool_calls := dict_set (tc_call_id r) row (cp_tool_calls c),
          cp_attempts := filter (\<lambda>a. atm_call_id a \<noteq> tc_call_id r) (cp_attempts c) @
            map (\<lambda>a. \<lparr>atm_call_id = tc_call_id r, atm_attempt = a\<rparr>) (tc_attempts r)\<rparr>))"

definition put_idempotency_key :: "string \<Rightarrow> string \<Rightarrow> string \<Rightarrow> string \<Rightarrow> (control_plane, unit) aio" where
  "put_idempotency_key tenant_id key call_id status = transact (\<lambda>now c.
     if \<not> tenant_exists c (Some tenant_id) then Inl ''idempotency_keys.tenant_id''
     else if \<not> (fits c 256 key \<and> fits c 128 call_id \<and> fits c 64 status)
     then Inl ''value too long for idempotency_keys''
     else Inr ((), c\<lparr>cp_keys := dict_set (key, tenant_id)
       \<lparr>ikm_call_id = call_id, ikm_status = status\<rparr> (cp_keys c)\<rparr>))"

definition get_idempotency_key :: "string \<Rightarrow> string \<Rightarrow> (control_plane, idempotency_model option) aio" where
  "get_idempotency_key tenant_id key = transact (\<lambda>now c. Inr (dict_get (cp_keys c) (key, tenant_id), c))"

definition record_policy_version :: "string \<Rightarrow> string \<Rightarrow> string option \<Rightarrow> bool \<Rightarrow> (control_plane, unit) aio" where
  "record_policy_version version bundle_hash bundle_uri signed = transact (\<lambda>now c.
     if dict_get (cp_policy_versions c) version \<noteq> None then Inl ''policy_versions.version''
     else if \<not> (fits c 128 version \<and> fits c 128 bundle_hash \<and> fits_opt c 1024 bundle_uri)
     then Inl ''value too long for policy_versions''
     else Inr ((), c\<lparr>cp_policy_versions := dict_set version \<lparr>pvm_bundle_hash = bundle_hash,
       pvm_bundle_uri = bundle_uri, pvm_signed = signed\<rparr> (cp_policy_versions c)\<rparr>))"

definition set_configuration :: "string \<Rightarrow> jdict \<Rightarrow> int \<Rightarrow> (control_plane, unit) aio" where
  "set_configuration key v version = transact (\<lambda>now c.
     if \<not> fits c 256 key then Inl ''value too long for configurations''
     else Inr ((), c\<lparr>cp_configurations := dict_set key \<lparr>cfm_value = v, cfm_version = version\<rparr>
       (cp_configurations c)\<rparr>))"

definition list_attempts :: "string \<Rightarrow> (control_plane, attempt_record list) aio" where
  "list_attempts call_id = transact (\<lambda>now c. Inr (sort_key ar_attempt
     (map atm_attempt (filter (\<lambda>a. atm_call_id a = call_id) (cp_attempts c))), c))"

section \<open>Integrity of the database\<close>

text \<open>Rows are stored under their keys, attempt numbers are unique per call, and on PostgreSQL every
  reference to a tenant has its row.\<close>

definition keyed :: "('v \<Rightarrow> 'k) \<Rightarrow> ('v \<Rightarrow> bool) \<Rightarrow> ('k, 'v) dict \<Rightarrow> bool" where
  "keyed key ok d = (\<forall>k v. dict_get d k = Some v \<longrightarrow> key v = k \<and> ok v)"

definition attempts_ok :: "(string, tool_call_model) dict \<Rightarrow> attempt_model list \<Rightarrow> bool" where
  "attempts_ok calls as = (distinct (map (\<lambda>a. (atm_call_id a, ar_attempt (atm_attempt a))) as) \<and>
     (\<forall>a \<in> set as. dict_get calls (atm_call_id a) \<noteq> None))"

definition cp_ok :: "control_plane \<Rightarrow> bool" where
  "cp_ok c = (keyed tm_id (\<lambda>t. True) (cp_tenants c) \<and>
     keyed (\<lambda>p. (pm_tenant_id p, pm_subject p)) (\<lambda>p. tenant_exists c (Some (pm_tenant_id p))) (cp_principals c) \<and>
     keyed tcm_call_id (\<lambda>m. tenant_exists c (tcm_tenant_id m)) (cp_tool_calls c) \<and>
     keyed (ap_approval_id \<circ> apm_request) (\<lambda>a. tenant_exists c (apm_tenant_id a)) (cp_approvals c) \<and>
     attempts_ok (cp_tool_calls c) (cp_attempts c))"

section \<open>Lemmas\<close>

text \<open>A transaction that preserves an assertion whenever it commits preserves it altogether.\<close>

lemma transact_keeps:
  assumes "P c" and "\<And>c n. P c \<Longrightarrow> P (c\<lparr>cp_transactions := n\<rparr>)"
    and "\<And>now c x c'. P c \<Longrightarrow> body now c = Inr (x, c') \<Longrightarrow> P c'"
  shows "P (snd (transact body c))"
proof -
  let ?c1 = "c\<lparr>cp_transactions := Suc (cp_transactions c)\<rparr>"
  have c1: "P ?c1" using assms(1,2) by blast
  show ?thesis
  proof (cases "body (cp_clock c (cp_transactions c)) ?c1")
    case (Inl v)
    with c1 show ?thesis by (simp add: transact_def Let_def)
  next
    case (Inr p)
    obtain x c2 where p: "p = (x, c2)" by force
    from assms(3) [OF c1 Inr [unfolded p]] Inr p c1 show ?thesis by (simp add: transact_def Let_def)
  qed
qed

lemma transact_Inr:
  assumes "transact body c = (Inr x, c')"
  shows "body (cp_clock c (cp_transactions c)) (c\<lparr>cp_transactions := Suc (cp_transactions c)\<rparr>) = Inr (x, c')"
  using assms by (auto simp: transact_def Let_def split: if_splits sum.splits)

lemma keyed_set:
  "keyed key ok d \<Longrightarrow> key v = k \<Longrightarrow> ok v \<Longrightarrow> keyed key ok (dict_set k v d)"
  by (auto simp: keyed_def)

lemma keyed_mono: "keyed key ok d \<Longrightarrow> (\<And>v. ok v \<Longrightarrow> ok' v) \<Longrightarrow> keyed key ok' d"
  by (auto simp: keyed_def)

lemma keyed_get: "keyed key ok d \<Longrightarrow> dict_get d k = Some v \<Longrightarrow> key v = k \<and> ok v"
  by (auto simp: keyed_def)

lemma tenant_known_set: "tenant_known pg T t \<Longrightarrow> tenant_known pg (dict_set k v T) t"
  by (auto simp: tenant_known_def split: option.splits)

lemma attempts_ok_replace:
  assumes "attempts_ok calls as" and "distinct (map ar_attempt new)"
  shows "attempts_ok (dict_set k row calls) (filter (\<lambda>a. atm_call_id a \<noteq> k) as @
    map (\<lambda>a. \<lparr>atm_call_id = k, atm_attempt = a\<rparr>) new)"
proof -
  let ?key = "\<lambda>a. (atm_call_id a, ar_attempt (atm_attempt a))"
  let ?old = "filter (\<lambda>a. atm_call_id a \<noteq> k) as"
  let ?new = "map (\<lambda>a. \<lparr>atm_call_id = k, atm_attempt = a\<rparr>) new"
  have "distinct (map ?key ?old)" using assms(1) by (simp add: attempts_ok_def distinct_map_filter)
  moreover have "distinct (map ?key ?new)" using assms(2) by (auto simp: distinct_map inj_on_def comp_def)
  ultimately have "distinct (map ?key (?old @ ?new))" by auto
  with assms(1) show ?thesis by (auto simp: attempts_ok_def)
qed

lemma cp_ok_transact:
  assumes "cp_ok c" and "\<And>now c x c'. cp_ok c \<Longrightarrow> body now c = Inr (x, c') \<Longrightarrow> cp_ok c'"
  shows "cp_ok (snd (transact body c))"
  using assms(1)
proof (rule transact_keeps [where P = cp_ok])
  show "cp_ok (c\<lparr>cp_transactions := n\<rparr>)" if "cp_ok c" for c n using that by (simp add: cp_ok_def)
  show "cp_ok c'" if "cp_ok c" "body now c = Inr (x, c')" for now c x c' using that by (rule assms(2))
qed

lemma upsert_tenant_ok: "cp_ok c \<Longrightarrow> cp_ok (snd (upsert_tenant t n c))"
  unfolding upsert_tenant_def
proof (erule cp_ok_transact)
  fix now x and c c' :: control_plane
  let ?row = "case dict_get (cp_tenants c) t of
      None \<Rightarrow> \<lparr>tm_id = t, tm_name = n, tm_created_at = now\<rparr> | Some m \<Rightarrow> m\<lparr>tm_name := n\<rparr>"
  assume ok: "cp_ok c"
    and "(if \<not> (fits c 128 t \<and> fits c 256 n) then Inl ''value too long for tenants''
      else Inr ((), c\<lparr>cp_tenants := dict_set t ?row (cp_tenants c)\<rparr>)) = Inr (x, c')"
  then have c': "c' = c\<lparr>cp_tenants := dict_set t ?row (cp_tenants c)\<rparr>" by (auto split: if_splits)
  have "tm_id ?row = t" using ok by (auto simp: cp_ok_def split: option.splits dest: keyed_get)
  with ok show "cp_ok c'"
    by (auto simp: cp_ok_def c' intro!: keyed_set intro: keyed_mono [OF _ tenant_known_set])
qed

lemma upsert_principal_ok: "cp_ok c \<Longrightarrow> cp_ok (snd (upsert_principal p c))"
  unfolding upsert_principal_def
  by (erule cp_ok_transact)
    (auto simp: Let_def cp_ok_def split: if_splits option.splits intro!: keyed_set)

lemma upsert_tool_call_ok: "cp_ok c \<Longrightarrow> cp_ok (snd (upsert_tool_call r c))"
  unfolding upsert_tool_call_def
  by (erule cp_ok_transact)
    (auto simp: Let_def cp_ok_def tool_call_row_def split: if_splits intro!: keyed_set attempts_ok_replace)

lemma create_approval_ok: "cp_ok c \<Longrightarrow> cp_ok (snd (create_approval a t c))"
  unfolding create_approval_def
  by (erule cp_ok_transact) (auto simp: cp_ok_def split: if_splits intro!: keyed_set)

lemma resolve_approval_ok: "cp_ok c \<Longrightarrow> cp_ok (snd (resolve_approval aid d who why at c))"
  unfolding resolve_approval_def
  by (erule cp_ok_transact)
    (auto simp: cp_ok_def split: if_splits option.splits intro!: keyed_set dest: keyed_get)

lemma unreferenced_ok:
  assumes "cp_ok c"
  shows "cp_ok (snd (put_idempotency_key t k i st c))"
    and "cp_ok (snd (record_policy_version v h u sg c))"
    and "cp_ok (snd (set_configuration ck cv n c))"
proof -
  show "cp_ok (snd (put_idempotency_key t k i st c))"
    unfolding put_idempotency_key_def
    by (rule cp_ok_transact [OF assms]) (auto simp: cp_ok_def split: if_splits)
  show "cp_ok (snd (record_policy_version v h u sg c))"
    unfolding record_policy_version_def
    by (rule cp_ok_transact [OF assms]) (auto simp: cp_ok_def split: if_splits)
  show "cp_ok (snd (set_configuration ck cv n c))"
    unfolding set_configuration_def
    by (rule cp_ok_transact [OF assms]) (auto simp: cp_ok_def split: if_splits)
qed

section \<open>Properties\<close>


definition empty_control_plane :: "bool \<Rightarrow> control_plane" where
  "empty_control_plane postgres = \<lparr>cp_tenants = [], cp_principals = [], cp_tool_calls = [],
     cp_attempts = [], cp_approvals = [], cp_keys = [], cp_policy_versions = [], cp_configurations = [],
     cp_postgres = postgres, cp_up = (\<lambda>i. True), cp_transactions = 0, cp_clock = int\<rparr>"

definition demo_principal :: principal where
  "demo_principal = \<lparr>p_subject = ''alice'', p_tenant_id = ''acme'', p_roles = [USER],
     p_issuer = None, p_agent_id = None\<rparr>"


text \<open>The control plane decides an approval once.  \<open>resolve_approval\<close> returns \<open>True\<close> exactly when
  it recorded the first decision of an existing request; a request that has a decision keeps it,
  whatever operation follows.\<close>

theorem approval_decided_once:
  assumes "dict_get (cp_approvals c) aid = Some a" and "ap_decision (apm_request a) \<noteq> None"
    and "resolve_approval aid' decision approver reason decided_at c = (x, c')"
  shows "dict_get (cp_approvals c') aid = Some a \<and> (aid' = aid \<longrightarrow> x \<noteq> Inr True)"
proof -
  have "dict_get (cp_approvals (snd (resolve_approval aid' decision approver reason decided_at c))) aid = Some a"
    unfolding resolve_approval_def
    by (rule transact_keeps [where P = "\<lambda>c. dict_get (cp_approvals c) aid = Some a"])
      (use assms(1,2) in \<open>auto split: option.splits if_splits\<close>)
  moreover have "x \<noteq> Inr True" if "aid' = aid"
    using assms that by (auto simp: resolve_approval_def transact_def Let_def split: if_splits option.splits)
  ultimately show ?thesis using assms(3) by simp
qed

definition demo_approval :: approval_request where
  "demo_approval = \<lparr>ap_approval_id = ''a1'', ap_call_id = ''c1'', ap_tool_name = ''shell_exec'',
     ap_arguments = [], ap_policy_input = [], ap_matched_rule = ''mutating_tool'', ap_created_at = 0,
     ap_decision = Some ''rejected'', ap_approver = Some ''bob'', ap_reason = Some ''no''\<rparr>"

theorem approval_decided_once_witness:
  "let c = snd (create_approval demo_approval None (empty_control_plane True));
       c' = snd (resolve_approval ''a1'' ''approved'' ''eve'' ''please'' 5 c)
   in map_option (ap_decision \<circ> apm_request) (dict_get (cp_approvals c') ''a1'') = Some (Some ''rejected'')"
proof -
  let ?c = "snd (create_approval demo_approval None (empty_control_plane True))"
  have "dict_get (cp_approvals ?c) ''a1'' =
      Some \<lparr>apm_tenant_id = None, apm_request = demo_approval, apm_decided_at = None\<rparr>"
    by (simp add: create_approval_def transact_def empty_control_plane_def demo_approval_def fits_def
        fits_opt_def tenant_known_def Let_def)
  from approval_decided_once [OF this _ surjective_pairing] show ?thesis
    by (simp add: Let_def demo_approval_def)
qed

text \<open>A call's attempts are stored and read back.  After a committed \<open>upsert_tool_call\<close>,
  \<open>list_attempts\<close> returns the attempts of the record, in the order of their numbers, and the
  attempts of other calls are what they were.\<close>

theorem attempts_roundtrip:
  assumes "upsert_tool_call r c = (Inr (), c')" and "cp_up c' (cp_transactions c')"
  shows "fst (list_attempts (tc_call_id r) c') = Inr (sort_key ar_attempt (tc_attempts r)) \<and>
    filter (\<lambda>a. atm_call_id a \<noteq> tc_call_id r) (cp_attempts c') =
      filter (\<lambda>a. atm_call_id a \<noteq> tc_call_id r) (cp_attempts c)"
proof -
  have att: "cp_attempts c' = filter (\<lambda>a. atm_call_id a \<noteq> tc_call_id r) (cp_attempts c) @
      map (\<lambda>a. \<lparr>atm_call_id = tc_call_id r, atm_attempt = a\<rparr>) (tc_attempts r)"
    using transact_Inr [OF assms(1) [unfolded upsert_tool_call_def]]
    by (auto simp: Let_def split: if_splits)
  have "map atm_attempt (filter (\<lambda>a. atm_call_id a = tc_call_id r) (cp_attempts c')) = tc_attempts r"
    by (simp add: att filter_map comp_def)
  with assms(2) show ?thesis
    by (simp add: list_attempts_def transact_def Let_def att filter_map comp_def)
qed

definition retried_call :: tool_call_record where
  "retried_call = \<lparr>tc_call_id = ''c1'', tc_trace_id = ''t1'', tc_session_id = ''s1'',
     tc_tool_name = ''db_query'', tc_risk_class = Some READ_ONLY, tc_arguments = [],
     tc_current_state = EXECUTING, tc_transitions = [],
     tc_attempts = map (\<lambda>n. \<lparr>ar_attempt = n, ar_started_at = 0, ar_finished_at = None, ar_outcome = None,
       ar_error = None\<rparr>) [1, 2],
     tc_created_at = 0, tc_updated_at = 0, tc_principal = None\<rparr>"

theorem attempts_roundtrip_witness:
  "fst (list_attempts ''c1'' (snd (upsert_tool_call retried_call (empty_control_plane True)))) =
     Inr (tc_attempts retried_call)"
proof -
  obtain c' where c': "upsert_tool_call retried_call (empty_control_plane True) = (Inr (), c')"
      "cp_up c' (cp_transactions c')"
    by (simp add: upsert_tool_call_def transact_def empty_control_plane_def retried_call_def Let_def
        tool_call_row_def tenant_known_def fits_def fits_opt_def)
  from attempts_roundtrip [OF c'] c'(1) show ?thesis by (simp add: retried_call_def)
qed

text \<open>A tenant identifier that \<open>Principal\<close> admits can be too long for the control plane.  With
  more than 128 characters the tenant row is refused on PostgreSQL, so no call of such a caller
  gets past the persistence step.\<close>

theorem long_tenant_is_refused:
  assumes "cp_postgres c" and "128 < length tenant_id"
  shows "\<exists>e. fst (upsert_tenant tenant_id name c) = Inl e"
  using assms by (auto simp: upsert_tenant_def transact_def fits_def Let_def)

definition long_tenant :: principal where
  "long_tenant = demo_principal\<lparr>p_tenant_id := replicate 200 (CHR ''t'')\<rparr>"

theorem long_tenant_is_refused_witness:
  "principal_ok long_tenant \<and>
   (\<exists>e. fst (upsert_tenant (p_tenant_id long_tenant) (p_tenant_id long_tenant) (empty_control_plane True)) = Inl e)"
  using long_tenant_is_refused [of "empty_control_plane True" "p_tenant_id long_tenant" "p_tenant_id long_tenant"]
  by (simp add: long_tenant_def demo_principal_def principal_ok_def empty_control_plane_def)

end
