(* ===== verification/Server.thy ===== *)
theory Server
  imports State_Store Approval Policy Advisor Audit_Log Control_Plane
begin

text \<open>
  The request pipeline (\<open>gateway/server.py\<close>): \<open>execute_tool_call\<close> with its nested functions, and the
  discovery results.  The state of a gateway task is a record of its components' states; the
  variables that the nested functions share (\<open>nonlocal\<close>) are the record \<open>gw_locals\<close>.  The state of
  the retry loop's environment (clock, random numbers, sleeps) stands beside it.  The component
  operations are lifted to this state by \<open>on_store\<close>, \<open>on_queue\<close>, \<open>on_ext\<close>, \<open>on_audit\<close> and \<open>on_cp\<close>.

  \<open>gw_log\<close> is a history variable, newest event first: the model writes the policy evaluations,
  released approvals, proposals and executions to it and never reads it.  Spans are added in
  \<open>Tracing\<close>; log lines and context variables of structlog have no effect on the state and are left out.
\<close>

section \<open>Results and discovery\<close>

record call_tool_result =
  cr_text :: string
  cr_structured :: jdict
  cr_is_error :: bool

definition tool_result :: "jdict \<Rightarrow> bool \<Rightarrow> call_tool_result" where
  "tool_result payload is_error =
     \<lparr>cr_text = json_dumps (JObj payload), cr_structured = payload, cr_is_error = is_error\<rparr>"

record tool_annotations =
  ta_read_only_hint :: bool
  ta_destructive_hint :: bool
  ta_idempotent_hint :: bool
  ta_open_world_hint :: bool

definition annotations_for :: "'x tool_definition \<Rightarrow> tool_annotations" where
  "annotations_for d =
     (if td_risk_class d = READ_ONLY
      then \<lparr>ta_read_only_hint = True, ta_destructive_hint = False, ta_idempotent_hint = td_idempotent d,
            ta_open_world_hint = False\<rparr>
      else \<lparr>ta_read_only_hint = False, ta_destructive_hint = (td_risk_class d = DESTRUCTIVE),
            ta_idempotent_hint = False, ta_open_world_hint = False\<rparr>)"

record mcp_tool_info =
  mt_name :: string
  mt_description :: string
  mt_input_schema :: jdict
  mt_output_schema :: jdict
  mt_annotations :: tool_annotations
  mt_meta :: "(string, string) dict"

definition mcp_tool :: "'x tool_definition \<Rightarrow> mcp_tool_info" where
  "mcp_tool d = \<lparr>mt_name = td_name d, mt_description = td_description d,
     mt_input_schema = td_input_schema d, mt_output_schema = td_output_schema d,
     mt_annotations = annotations_for d, mt_meta = [(''gateway/riskClass'', risk_value (td_risk_class d))]\<rparr>"

definition mcp_list_tools :: "'x tool_registry \<Rightarrow> mcp_tool_info list" where
  "mcp_list_tools reg = map mcp_tool (list_tools reg)"

section \<open>The state of a gateway task\<close>

datatype gw_event =
    EvPolicy jdict policy_decision
  | EvSubmitted approval_request
  | EvReleased string approval_request
  | EvProposed jdict jdict
  | EvExecuted string jdict

record call_locals =
  cl_latest_attempt :: nat
  cl_last_finished_attempt :: nat
  cl_policy_outcome :: string
  cl_policy_input :: jdict
  cl_matched_rule :: "string option"
  cl_approver_identity :: "string option"
  cl_repair_attempts :: "repair_attempt_record list"

definition initial_locals :: call_locals where
  "initial_locals = \<lparr>cl_latest_attempt = 1, cl_last_finished_attempt = 1,
     cl_policy_outcome = ''not_evaluated'', cl_policy_input = [], cl_matched_rule = None,
     cl_approver_identity = None, cl_repair_attempts = []\<rparr>"

record ('s, 'q, 'x) gw =
  gw_store :: 's
  gw_queue :: 'q
  gw_outside :: 'x
  gw_audit :: audit_log
  gw_cp :: control_plane
  gw_uid :: "nat \<Rightarrow> string"
  gw_uids :: nat
  gw_clock :: "nat \<Rightarrow> timestamp"
  gw_ticks :: nat
  gw_locals :: call_locals
  gw_log :: "gw_event list"

type_synonym ('s, 'q, 'x) world = "('s, 'q, 'x) gw \<times> loop_env"
type_synonym ('s, 'q, 'x, 'a) gio = "(('s, 'q, 'x) world, 'a) aio"

text \<open>
  The parameters of \<open>execute_tool_call\<close>.  \<open>gc_set_context\<close> binds the worker context variable, which
  the handlers of a worker proxy read; \<open>gc_float_text\<close> is the text Python prints for a duration.
\<close>

record ('s, 'q, 'x) gateway =
  gc_registry :: "'x tool_registry"
  gc_store :: "'s state_store"
  gc_policy_client :: "'x policy_client option"
  gc_approval_queue :: "'q approval_queue option"
  gc_audit_logger :: "audit_codec option"
  gc_sandbox_runtime :: string
  gc_repair_advisor :: "'x repair_advisor option"
  gc_control_plane :: bool
  gc_set_context :: "(string \<times> string) option \<Rightarrow> 'x \<Rightarrow> 'x"
  gc_float_text :: "rat \<Rightarrow> string"

text \<open>What is fixed at the start of a call.\<close>

record call_env =
  ce_call_id :: string
  ce_trace_id :: string
  ce_session_id :: string
  ce_tool_name :: string
  ce_arguments :: "jdict option"
  ce_principal :: "principal option"
  ce_started :: rat

definition on_store :: "('s, 'a) aio \<Rightarrow> ('s, 'q, 'x, 'a) gio" where
  "on_store m = (\<lambda>(g, t). case m (gw_store g) of (r, s) \<Rightarrow> (r, (g\<lparr>gw_store := s\<rparr>, t)))"

definition on_queue :: "('q, 'a) aio \<Rightarrow> ('s, 'q, 'x, 'a) gio" where
  "on_queue m = (\<lambda>(g, t). case m (gw_queue g) of (r, s) \<Rightarrow> (r, (g\<lparr>gw_queue := s\<rparr>, t)))"

definition on_ext :: "('x, 'a) aio \<Rightarrow> ('s, 'q, 'x, 'a) gio" where
  "on_ext m = (\<lambda>(g, t). case m (gw_outside g) of (r, s) \<Rightarrow> (r, (g\<lparr>gw_outside := s\<rparr>, t)))"

definition on_audit :: "(audit_log, 'a) aio \<Rightarrow> ('s, 'q, 'x, 'a) gio" where
  "on_audit m = (\<lambda>(g, t). case m (gw_audit g) of (r, s) \<Rightarrow> (r, (g\<lparr>gw_audit := s\<rparr>, t)))"

definition on_cp :: "(control_plane, 'a) aio \<Rightarrow> ('s, 'q, 'x, 'a) gio" where
  "on_cp m = (\<lambda>(g, t). case m (gw_cp g) of (r, s) \<Rightarrow> (r, (g\<lparr>gw_cp := s\<rparr>, t)))"

definition uuid4 :: "('s, 'q, 'x, string) gio" where
  "uuid4 = (\<lambda>(g, t). (Inr (gw_uid g (gw_uids g)), (g\<lparr>gw_uids := Suc (gw_uids g)\<rparr>, t)))"

definition utc_now :: "('s, 'q, 'x, timestamp) gio" where
  "utc_now = (\<lambda>(g, t). (Inr (gw_clock g (gw_ticks g)), (g\<lparr>gw_ticks := Suc (gw_ticks g)\<rparr>, t)))"

definition monotonic :: "('s, 'q, 'x, rat) gio" where
  "monotonic = (\<lambda>(g, t). (Inr (le_clock t (le_ticks t)), (g, t\<lparr>le_ticks := Suc (le_ticks t)\<rparr>)))"

definition locals :: "('s, 'q, 'x, call_locals) gio" where
  "locals = gets_io (\<lambda>(g, t). gw_locals g)"

definition set_locals :: "(call_locals \<Rightarrow> call_locals) \<Rightarrow> ('s, 'q, 'x, unit) gio" where
  "set_locals f = modify_io (\<lambda>(g, t). (g\<lparr>gw_locals := f (gw_locals g)\<rparr>, t))"

definition log_event :: "gw_event \<Rightarrow> ('s, 'q, 'x, unit) gio" where
  "log_event ev = modify_io (\<lambda>(g, t). (g\<lparr>gw_log := ev # gw_log g\<rparr>, t))"

text \<open>Assigning to a field of \<open>repair_attempts[-1]\<close>, when there is one.\<close>

definition update_last :: "(repair_attempt_record \<Rightarrow> repair_attempt_record) \<Rightarrow> call_locals \<Rightarrow> call_locals" where
  "update_last f l = l\<lparr>cl_repair_attempts := (case cl_repair_attempts l of [] \<Rightarrow> []
     | rs \<Rightarrow> butlast rs @ [f (last rs)])\<rparr>"

definition append_repair :: "repair_attempt_record \<Rightarrow> call_locals \<Rightarrow> call_locals" where
  "append_repair r l = l\<lparr>cl_repair_attempts := cl_repair_attempts l @ [r]\<rparr>"

section \<open>Terminal steps\<close>

abbreviation active_policy_client :: "('s, 'q, 'x) gateway \<Rightarrow> 'x policy_client" where
  "active_policy_client G \<equiv> (case gc_policy_client G of None \<Rightarrow> AllowAllPolicyClient | Some c \<Rightarrow> c)"

abbreviation call_arguments :: "call_env \<Rightarrow> jdict" where
  "call_arguments e \<equiv> (case ce_arguments e of None \<Rightarrow> [] | Some a \<Rightarrow> a)"

text \<open>\<open>except Exception\<close>: a cancellation passes through.\<close>

definition except_exception :: "('s, 'q, 'x, 'a) gio \<Rightarrow> ('s, 'q, 'x, 'a) gio \<Rightarrow> ('s, 'q, 'x, 'a) gio" where
  "except_exception m h = catch_io m (\<lambda>x. if is_exception x then h else raise_io x)"

definition audited_attempts :: "('s, 'q, 'x) gateway \<Rightarrow> call_env \<Rightarrow>
    ('s, 'q, 'x, attempt_record list) gio" where
  "audited_attempts G e = catch_io
     (bind_io (on_store (ss_get_call (gc_store G) (ce_call_id e))) (\<lambda>current. case current of
        None \<Rightarrow> ret []
      | Some r \<Rightarrow> bind_io
          (when_io (gc_control_plane G) (except_exception (on_cp (upsert_tool_call r)) (ret ())))
          (\<lambda>u. ret (tc_attempts r))))
     (\<lambda>x. if x = unavailable then ret [] else raise_io x)"

definition write_audit :: "('s, 'q, 'x) gateway \<Rightarrow> call_env \<Rightarrow> string \<Rightarrow> ('s, 'q, 'x, unit) gio" where
  "write_audit G e outcome = (case gc_audit_logger G of
       None \<Rightarrow> ret ()
     | Some codec \<Rightarrow>
         bind_io (audited_attempts G e) (\<lambda>attempts.
         bind_io locals (\<lambda>l. bind_io monotonic (\<lambda>now.
         except_exception
           (bind_io (on_audit (audit_append codec
              \<lparr>af_call_id = ce_call_id e, af_session_id = ce_session_id e, af_trace_id = ce_trace_id e,
               af_tool_name = ce_tool_name e, af_arguments = call_arguments e,
               af_policy_input = Some (cl_policy_input l), af_policy_decision = cl_policy_outcome l,
               af_matched_rule = cl_matched_rule l, af_approver_identity = cl_approver_identity l,
               af_sandbox_runtime = gc_sandbox_runtime G, af_attempts = attempts,
               af_repair_attempts = Some (cl_repair_attempts l), af_outcome = outcome,
               af_duration_ms = gc_float_text G ((now - ce_started e) * 1000),
               af_principal = ce_principal e, af_timestamp = None\<rparr>)) (\<lambda>r. ret ()))
           (ret ())))))"

definition terminal_state :: "gateway_error \<Rightarrow> tool_call_state" where
  "terminal_state err = (if error_code err \<in> set denial_codes then DENIED else FAILED)"

definition terminal_outcome :: "gateway_error \<Rightarrow> string" where
  "terminal_outcome err = (if terminal_state err = DENIED then ''denied'' else ''failed'')"

definition fail_call :: "('s, 'q, 'x) gateway \<Rightarrow> call_env \<Rightarrow> gateway_error \<Rightarrow>
    ('s, 'q, 'x, call_tool_result) gio" where
  "fail_call G e err =
     bind_io (catch_io
       (bind_io (on_store (ss_transition (gc_store G) (ce_call_id e) (terminal_state err)
            (Some (error_message err)))) (\<lambda>u.
        bind_io locals (\<lambda>l.
        bind_io (on_store (ss_finish_attempt (gc_store G) (ce_call_id e) (cl_last_finished_attempt l)
            (terminal_outcome err) (Some (error_message err)))) (\<lambda>u. ret True))))
       (\<lambda>x. if x = unavailable then ret False else raise_io x))
     (\<lambda>stored. if stored
        then bind_io (write_audit G e (terminal_outcome err)) (\<lambda>u. ret (tool_result (dump_error err) True))
        else ret (tool_result (dump_error StateStoreUnavailableError) True))"

section \<open>Validation with repair\<close>

definition repairable :: "repair_failure \<Rightarrow> bool" where
  "repairable c = (c \<in> {SCHEMA_MISMATCH, MALFORMED_JSON, MISSING_REQUIRED_FIELD, TYPE_COERCION})"

text \<open>Ask the advisor, record the proposal and validate it; the proposal and its validated form.\<close>

definition propose_repair :: "('s, 'q, 'x) gateway \<Rightarrow> call_env \<Rightarrow> 'x repair_advisor \<Rightarrow> jdict \<Rightarrow> jdict \<Rightarrow>
    failure_diagnosis \<Rightarrow> ('s, 'q, 'x, jdict \<times> jdict) gio" where
  "propose_repair G e advisor arguments schema d =
     bind_io (on_ext (advisor (ce_tool_name e) arguments schema d)) (\<lambda>proposed.
     bind_io (log_event (EvProposed arguments proposed)) (\<lambda>u.
     bind_io (set_locals (append_repair \<lparr>rr_category = fd_category d, rr_original_arguments = arguments,
         rr_proposed_arguments = proposed, rr_validation_passed = False, rr_policy_outcome = None,
         rr_outcome = ''proposed''\<rparr>)) (\<lambda>u.
     case registry_validate (gc_registry G) (ce_tool_name e) proposed of
       Inl x \<Rightarrow> bind_io (set_locals (update_last (\<lambda>r. r\<lparr>rr_outcome := ''validation_failed''\<rparr>)))
         (\<lambda>u. raise_io x)
     | Inr validated \<Rightarrow>
         bind_io (set_locals (update_last (\<lambda>r. r\<lparr>rr_validation_passed := True, rr_outcome := ''validated''\<rparr>)))
           (\<lambda>u. ret (proposed, validated)))))"

definition validate_request :: "('s, 'q, 'x) gateway \<Rightarrow> call_env \<Rightarrow> ('s, 'q, 'x, jdict) gio" where
  "validate_request G e =
     (case registry_validate (gc_registry G) (ce_tool_name e) (call_arguments e) of
        Inr request \<Rightarrow> ret request
      | Inl x \<Rightarrow> (let d = diagnose x in
          case gc_repair_advisor G of
            None \<Rightarrow> raise_io x
          | Some advisor \<Rightarrow>
              if \<not> repairable (fd_category d) then raise_io x
              else bind_io (lift_res (registry_get (gc_registry G) (ce_tool_name e))) (\<lambda>definition.
                bind_io (propose_repair G e advisor (call_arguments e) (td_input_schema definition) d)
                  (\<lambda>(proposed, validated). ret validated))))"

definition validate_phase :: "('s, 'q, 'x) gateway \<Rightarrow> call_env \<Rightarrow> ('s, 'q, 'x, jdict) gio" where
  "validate_phase G e =
     bind_io (validate_request G e) (\<lambda>request.
     bind_io (on_store (ss_transition (gc_store G) (ce_call_id e) VALIDATED None)) (\<lambda>u. ret request))"

section \<open>Policy and approval\<close>

definition policy_input_for :: "string \<Rightarrow> principal option \<Rightarrow> 'x tool_definition \<Rightarrow> jdict \<Rightarrow> jdict" where
  "policy_input_for tool_name who definition arguments =
     [(''tool_name'', JStr tool_name), (''risk_class'', JStr (risk_value (td_risk_class definition))),
      (''arguments'', JObj arguments),
      (''principal'', JObj (case who of
          Some p \<Rightarrow> dump_principal p
        | None \<Rightarrow> [(''subject'', JStr ''anonymous''), (''tenant_id'', JStr ''local''),
            (''roles'', JList [JStr ''admin''])]))]"

definition evaluate_policy :: "('s, 'q, 'x) gateway \<Rightarrow> jdict \<Rightarrow> ('s, 'q, 'x, policy_decision) gio" where
  "evaluate_policy G policy_input =
     bind_io (on_ext (pc_evaluate (active_policy_client G) policy_input)) (\<lambda>decision.
     bind_io (log_event (EvPolicy policy_input decision)) (\<lambda>u. ret decision))"

text \<open>The transition and the finished attempt that precede a refusal.\<close>

definition record_denial :: "('s, 'q, 'x) gateway \<Rightarrow> call_env \<Rightarrow> string \<Rightarrow> ('s, 'q, 'x, unit) gio" where
  "record_denial G e reason =
     bind_io (on_store (ss_transition (gc_store G) (ce_call_id e) DENIED (Some reason))) (\<lambda>u.
       on_store (ss_finish_attempt (gc_store G) (ce_call_id e) 1 ''denied'' (Some reason)))"

fun approval_refused :: "exn \<Rightarrow> bool" where
  "approval_refused (GatewayExn ApprovalTimeoutError) = True"
| "approval_refused (GatewayExn (ApprovalRejectedError m)) = True"
| "approval_refused _ = False"

text \<open>\<open>value or default\<close> for an optional text.\<close>

definition or_text :: "string option \<Rightarrow> string \<Rightarrow> string" where
  "or_text v other = (case v of None \<Rightarrow> other | Some t \<Rightarrow> if t = [] then other else t)"

definition await_approval :: "('s, 'q, 'x) gateway \<Rightarrow> call_env \<Rightarrow> jdict \<Rightarrow> jdict \<Rightarrow> policy_decision \<Rightarrow>
    ('s, 'q, 'x, unit) gio" where
  "await_approval G e request policy_input decision = (case gc_approval_queue G of
       None \<Rightarrow> raise_io (GatewayExn (PolicyDeniedError ''Approval is required but no approval queue is configured''))
     | Some Q \<Rightarrow>
         bind_io uuid4 (\<lambda>uid. bind_io utc_now (\<lambda>now.
         let approval = create_approval_request uid now (ce_call_id e) (ce_tool_name e) request policy_input
               (pd_matched_rule decision) in
         bind_io (on_store (ss_transition (gc_store G) (ce_call_id e) AWAITING_APPROVAL None)) (\<lambda>u.
         bind_io (on_queue (aq_submit Q approval)) (\<lambda>u.
         bind_io (log_event (EvSubmitted approval)) (\<lambda>u.
         bind_io (when_io (gc_control_plane G)
             (on_cp (create_approval approval (map_option p_tenant_id (ce_principal e))))) (\<lambda>u.
         bind_io (catch_io (on_queue (aq_wait Q uid))
             (\<lambda>x. if approval_refused x
                then bind_io (record_denial G e (pd_reason decision)) (\<lambda>u. raise_io x)
                else raise_io x)) (\<lambda>resolved.
         bind_io (log_event (EvReleased uid resolved)) (\<lambda>u.
         bind_io (set_locals (\<lambda>l. l\<lparr>cl_approver_identity := ap_approver resolved\<rparr>)) (\<lambda>u.
         when_io (gc_control_plane G)
           (bind_io utc_now (\<lambda>decided_at.
            bind_io (on_cp (resolve_approval uid (or_text (ap_decision resolved) ''approved'')
               (or_text (ap_approver resolved) ''unknown'') (or_text (ap_reason resolved) []) decided_at))
              (\<lambda>b. ret ())))))))))))))"

definition policy_phase :: "('s, 'q, 'x) gateway \<Rightarrow> call_env \<Rightarrow> jdict \<Rightarrow>
    ('s, 'q, 'x, 'x tool_definition) gio" where
  "policy_phase G e request =
     bind_io (lift_res (registry_get (gc_registry G) (ce_tool_name e))) (\<lambda>definition.
     let policy_input = policy_input_for (ce_tool_name e) (ce_principal e) definition request in
     bind_io (set_locals (\<lambda>l. l\<lparr>cl_policy_input := policy_input\<rparr>)) (\<lambda>u.
     bind_io (evaluate_policy G policy_input) (\<lambda>decision.
     bind_io (set_locals (\<lambda>l. update_last (\<lambda>r. (if pd_outcome decision = ALLOW then id
           else (\<lambda>r. r\<lparr>rr_outcome := ''policy_denied''\<rparr>)) (r\<lparr>rr_policy_outcome := Some (pd_outcome decision)\<rparr>))
         (l\<lparr>cl_policy_outcome := pd_outcome decision, cl_matched_rule := Some (pd_matched_rule decision)\<rparr>))) (\<lambda>u.
     bind_io (on_store (ss_transition (gc_store G) (ce_call_id e) POLICY_CHECKED None)) (\<lambda>u.
     bind_io
       (if pd_outcome decision = REQUIRES_APPROVAL then await_approval G e request policy_input decision
        else if pd_outcome decision \<noteq> ALLOW
        then bind_io (record_denial G e (pd_reason decision))
          (\<lambda>u. raise_io (GatewayExn (PolicyDeniedError (pd_reason decision))))
        else ret ())
       (\<lambda>u. ret definition))))))"

section \<open>Execution\<close>

text \<open>Later attempts are validated and evaluated by the policy again.\<close>

definition recheck_policy :: "('s, 'q, 'x) gateway \<Rightarrow> call_env \<Rightarrow> 'x tool_definition \<Rightarrow> jdict \<Rightarrow>
    ('s, 'q, 'x, unit) gio" where
  "recheck_policy G e definition arguments =
     bind_io (lift_res (registry_validate (gc_registry G) (ce_tool_name e) arguments)) (\<lambda>repaired.
     bind_io (evaluate_policy G (policy_input_for (ce_tool_name e) (ce_principal e) definition repaired)) (\<lambda>decision.
     bind_io (set_locals (update_last (\<lambda>r. r\<lparr>rr_policy_outcome := Some (pd_outcome decision)\<rparr>))) (\<lambda>u.
     when_io (pd_outcome decision \<noteq> ALLOW)
       (bind_io (set_locals (update_last (\<lambda>r. r\<lparr>rr_outcome := ''policy_denied''\<rparr>)))
         (\<lambda>u. raise_io (GatewayExn (PolicyDeniedError ''Repaired arguments were denied by policy'')))))))"

definition run_tool :: "('s, 'q, 'x) gateway \<Rightarrow> call_env \<Rightarrow> jdict \<Rightarrow> ('s, 'q, 'x, jdict) gio" where
  "run_tool G e arguments =
     bind_io (lift_res (registry_validate (gc_registry G) (ce_tool_name e) arguments)) (\<lambda>validated.
     bind_io (log_event (EvExecuted (ce_tool_name e) validated)) (\<lambda>u.
     bind_io (modify_io (\<lambda>(g, t). (g\<lparr>gw_outside := gc_set_context G (Some (ce_call_id e,
         case ce_principal e of Some p \<Rightarrow> p_tenant_id p | None \<Rightarrow> ''local'')) (gw_outside g)\<rparr>, t))) (\<lambda>u.
     finally_io (on_ext (registry_execute_validated (gc_registry G) (ce_tool_name e) validated))
       (\<lambda>(g, t). (g\<lparr>gw_outside := gc_set_context G None (gw_outside g)\<rparr>, t)))))"

text \<open>The guarded part of an attempt and its \<open>except GatewayError\<close>.\<close>

definition attempt_body :: "('s, 'q, 'x) gateway \<Rightarrow> call_env \<Rightarrow> 'x tool_definition \<Rightarrow> nat \<Rightarrow> jdict \<Rightarrow>
    ('s, 'q, 'x, jdict) gio" where
  "attempt_body G e definition attempt_number arguments = catch_io
     (bind_io (when_io (1 < attempt_number) (recheck_policy G e definition arguments)) (\<lambda>u.
      bind_io (run_tool G e arguments) (\<lambda>result.
      bind_io (on_store (ss_finish_attempt (gc_store G) (ce_call_id e) attempt_number ''succeeded'' None))
        (\<lambda>u. ret result))))
     (\<lambda>x. case x of
        GatewayExn err \<Rightarrow> bind_io (on_store (ss_finish_attempt (gc_store G) (ce_call_id e) attempt_number
          ''failed'' (Some (error_message err)))) (\<lambda>u. raise_io x)
      | _ \<Rightarrow> raise_io x)"

definition execute_attempt :: "('s, 'q, 'x) gateway \<Rightarrow> call_env \<Rightarrow> 'x tool_definition \<Rightarrow> jdict \<Rightarrow>
    ('s, 'q, 'x, jdict) gio" where
  "execute_attempt G e definition arguments =
     bind_io locals (\<lambda>l. let attempt_number = cl_latest_attempt l in
     bind_io (when_io (1 < attempt_number)
         (on_store (ss_start_attempt (gc_store G) (ce_call_id e) attempt_number))) (\<lambda>u.
     bind_io (on_store (ss_transition (gc_store G) (ce_call_id e) EXECUTING None)) (\<lambda>u.
     finally_io (attempt_body G e definition attempt_number arguments)
       (\<lambda>(g, t). (g\<lparr>gw_locals := (gw_locals g)\<lparr>cl_last_finished_attempt := attempt_number,
          cl_latest_attempt := Suc (cl_latest_attempt (gw_locals g))\<rparr>\<rparr>, t)))))"

definition repair_arguments :: "('s, 'q, 'x) gateway \<Rightarrow> call_env \<Rightarrow> 'x tool_definition \<Rightarrow> jdict \<Rightarrow>
    failure_diagnosis \<Rightarrow> ('s, 'q, 'x, jdict) gio" where
  "repair_arguments G e definition arguments d = (case gc_repair_advisor G of
       None \<Rightarrow> raise_io (GatewayExn (ToolExecutionError ''No repair advisor is configured for this tool call''))
     | Some advisor \<Rightarrow>
         bind_io (propose_repair G e advisor arguments (td_input_schema definition) d)
           (\<lambda>(proposed, validated). ret proposed))"

definition repair_context_for :: "call_env \<Rightarrow> 'x tool_definition \<Rightarrow> repair_context" where
  "repair_context_for e definition = \<lparr>rx_risk_class = td_risk_class definition,
     rx_idempotent = td_idempotent definition, rx_tool_name = ce_tool_name e,
     rx_tool_schema = Some (td_input_schema definition)\<rparr>"

section \<open>The pipeline\<close>

definition execution_phase :: "('s, 'q, 'x) gateway \<Rightarrow> call_env \<Rightarrow> jdict \<Rightarrow> 'x tool_definition \<Rightarrow>
    ('s, 'q, 'x, call_tool_result) gio" where
  "execution_phase G e request definition =
     bind_io (run (RepairLoop default_backoff) request (execute_attempt G e definition)
         (repair_context_for e definition)
         (case gc_repair_advisor G of None \<Rightarrow> None | Some a \<Rightarrow> Some (repair_arguments G e definition))) (\<lambda>(output, n).
     bind_io (on_store (ss_transition (gc_store G) (ce_call_id e) SUCCEEDED None)) (\<lambda>u.
     bind_io (write_audit G e ''succeeded'') (\<lambda>u.
     ret (tool_result output False))))"

definition process_call :: "('s, 'q, 'x) gateway \<Rightarrow> call_env \<Rightarrow> ('s, 'q, 'x, call_tool_result) gio" where
  "process_call G e =
     bind_io (validate_phase G e) (\<lambda>request.
     bind_io (policy_phase G e request) (\<lambda>definition.
     execution_phase G e request definition))"

text \<open>The two handlers at the end of \<open>execute_tool_call\<close>.\<close>

definition settle_call :: "('s, 'q, 'x) gateway \<Rightarrow> call_env \<Rightarrow> ('s, 'q, 'x, call_tool_result) gio" where
  "settle_call G e = catch_io (process_call G e) (\<lambda>x. case x of
       GatewayExn err \<Rightarrow> fail_call G e err
     | PyExn c m \<Rightarrow> fail_call G e (ToolExecutionError ''The tool failed unexpectedly'')
     | CancelledExn \<Rightarrow> raise_io x)"

definition new_record :: "call_env \<Rightarrow> risk_class option \<Rightarrow> timestamp \<Rightarrow> tool_call_record" where
  "new_record e risk now = \<lparr>tc_call_id = ce_call_id e, tc_trace_id = ce_trace_id e,
     tc_session_id = ce_session_id e, tc_tool_name = ce_tool_name e, tc_risk_class = risk,
     tc_arguments = call_arguments e, tc_current_state = RECEIVED,
     tc_transitions = [\<lparr>st_state = RECEIVED, st_timestamp = now, st_error = None\<rparr>],
     tc_attempts = [\<lparr>ar_attempt = 1, ar_started_at = now, ar_finished_at = None, ar_outcome = None,
       ar_error = None\<rparr>],
     tc_created_at = now, tc_updated_at = now, tc_principal = ce_principal e\<rparr>"

definition persist_call :: "('s, 'q, 'x) gateway \<Rightarrow> call_env \<Rightarrow> tool_call_record \<Rightarrow> ('s, 'q, 'x, unit) gio" where
  "persist_call G e record = when_io (gc_control_plane G)
     (bind_io (case ce_principal e of None \<Rightarrow> ret ()
        | Some p \<Rightarrow> bind_io (on_cp (upsert_tenant (p_tenant_id p) (p_tenant_id p)))
            (\<lambda>u. on_cp (upsert_principal p)))
      (\<lambda>u. on_cp (upsert_tool_call record)))"

definition execute_tool_call :: "('s, 'q, 'x) gateway \<Rightarrow> string \<Rightarrow> string \<Rightarrow> string \<Rightarrow> jdict option \<Rightarrow>
    principal option \<Rightarrow> ('s, 'q, 'x, call_tool_result) gio" where
  "execute_tool_call G trace_id session_id tool_name arguments who =
     bind_io uuid4 (\<lambda>call_id. bind_io monotonic (\<lambda>started.
     let e = \<lparr>ce_call_id = call_id, ce_trace_id = trace_id, ce_session_id = session_id,
           ce_tool_name = tool_name, ce_arguments = arguments, ce_principal = who,
           ce_started = started\<rparr>;
         risk = (case registry_get (gc_registry G) tool_name of Inl x \<Rightarrow> None
           | Inr definition \<Rightarrow> Some (td_risk_class definition))
     in bind_io utc_now (\<lambda>now.
     bind_io (catch_io (bind_io (on_store (ss_create_call (gc_store G) (new_record e risk now))) (\<lambda>u. ret None))
         (\<lambda>x. if x = unavailable then ret (Some (tool_result (dump_error StateStoreUnavailableError) True))
            else raise_io x)) (\<lambda>early. case early of
       Some result \<Rightarrow> ret result
     | None \<Rightarrow>
         bind_io (except_exception (bind_io (persist_call G e (new_record e risk now)) (\<lambda>u. ret None))
           (ret (Some (tool_result (dump_error
              (ToolExecutionError ''Durable control-plane persistence is unavailable'')) True)))) (\<lambda>early. case early of
           Some result \<Rightarrow> ret result
         | None \<Rightarrow> bind_io (set_locals (\<lambda>l. initial_locals)) (\<lambda>u. settle_call G e))))))"

section \<open>Lifted operations\<close>

lemmas lift_defs = on_store_def on_queue_def on_ext_def on_audit_def on_cp_def

lemma keeps_on_store [keeps_rules]: "(\<And>g t s. v (g\<lparr>gw_store := s\<rparr>, t) = v (g, t)) \<Longrightarrow> keeps v (on_store m)"
  by (auto simp: keeps_def on_store_def split: prod.splits)

lemma keeps_on_queue [keeps_rules]: "(\<And>g t s. v (g\<lparr>gw_queue := s\<rparr>, t) = v (g, t)) \<Longrightarrow> keeps v (on_queue m)"
  by (auto simp: keeps_def on_queue_def split: prod.splits)

lemma keeps_on_ext [keeps_rules]: "(\<And>g t s. v (g\<lparr>gw_outside := s\<rparr>, t) = v (g, t)) \<Longrightarrow> keeps v (on_ext m)"
  by (auto simp: keeps_def on_ext_def split: prod.splits)

lemma keeps_on_audit [keeps_rules]: "(\<And>g t s. v (g\<lparr>gw_audit := s\<rparr>, t) = v (g, t)) \<Longrightarrow> keeps v (on_audit m)"
  by (auto simp: keeps_def on_audit_def split: prod.splits)

lemma keeps_on_cp [keeps_rules]: "(\<And>g t s. v (g\<lparr>gw_cp := s\<rparr>, t) = v (g, t)) \<Longrightarrow> keeps v (on_cp m)"
  by (auto simp: keeps_def on_cp_def split: prod.splits)

lemma keeps_uuid4 [keeps_rules]: "(\<And>g t s. v (g\<lparr>gw_uids := s\<rparr>, t) = v (g, t)) \<Longrightarrow> keeps v uuid4"
  by (auto simp: keeps_def uuid4_def)

lemma keeps_utc_now [keeps_rules]: "(\<And>g t s. v (g\<lparr>gw_ticks := s\<rparr>, t) = v (g, t)) \<Longrightarrow> keeps v utc_now"
  by (auto simp: keeps_def utc_now_def)

lemma keeps_monotonic [keeps_rules]: "(\<And>g t s. v (g, t\<lparr>le_ticks := s\<rparr>) = v (g, t)) \<Longrightarrow> keeps v monotonic"
  by (auto simp: keeps_def monotonic_def)

lemma keeps_locals [keeps_rules]: "keeps v locals"
  by (simp add: locals_def keeps_gets)

lemma keeps_set_locals [keeps_rules]:
  "(\<And>g t. v (g\<lparr>gw_locals := f (gw_locals g)\<rparr>, t) = v (g, t)) \<Longrightarrow> keeps v (set_locals f)"
  by (auto simp: set_locals_def intro!: keeps_modify)

lemma keeps_log_event [keeps_rules]:
  "(\<And>g t. v (g\<lparr>gw_log := ev # gw_log g\<rparr>, t) = v (g, t)) \<Longrightarrow> keeps v (log_event ev)"
  by (auto simp: log_event_def intro!: keeps_modify)

lemma keeps_except [keeps_rules]: "keeps v m \<Longrightarrow> keeps v h \<Longrightarrow> keeps v (except_exception m h)"
  by (auto simp: except_exception_def intro!: keeps_rules)

lemma stable_on_store [stable_rules]:
  "stable P m \<Longrightarrow> stable (\<lambda>w. P (gw_store (fst w))) (on_store m)"
  by (auto simp: stable_def on_store_def split: prod.splits)

lemma stable_except [stable_rules]: "stable P m \<Longrightarrow> stable P h \<Longrightarrow> stable P (except_exception m h)"
  by (auto simp: except_exception_def intro!: stable_rules)

lemma hoare_on_store:
  "hoare P m Q E \<Longrightarrow> hoare (\<lambda>w. P (gw_store (fst w))) (on_store m) (\<lambda>x w. Q x (gw_store (fst w)))
     (\<lambda>e w. E e (gw_store (fst w)))"
  by (fastforce simp: hoare_def on_store_def split: prod.splits sum.splits)

lemma hoare_on_queue:
  "hoare P m Q E \<Longrightarrow> hoare (\<lambda>w. P (gw_queue (fst w))) (on_queue m) (\<lambda>x w. Q x (gw_queue (fst w)))
     (\<lambda>e w. E e (gw_queue (fst w)))"
  by (fastforce simp: hoare_def on_queue_def split: prod.splits sum.splits)

lemma update_last_latest [simp]: "cl_latest_attempt (update_last f l) = cl_latest_attempt l"
  "cl_last_finished_attempt (update_last f l) = cl_last_finished_attempt l"
  by (simp_all add: update_last_def)

lemma append_repair_latest [simp]: "cl_latest_attempt (append_repair r l) = cl_latest_attempt l"
  "cl_last_finished_attempt (append_repair r l) = cl_last_finished_attempt l"
  by (simp_all add: append_repair_def)

lemma write_audit_keeps [keeps_rules]:
  assumes "\<And>g t s. v (g\<lparr>gw_store := s\<rparr>, t) = v (g, t)" "\<And>g t s. v (g\<lparr>gw_cp := s\<rparr>, t) = v (g, t)"
    "\<And>g t s. v (g\<lparr>gw_audit := s\<rparr>, t) = v (g, t)" "\<And>g t s. v (g, t\<lparr>le_ticks := s\<rparr>) = v (g, t)"
  shows "keeps v (write_audit G e outcome)"
  by (auto simp: write_audit_def audited_attempts_def assms intro!: keeps_rules)

lemma fail_call_keeps [keeps_rules]:
  assumes "\<And>g t s. v (g\<lparr>gw_store := s\<rparr>, t) = v (g, t)" "\<And>g t s. v (g\<lparr>gw_cp := s\<rparr>, t) = v (g, t)"
    "\<And>g t s. v (g\<lparr>gw_audit := s\<rparr>, t) = v (g, t)" "\<And>g t s. v (g, t\<lparr>le_ticks := s\<rparr>) = v (g, t)"
  shows "keeps v (fail_call G e err)"
  by (auto simp: fail_call_def assms intro!: keeps_rules)

lemma propose_repair_keeps [keeps_rules]:
  assumes "\<And>g t s. v (g\<lparr>gw_outside := s\<rparr>, t) = v (g, t)"
    "\<And>g t p. v (g\<lparr>gw_log := EvProposed a p # gw_log g\<rparr>, t) = v (g, t)"
    "\<And>g t r. v (g\<lparr>gw_locals := append_repair r (gw_locals g)\<rparr>, t) = v (g, t)"
    "\<And>g t f. v (g\<lparr>gw_locals := update_last f (gw_locals g)\<rparr>, t) = v (g, t)"
  shows "keeps v (propose_repair G e advisor a schema d)"
  by (auto simp: propose_repair_def assms intro!: keeps_rules split: sum.splits)

section \<open>The start of a call\<close>

text \<open>What a call that has not been settled leaves alone.\<close>

definition untouched :: "('s, 'q, 'x) gw \<Rightarrow> gw_event list \<times> 'q \<times> 'x \<times> audit_log" where
  "untouched g = (gw_log g, gw_queue g, gw_outside g, gw_audit g)"

lemma persist_keeps: "keeps (\<lambda>w. (untouched (fst w), gw_store (fst w))) (persist_call G e r)"
  by (auto simp: persist_call_def untouched_def intro!: keeps_rules)

lemma persist_phase:
  assumes "except_exception (bind_io (persist_call G e r) (\<lambda>u. ret None)) (ret (Some early)) w = (x, w')"
  shows "untouched (fst w') = untouched (fst w) \<and> gw_store (fst w') = gw_store (fst w) \<and>
    x \<in> {Inr None, Inr (Some early), Inl CancelledExn}"
proof -
  have "keeps (\<lambda>w. (untouched (fst w), gw_store (fst w)))
      (except_exception (bind_io (persist_call G e r) (\<lambda>u. ret None)) (ret (Some early)))"
    by (auto intro!: keeps_rules persist_keeps)
  from keepsD [OF this assms] have "untouched (fst w') = untouched (fst w)" "gw_store (fst w') = gw_store (fst w)"
    by auto
  moreover have "x \<in> {Inr None, Inr (Some early), Inl CancelledExn}"
    using assms
    by (auto simp: except_exception_def catch_io_def bind_io_def ret_def raise_io_def split: prod.splits sum.splits if_splits)
      (metis is_exception.elims(3))
  ultimately show ?thesis by simp
qed

lemma execute_cases:
  assumes "execute_tool_call G tr sid name args who w = (r, w')"
  obtains (unrecorded) x where "fst (ss_create_call (gc_store G) x (gw_store (fst w))) \<noteq> Inr ()"
      "untouched (fst w') = untouched (fst w)" "\<And>res. r = Inr res \<Longrightarrow> cr_is_error res"
  | (unpersisted) e risk now where "gc_control_plane G" "ce_call_id e = gw_uid (fst w) (gw_uids (fst w))"
      "ss_create_call (gc_store G) (new_record e risk now) (gw_store (fst w)) = (Inr (), gw_store (fst w'))"
      "untouched (fst w') = untouched (fst w)"
      "r \<in> {Inr (tool_result (dump_error (ToolExecutionError ''Durable control-plane persistence is unavailable'')) True),
         Inl CancelledExn}"
  | (settled) e risk now w1 where "ce_call_id e = gw_uid (fst w) (gw_uids (fst w))"
      "ce_tool_name e = name" "ce_principal e = who" "ce_arguments e = args" "ce_session_id e = sid"
      "ss_create_call (gc_store G) (new_record e risk now) (gw_store (fst w)) = (Inr (), gw_store (fst w1))"
      "untouched (fst w1) = untouched (fst w)" "gw_locals (fst w1) = initial_locals"
      "settle_call G e w1 = (r, w')"
proof -
  obtain g t where w: "w = (g, t)" by (rule prod.exhaust)
  define e where "e = \<lparr>ce_call_id = gw_uid g (gw_uids g), ce_trace_id = tr, ce_session_id = sid,
     ce_tool_name = name, ce_arguments = args, ce_principal = who, ce_started = le_clock t (le_ticks t)\<rparr>"
  define risk where "risk = (case registry_get (gc_registry G) name of Inl x \<Rightarrow> None
     | Inr d \<Rightarrow> Some (td_risk_class d))"
  define now where "now = gw_clock g (gw_ticks g)"
  define g0 where "g0 = g\<lparr>gw_uids := Suc (gw_uids g), gw_ticks := Suc (gw_ticks g)\<rparr>"
  define t0 where "t0 = t\<lparr>le_ticks := Suc (le_ticks t)\<rparr>"
  obtain c s where c: "ss_create_call (gc_store G) (new_record e risk now) (gw_store g) = (c, s)"
    by (rule prod.exhaust)
  let ?w1 = "(g0\<lparr>gw_store := s\<rparr>, t0)"
  let ?early = "tool_result (dump_error (ToolExecutionError ''Durable control-plane persistence is unavailable'')) True"
  let ?persist = "except_exception (bind_io (persist_call G e (new_record e risk now)) (\<lambda>u. ret None)) (ret (Some ?early))"
  obtain x w2 where p: "?persist ?w1 = (x, w2)" by (rule prod.exhaust)
  note p' = persist_phase [OF p]
  have run: "execute_tool_call G tr sid name args who w = (case c of
      Inl y \<Rightarrow> (if y = unavailable then Inr (tool_result (dump_error StateStoreUnavailableError) True) else Inl y, ?w1)
    | Inr u \<Rightarrow> (case x of Inl y \<Rightarrow> (Inl y, w2) | Inr (Some res) \<Rightarrow> (Inr res, w2)
        | Inr None \<Rightarrow> settle_call G e (snd (set_locals (\<lambda>l. initial_locals) w2))))"
    using c p
    by (auto simp: execute_tool_call_def uuid4_def monotonic_def utc_now_def Let_def bind_io_def catch_io_def
        on_store_def w ret_def raise_io_def e_def risk_def now_def g0_def t0_def set_locals_def modify_io_def
        split: sum.split option.split prod.split)
  show thesis
  proof (cases c)
    case (Inl y)
    with run assms c show thesis
      by (intro unrecorded [of "new_record e risk now"])
        (auto simp: w g0_def untouched_def tool_result_def split: if_splits)
  next
    case (Inr u)
    show thesis
    proof (cases "x = Inr None")
      case True
      obtain g2 t2 where w2: "w2 = (g2, t2)" by (rule prod.exhaust)
      show thesis
        by (rule settled [of e risk now "snd (set_locals (\<lambda>l. initial_locals) w2)"])
          (use run assms c Inr True p' w2 in \<open>auto simp: e_def w g0_def untouched_def set_locals_def modify_io_def\<close>)
    next
      case False
      have cp: "gc_control_plane G"
      proof (rule ccontr)
        assume "\<not> gc_control_plane G"
        then have "?persist ?w1 = (Inr None, ?w1)"
          by (simp add: persist_call_def except_exception_def when_io_def) (simp add: ret_def)
        with p False show False by simp
      qed
      show thesis
        by (rule unpersisted [OF cp, of e risk now])
          (use run assms c Inr False p' in \<open>auto simp: e_def w g0_def untouched_def\<close>)
    qed
  qed
qed

end
