(* ===== verification/Mediation.thy ===== *)
theory Mediation
  imports Server
begin

text \<open>
  Complete mediation: what \<open>execute_tool_call\<close> guarantees about the order of policy decisions,
  approvals and executions, read off the history \<open>gw_log\<close>.  The locale \<open>guarded_call\<close> holds the
  argument; it relies on the laws of the approval queue and on the state store only where the
  pipeline does.
\<close>

section \<open>Authorised executions\<close>

definition approved_in :: "string \<Rightarrow> jdict \<Rightarrow> gw_event list \<Rightarrow> bool" where
  "approved_in name a h = list_ex (\<lambda>ev. case ev of
       EvSubmitted q \<Rightarrow> ap_tool_name q = name \<and> ap_arguments q = a \<and>
         list_ex (\<lambda>ev'. case ev' of EvReleased uid r \<Rightarrow> uid = ap_approval_id q \<and>
            ap_decision r = Some ''approved'' | _ \<Rightarrow> False) h
     | _ \<Rightarrow> False) h"

text \<open>
  The policy was asked about exactly these arguments, for this tool and this principal, and it
  allowed them, or it required an approval and a request with these arguments was approved.
\<close>

definition authorised :: "'x tool_registry \<Rightarrow> principal option \<Rightarrow> string \<Rightarrow> jdict \<Rightarrow> gw_event list \<Rightarrow> bool" where
  "authorised reg who name a h = (case registry_get reg name of
       Inl x \<Rightarrow> False
     | Inr definition \<Rightarrow> list_ex (\<lambda>ev. case ev of
           EvPolicy inp d \<Rightarrow> inp = policy_input_for name who definition a \<and>
             (pd_outcome d = ALLOW \<or> pd_outcome d = REQUIRES_APPROVAL \<and> approved_in name a h)
         | _ \<Rightarrow> False) h)"

text \<open>Every execution in the history (newest event first) was authorised before it.\<close>

fun mediated :: "'x tool_registry \<Rightarrow> principal option \<Rightarrow> gw_event list \<Rightarrow> bool" where
  "mediated reg who [] = True"
| "mediated reg who (EvExecuted name a # h) = (authorised reg who name a h \<and> mediated reg who h)"
| "mediated reg who (_ # h) = mediated reg who h"

fun is_execution :: "gw_event \<Rightarrow> bool" where
  "is_execution (EvExecuted name a) = True"
| "is_execution _ = False"

lemma mediated_other: "\<not> is_execution ev \<Longrightarrow> mediated reg who (ev # h) = mediated reg who h"
  by (cases ev) auto

lemma hoare_result:
  "stable P m \<Longrightarrow> (\<And>w x w'. m w = (Inr x, w') \<Longrightarrow> F x) \<Longrightarrow> hoare P m (\<lambda>x w. P w \<and> F x) (\<lambda>e. P)"
  by (rule hoareI) (blast dest: stableD)+

lemma hoare_bind_stable:
  "stable P m \<Longrightarrow> (\<And>e w. P w \<Longrightarrow> E e w) \<Longrightarrow> (\<And>x. hoare P (f x) Q E) \<Longrightarrow> hoare P (bind_io m f) Q E"
  by (rule hoare_bind [where R = "\<lambda>x. P"]) (auto intro: hoare_post [OF stable_hoare])

lemma yields_bind:
  "(\<And>x. hoare (\<lambda>w. True) (f x) Q (\<lambda>e w. True)) \<Longrightarrow> hoare (\<lambda>w. True) (bind_io m f) Q (\<lambda>e w. True)"
  by (rule hoare_bind [where R = "\<lambda>x w. True"]) (auto simp: hoare_def split: prod.splits sum.splits)

lemma list_ex_later:
  "list_ex f h \<Longrightarrow> set h \<subseteq> set h' \<Longrightarrow> (\<And>x. f x \<Longrightarrow> f' x) \<Longrightarrow> list_ex f' h'"
  by (auto simp: list_ex_iff)

lemma approved_in_mono: "approved_in name a h \<Longrightarrow> set h \<subseteq> set h' \<Longrightarrow> approved_in name a h'"
  unfolding approved_in_def
  by (erule list_ex_later, assumption) (auto split: gw_event.splits elim!: list_ex_later)

lemma authorised_mono:
  assumes "authorised reg who name a h" and "set h \<subseteq> set h'"
  shows "authorised reg who name a h'"
proof (cases "registry_get reg name")
  case Inl
  with assms show ?thesis by (simp add: authorised_def)
next
  case (Inr d)
  with assms(1) show ?thesis
    unfolding authorised_def
    by (auto elim!: list_ex_later [OF _ assms(2)] split: gw_event.splits
        intro: approved_in_mono [OF _ assms(2)])
qed

section \<open>The pipeline\<close>

text \<open>
  \<open>pres\<close> is a property of the store that its operations keep and, when a repair advisor is
  configured, from which recording the state \<open>executing\<close> succeeds.
\<close>

locale guarded_call =
  fixes G :: "('s, 'q, 'x) gateway" and e :: call_env and pres :: "'s \<Rightarrow> bool"
    and qlook :: "'q \<Rightarrow> string \<rightharpoonup> approval_request" and qok :: "'q \<Rightarrow> bool"
  assumes queue: "gc_approval_queue G = Some Q \<Longrightarrow> approval_queue_laws Q qlook qok"
    and pres_transition: "stable pres (ss_transition (gc_store G) (ce_call_id e) st err)"
    and pres_finish: "stable pres (ss_finish_attempt (gc_store G) (ce_call_id e) n out err)"
    and pres_start: "stable pres (ss_start_attempt (gc_store G) (ce_call_id e) n)"
    and pres_get: "stable pres (ss_get_call (gc_store G) (ce_call_id e))"
    and pres_executing: "gc_repair_advisor G \<noteq> None \<Longrightarrow> pres s \<Longrightarrow>
      fst (ss_transition (gc_store G) (ce_call_id e) EXECUTING None s) = Inr ()"
begin

abbreviation reg :: "'x tool_registry" where "reg \<equiv> gc_registry G"
abbreviation name :: string where "name \<equiv> ce_tool_name e"
abbreviation who :: "principal option" where "who \<equiv> ce_principal e"
abbreviation auth :: "jdict \<Rightarrow> gw_event list \<Rightarrow> bool" where "auth \<equiv> authorised reg who name"

text \<open>The events since the call began are mediated and satisfy \<open>P\<close>.\<close>

definition since :: "gw_event list \<Rightarrow> (gw_event list \<Rightarrow> bool) \<Rightarrow> ('s, 'q, 'x) gw \<Rightarrow> bool" where
  "since L0 P g = ((\<exists>h. gw_log g = h @ L0 \<and> mediated reg who h \<and> P h) \<and>
     pres (gw_store g) \<and> qok (gw_queue g))"

abbreviation inv :: "gw_event list \<Rightarrow> (gw_event list \<Rightarrow> bool) \<Rightarrow> ('s, 'q, 'x) world \<Rightarrow> bool" where
  "inv L0 P w \<equiv> since L0 P (fst w)"

definition lasting :: "(gw_event list \<Rightarrow> bool) \<Rightarrow> bool" where
  "lasting P = (\<forall>ev h. P h \<longrightarrow> P (ev # h))"

lemma lasting_True [simp]: "lasting (\<lambda>h. True)"
  by (simp add: lasting_def)

lemma lasting_auth [simp]: "lasting (auth a)"
  by (auto simp: lasting_def intro: authorised_mono)

lemma lasting_mem [simp]: "lasting (\<lambda>h. ev \<in> set h)"
  by (simp add: lasting_def)

lemma lasting_conj [simp]: "lasting P \<Longrightarrow> lasting Q \<Longrightarrow> lasting (\<lambda>h. P h \<and> Q h)"
  by (simp add: lasting_def)

lemma since_mono: "since L0 P g \<Longrightarrow> (\<And>h. P h \<Longrightarrow> Q h) \<Longrightarrow> since L0 Q g"
  by (auto simp: since_def)

lemma stable_view:
  assumes "keeps (\<lambda>w. (gw_log (fst w), gw_store (fst w), gw_queue (fst w))) m"
  shows "stable (inv L0 P) m"
  using stable_keeps [OF assms, of "\<lambda>(l, s, q). (\<exists>h. l = h @ L0 \<and> mediated reg who h \<and> P h) \<and> pres s \<and> qok q"]
  by (simp add: since_def)

lemma stable_store:
  assumes "stable pres m"
  shows "stable (inv L0 P) (on_store m)"
proof -
  have "stable (\<lambda>w. (\<lambda>(l, q). (\<exists>h. l = h @ L0 \<and> mediated reg who h \<and> P h) \<and> qok q)
      (gw_log (fst w), gw_queue (fst w))) (on_store m)"
    by (rule stable_keeps) (auto intro: keeps_rules)
  from stable_conj [OF this stable_on_store [OF assms]] show ?thesis
    by (simp add: since_def conj_ac)
qed

lemma stable_get: "stable (inv L0 P) (set_locals f)" "stable (inv L0 P) (on_ext m')"
  "stable (inv L0 P) (on_cp m2)" "stable (inv L0 P) uuid4" "stable (inv L0 P) utc_now"
  "stable (inv L0 P) locals" "stable (inv L0 P) monotonic" "stable (inv L0 P) (on_audit m3)"
  by (auto intro!: stable_view keeps_rules)

lemma hoare_log:
  "(\<And>h. P h \<Longrightarrow> Q (ev # h)) \<Longrightarrow> \<not> is_execution ev \<Longrightarrow>
   hoare (inv L0 P) (log_event ev) (\<lambda>u. inv L0 Q) E"
  by (auto simp: log_event_def since_def mediated_other intro!: hoare_modify)

lemma stable_log: "lasting P \<Longrightarrow> \<not> is_execution ev \<Longrightarrow> stable (inv L0 P) (log_event ev)"
  by (rule hoare_stable [OF hoare_log]) (auto simp: lasting_def)

lemmas stable_steps = stable_rules stable_get stable_store [OF pres_transition]
  stable_store [OF pres_finish] stable_store [OF pres_get] stable_store [OF pres_start] stable_log

lemma stable_terminal: "stable (inv L0 P) (write_audit G e outcome)" "stable (inv L0 P) (fail_call G e err)"
  by (auto simp: fail_call_def write_audit_def audited_attempts_def intro!: stable_steps)

lemma stable_propose: "lasting P \<Longrightarrow> stable (inv L0 P) (propose_repair G e advisor a schema d)"
  by (auto simp: propose_repair_def intro!: stable_steps split: sum.splits)

lemma propose_result:
  "propose_repair G e advisor a schema d w = (Inr (p, r), w') \<Longrightarrow> registry_validate reg name p = Inr r"
  by (auto simp: propose_repair_def io_defs set_locals_def log_event_def split: prod.splits sum.splits)

lemma validate_result:
  assumes reval: "revalidates reg" and "validate_phase G e w = (Inr request, w')"
  shows "registry_validate reg name request = Inr request"
proof -
  have propose: "hoare (\<lambda>w. True) (propose_repair G e advisor a schema d)
      (\<lambda>(p, r) w. registry_validate reg name p = Inr r) (\<lambda>x w. True)" for advisor a schema d
    by (rule hoareI) (auto dest: propose_result)
  have "hoare (\<lambda>w. True) (validate_phase G e) (\<lambda>r w. \<exists>a. registry_validate reg name a = Inr r) (\<lambda>x w. True)"
    unfolding validate_phase_def validate_request_def Let_def
  proof (rule hoare_bind)
    show "hoare (\<lambda>w. True)
       (case registry_validate reg name (call_arguments e) of
          Inl x \<Rightarrow> (case gc_repair_advisor G of
              None \<Rightarrow> raise_io x
            | Some advisor \<Rightarrow>
                if \<not> repairable (fd_category (diagnose x)) then raise_io x
                else bind_io (lift_res (registry_get reg name)) (\<lambda>definition.
                  bind_io (propose_repair G e advisor (call_arguments e) (td_input_schema definition) (diagnose x))
                    (\<lambda>(proposed, validated). ret validated)))
        | Inr request \<Rightarrow> ret request)
       (\<lambda>r w. \<exists>a. registry_validate reg name a = Inr r) (\<lambda>x w. True)"
      by (auto intro!: hoare_rules yields_bind hoare_bind [OF propose] split: sum.splits option.splits)
    show "hoare (\<lambda>w. \<exists>a. registry_validate reg name a = Inr r)
        (bind_io (on_store (ss_transition (gc_store G) (ce_call_id e) VALIDATED None)) (\<lambda>u. ret r))
        (\<lambda>r w. \<exists>a. registry_validate reg name a = Inr r) (\<lambda>x w. True)" for r
      by (auto simp: hoare_def bind_io_def ret_def split: prod.splits sum.splits)
  qed
  then have "\<exists>a. registry_validate reg name a = Inr request"
    using assms(2) by (auto dest: hoareD_ret)
  then show ?thesis using registry_validate_idem [OF reval] by blast
qed

lemma validate_hoare:
  "revalidates reg \<Longrightarrow> lasting P \<Longrightarrow> hoare (inv L0 P) (validate_phase G e)
     (\<lambda>request w. inv L0 P w \<and> registry_validate reg name request = Inr request) (\<lambda>x. inv L0 P)"
  by (rule hoare_result [OF _ validate_result])
    (assumption | auto simp: validate_phase_def validate_request_def Let_def intro!: stable_steps stable_propose split: sum.splits option.splits)

lemma evaluate_hoare:
  "lasting P \<Longrightarrow> hoare (inv L0 P) (evaluate_policy G inp)
     (\<lambda>d. inv L0 (\<lambda>h. P h \<and> EvPolicy inp d \<in> set h)) (\<lambda>x. inv L0 P)"
  unfolding evaluate_policy_def
  by (rule hoare_bind_stable, rule stable_get, assumption, rule hoare_bind,
      rule hoare_log [where Q = "\<lambda>h. P h \<and> EvPolicy inp d \<in> set h" for d])
    (auto simp: lasting_def intro: hoare_ret)

lemma denial_stable: "stable (inv L0 P) (record_denial G e reason)"
  by (auto simp: record_denial_def intro!: stable_steps)

lemma submit_stable:
  assumes "gc_approval_queue G = Some Q"
  shows "stable (inv L0 P) (on_queue (aq_submit Q r))"
  using approval_queue_laws.submit_law [OF queue [OF assms]]
  by (fastforce simp: stable_def on_queue_def since_def split: prod.splits)

lemma wait_hoare:
  assumes "gc_approval_queue G = Some Q"
  shows "hoare (inv L0 P) (on_queue (aq_wait Q uid))
    (\<lambda>r w. inv L0 P w \<and> ap_decision r = Some ''approved'') (\<lambda>x. inv L0 P)"
proof -
  have "hoare qok (aq_wait Q uid) (\<lambda>r q. qok q \<and> ap_decision r = Some ''approved'') (\<lambda>x. qok)"
    by (rule hoareI) (auto dest: approval_queue_laws.wait_law [OF queue [OF assms]])
  from hoare_frame [OF hoare_on_queue [OF this], of "\<lambda>w. (gw_log (fst w), gw_store (fst w))"
      "\<lambda>(l, s). (\<exists>h. l = h @ L0 \<and> mediated reg who h \<and> P h) \<and> pres s"]
  show ?thesis
    by (simp add: keeps_on_queue since_def conj_ac)
qed

lemma released_approved:
  assumes "EvSubmitted q \<in> set h" "ap_tool_name q = name" "ap_arguments q = a" "ap_decision r = Some ''approved''"
  shows "approved_in name a (EvReleased (ap_approval_id q) r # h)"
  using assms by (auto simp: approved_in_def list_ex_iff intro!: bexI [of _ "EvSubmitted q"])

lemma lasting_approved [simp]: "lasting (approved_in name a)"
  by (auto simp: lasting_def intro: approved_in_mono)

lemma release_hoare:
  assumes Q: "gc_approval_queue G = Some Q" and P: "lasting P"
    and q: "ap_approval_id q = uid" "ap_tool_name q = name" "ap_arguments q = request"
    and f: "\<And>r. hoare (inv L0 (\<lambda>h. P h \<and> approved_in name request h)) (f r) Q' (\<lambda>x. inv L0 P)"
  shows "hoare (inv L0 (\<lambda>h. P h \<and> EvSubmitted q \<in> set h))
    (bind_io (catch_io (on_queue (aq_wait Q uid))
       (\<lambda>x. if approval_refused x then bind_io (record_denial G e reason) (\<lambda>u. raise_io x) else raise_io x))
     (\<lambda>resolved. bind_io (log_event (EvReleased uid resolved)) (\<lambda>u. f resolved)))
    Q' (\<lambda>x. inv L0 P)"
proof (rule hoare_bind)
  let ?P = "\<lambda>h. P h \<and> EvSubmitted q \<in> set h"
  have st: "stable (inv L0 ?P) (if approval_refused x then bind_io (record_denial G e reason) (\<lambda>u. raise_io x)
      else raise_io x)" for x :: exn
    by (auto intro!: stable_steps denial_stable)
  have refuse: "hoare (inv L0 ?P) (if approval_refused x
      then bind_io (record_denial G e reason) (\<lambda>u. raise_io x) else raise_io x)
      (\<lambda>r w. inv L0 ?P w \<and> ap_decision r = Some ''approved'') (\<lambda>x. inv L0 ?P)" for x :: exn
    by (rule hoare_result [OF st]) (auto simp: bind_io_def raise_io_def split: if_splits prod.splits sum.splits)
  show "hoare (inv L0 ?P) (catch_io (on_queue (aq_wait Q uid))
       (\<lambda>x. if approval_refused x then bind_io (record_denial G e reason) (\<lambda>u. raise_io x) else raise_io x))
      (\<lambda>r w. inv L0 ?P w \<and> ap_decision r = Some ''approved'') (\<lambda>x. inv L0 P)"
    by (rule hoare_post [OF hoare_catch [OF wait_hoare [OF Q] refuse]]) (auto elim: since_mono)
  show "hoare (\<lambda>w. inv L0 ?P w \<and> ap_decision r = Some ''approved'')
      (bind_io (log_event (EvReleased uid r)) (\<lambda>u. f r)) Q' (\<lambda>x. inv L0 P)" for r
  proof (rule hoare_fact)
    assume "ap_decision r = Some ''approved''"
    then have "hoare (inv L0 ?P) (log_event (EvReleased uid r))
        (\<lambda>u. inv L0 (\<lambda>h. P h \<and> approved_in name request h)) (\<lambda>x. inv L0 P)"
      using P q released_approved by (intro hoare_log) (auto simp: lasting_def)
    from hoare_bind [OF this f]
    show "hoare (\<lambda>w. inv L0 ?P w \<and> ap_decision r = Some ''approved'')
        (bind_io (log_event (EvReleased uid r)) (\<lambda>u. f r)) Q' (\<lambda>x. inv L0 P)"
      by (rule hoare_pre) simp
  qed simp
qed

lemma await_hoare:
  assumes P: "lasting P"
  shows "hoare (inv L0 P) (await_approval G e request inp d)
    (\<lambda>u. inv L0 (\<lambda>h. P h \<and> approved_in name request h)) (\<lambda>x. inv L0 P)"
proof (cases "gc_approval_queue G")
  case None
  then show ?thesis by (simp add: await_approval_def hoare_raise)
next
  case (Some Q)
  let ?P2 = "\<lambda>h. P h \<and> approved_in name request h"
  have finish: "hoare (inv L0 ?P2) m (\<lambda>u. inv L0 ?P2) (\<lambda>x. inv L0 P)"
    if "stable (inv L0 ?P2) m" for m :: "('s, 'q, 'x, unit) gio"
    by (rule hoare_post [OF stable_hoare [OF that]]) (auto elim: since_mono)
  show ?thesis
    unfolding await_approval_def Some option.case Let_def
    apply (rule hoare_bind_stable, rule stable_get, assumption)+
    apply (rule hoare_bind_stable, rule stable_store [OF pres_transition], assumption)
    apply (rule hoare_bind_stable, rule submit_stable [OF Some], assumption)
    apply (rule hoare_bind, rule hoare_log [where Q = "\<lambda>h. P h \<and> EvSubmitted q \<in> set h" for q])
      apply (use P in \<open>auto simp: lasting_def\<close>)[1]
     apply simp
    apply (rule hoare_bind_stable)
      apply (auto intro!: stable_steps)[1]
     apply (erule since_mono, simp)
    apply (rule release_hoare [OF Some P])
       apply (auto simp: create_approval_request_def intro!: finish stable_steps)
    done
qed

lemma auth_allowed:
  assumes "registry_get reg name = Inr d" "EvPolicy (policy_input_for name who d a) dec \<in> set h"
    "pd_outcome dec = ALLOW \<or> pd_outcome dec = REQUIRES_APPROVAL \<and> approved_in name a h"
  shows "auth a h"
  using assms by (auto simp: authorised_def list_ex_iff intro!: bexI [of _ "EvPolicy (policy_input_for name who d a) dec"])

lemma policy_hoare:
  "hoare (inv L0 (\<lambda>h. True)) (policy_phase G e request)
    (\<lambda>d w. inv L0 (auth request) w \<and> registry_get reg name = Inr d) (\<lambda>x. inv L0 (\<lambda>h. True))"
proof -
  let ?T = "\<lambda>h. True"
  have decide: "hoare (inv L0 (\<lambda>h. True \<and> EvPolicy (policy_input_for name who d request) dec \<in> set h))
     (if pd_outcome dec = REQUIRES_APPROVAL then await_approval G e request inp dec
      else if pd_outcome dec \<noteq> ALLOW
      then bind_io (record_denial G e (pd_reason dec)) (\<lambda>u. raise_io (GatewayExn (PolicyDeniedError (pd_reason dec))))
      else ret ()) (\<lambda>u. inv L0 (auth request)) (\<lambda>x. inv L0 ?T)"
    if d: "registry_get reg name = Inr d" for d dec inp
    apply (intro hoare_if hoare_ret hoare_bind_stable denial_stable hoare_raise)
       apply (rule hoare_post [OF await_hoare])
         apply (auto elim!: since_mono intro: auth_allowed [OF d])
    done
  show ?thesis
    unfolding policy_phase_def Let_def
    apply (rule hoare_bind [where R = "\<lambda>d w. inv L0 ?T w \<and> registry_get reg name = Inr d"])
     apply (rule hoare_lift_res; simp)
    apply (rule hoare_fact, erule conjunct2)
    apply (rule hoare_pre [where P' = "inv L0 ?T"])
     apply (rule hoare_bind_stable, rule stable_get, assumption)
     apply (rule hoare_bind, rule evaluate_hoare, simp)
     apply (rule hoare_bind_stable, rule stable_get, erule since_mono, simp)
     apply (rule hoare_bind_stable, rule stable_store [OF pres_transition], erule since_mono, simp)
     apply (rule hoare_bind, rule decide, assumption)
     apply (rule hoare_ret, simp)
    apply simp
    done
qed

lemma recheck_hoare:
  assumes "registry_get reg name = Inr d"
  shows "hoare (inv L0 (\<lambda>h. True)) (recheck_policy G e d a)
    (\<lambda>u. inv L0 (\<lambda>h. \<forall>r. registry_validate reg name a = Inr r \<longrightarrow> auth r h)) (\<lambda>x. inv L0 (\<lambda>h. True))"
  unfolding recheck_policy_def
  apply (rule hoare_bind [where R = "\<lambda>r w. inv L0 (\<lambda>h. True) w \<and> registry_validate reg name a = Inr r"])
   apply (rule hoare_lift_res; simp)
  apply (rule hoare_fact, erule conjunct2)
  apply (rule hoare_pre [where P' = "inv L0 (\<lambda>h. True)"])
   apply (rule hoare_bind, rule evaluate_hoare, simp)
   apply (rule hoare_bind_stable, rule stable_get, erule since_mono, simp)
   apply (rule hoare_when)
    apply (rule hoare_bind_stable, rule stable_get, erule since_mono, simp)
    apply (rule hoare_raise, erule since_mono, simp)
   apply (auto elim!: since_mono intro: auth_allowed [OF assms])
  done

lemma run_tool_hoare:
  "hoare (inv L0 (\<lambda>h. \<forall>r. registry_validate reg name a = Inr r \<longrightarrow> auth r h)) (run_tool G e a)
    (\<lambda>x. inv L0 (\<lambda>h. True)) (\<lambda>x. inv L0 (\<lambda>h. True))"
  unfolding run_tool_def
  apply (rule hoare_bind [where R = "\<lambda>r. inv L0 (auth r)"])
   apply (rule hoare_lift_res; erule since_mono; simp)
  apply (rule hoare_bind [where R = "\<lambda>u. inv L0 (\<lambda>h. True)"])
   apply (auto simp: log_event_def since_def intro!: hoare_modify)[1]
  apply (rule stable_hoare)
  apply (rule stable_bind)
   apply (auto simp: since_def intro: stable_modify)[1]
  apply (rule stable_finally, rule stable_get)
  apply (auto simp: since_def)
  done

text \<open>What is known before an attempt on the arguments \<open>a\<close> when its number is \<open>n\<close>.\<close>

abbreviation latest :: "('s, 'q, 'x) gw \<Rightarrow> nat" where "latest g \<equiv> cl_latest_attempt (gw_locals g)"

definition checked :: "nat \<Rightarrow> jdict \<Rightarrow> gw_event list \<Rightarrow> bool" where
  "checked n a h = (n \<le> 1 \<longrightarrow> auth a h \<and> registry_validate reg name a = Inr a)"

definition ready :: "gw_event list \<Rightarrow> jdict \<Rightarrow> ('s, 'q, 'x) gw \<Rightarrow> bool" where
  "ready L0 a g = (since L0 (checked (latest g) a) g \<and> 1 \<le> latest g)"

lemma lasting_checked [simp]: "lasting (checked n a)"
  using lasting_auth by (auto simp: lasting_def checked_def)

lemma attempt_body_hoare:
  assumes d: "registry_get reg name = Inr d"
  shows "hoare (inv L0 (checked n a)) (attempt_body G e d n a) (\<lambda>x. inv L0 (\<lambda>h. True)) (\<lambda>x. inv L0 (\<lambda>h. True))"
  unfolding attempt_body_def
proof (rule hoare_catch)
  show "hoare (inv L0 (checked n a)) (bind_io (when_io (1 < n) (recheck_policy G e d a)) (\<lambda>u.
        bind_io (run_tool G e a) (\<lambda>result.
        bind_io (on_store (ss_finish_attempt (gc_store G) (ce_call_id e) n ''succeeded'' None))
          (\<lambda>u. ret result))))
     (\<lambda>x. inv L0 (\<lambda>h. True)) (\<lambda>x. inv L0 (\<lambda>h. True))"
    apply (rule hoare_bind, rule hoare_when)
      apply (rule hoare_pre [OF recheck_hoare [OF d]], erule since_mono, simp)
     apply (erule since_mono, simp add: checked_def)
    apply (rule hoare_bind [OF run_tool_hoare])
    apply (rule stable_hoare)
    apply (auto intro!: stable_steps)
    done
  show "hoare (inv L0 (\<lambda>h. True)) (case x of
          GatewayExn err \<Rightarrow> bind_io (on_store (ss_finish_attempt (gc_store G) (ce_call_id e) n
            ''failed'' (Some (error_message err)))) (\<lambda>u. raise_io x)
        | _ \<Rightarrow> raise_io x) (\<lambda>x. inv L0 (\<lambda>h. True)) (\<lambda>x. inv L0 (\<lambda>h. True))" for x
    by (rule stable_hoare) (auto intro!: stable_steps split: exn.splits)
qed

lemma attempt_body_keeps:
  "keeps (\<lambda>w. latest (fst w)) (attempt_body G e d n a)"
  by (auto simp: attempt_body_def recheck_policy_def run_tool_def evaluate_policy_def
      intro!: keeps_rules split: exn.splits)

lemma executing_hoare:
  assumes "stable P (on_store (ss_transition (gc_store G) (ce_call_id e) EXECUTING None))"
    and "\<And>w. P w \<Longrightarrow> pres (gw_store (fst w))"
  shows "hoare P (on_store (ss_transition (gc_store G) (ce_call_id e) EXECUTING None)) (\<lambda>u. P)
    (\<lambda>x w. P w \<and> gc_repair_advisor G = None)"
proof (rule hoareI)
  fix w x w' assume P: "P w" and m: "on_store (ss_transition (gc_store G) (ce_call_id e) EXECUTING None) w = (Inl x, w')"
  have "P w'" using assms(1) P m by (rule stableD)
  moreover from m have "fst (ss_transition (gc_store G) (ce_call_id e) EXECUTING None (gw_store (fst w))) = Inl x"
    by (auto simp: on_store_def split: prod.splits)
  then have "gc_repair_advisor G = None" using pres_executing assms(2) [OF P] by fastforce
  ultimately show "P w' \<and> gc_repair_advisor G = None" by simp
qed (blast intro: stableD [OF assms(1)])

lemma attempt_hoare:
  assumes d: "registry_get reg name = Inr d"
  shows "hoare (\<lambda>w. ready L0 a (fst w)) (execute_attempt G e d a)
    (\<lambda>x. inv L0 (\<lambda>h. True))
    (\<lambda>x w. ready L0 a (fst w) \<and> (gc_repair_advisor G \<noteq> None \<longrightarrow> 1 < latest (fst w)))"
    (is "hoare _ _ ?Q ?E")
  unfolding execute_attempt_def Let_def
proof (rule hoare_bind)
  let ?I = "\<lambda>n w. inv L0 (checked n a) w \<and> latest (fst w) = n \<and> 1 \<le> n"
  show "hoare (\<lambda>w. ready L0 a (fst w)) locals (\<lambda>l. ?I (cl_latest_attempt l)) ?E"
    by (auto simp: locals_def ready_def intro!: hoare_gets)
  fix l
  let ?n = "cl_latest_attempt l"
  have st: "stable (?I ?n) (on_store m)" if "stable pres m" for m :: "('s, unit) aio"
    by (rule stable_conj [OF stable_store [OF that] stable_keeps [where v = "\<lambda>w. latest (fst w)"]])
      (auto intro: keeps_rules)
  have body: "hoare (?I ?n) m (\<lambda>x w. inv L0 (\<lambda>h. True) w \<and> latest (fst w) = ?n \<and> 1 \<le> ?n)
      (\<lambda>x w. inv L0 (\<lambda>h. True) w \<and> latest (fst w) = ?n \<and> 1 \<le> ?n)"
    if "hoare (inv L0 (checked ?n a)) m (\<lambda>x. inv L0 (\<lambda>h. True)) (\<lambda>x. inv L0 (\<lambda>h. True))"
      "keeps (\<lambda>w. latest (fst w)) m" for m :: "('s, 'q, 'x, 'b) gio"
    by (rule hoare_frame [OF that])
  show "hoare (?I ?n) (bind_io (when_io (1 < ?n) (on_store (ss_start_attempt (gc_store G) (ce_call_id e) ?n)))
     (\<lambda>u. bind_io (on_store (ss_transition (gc_store G) (ce_call_id e) EXECUTING None)) (\<lambda>u.
       finally_io (attempt_body G e d ?n a)
       (\<lambda>(g, t). (g\<lparr>gw_locals := (gw_locals g)\<lparr>cl_last_finished_attempt := ?n,
          cl_latest_attempt := Suc (cl_latest_attempt (gw_locals g))\<rparr>\<rparr>, t))))) ?Q ?E"
    apply (rule hoare_bind [where R = "\<lambda>u. ?I ?n"])
     apply (rule hoare_when)
      apply (rule hoare_post [OF stable_hoare [OF st [OF pres_start]]], assumption)
      apply (auto simp: ready_def)[1]
     apply assumption
    apply (rule hoare_bind)
     apply (rule hoare_post [OF executing_hoare [OF st [OF pres_transition]]])
       apply (simp add: since_def)
      apply assumption
     apply (auto simp: ready_def)[1]
    apply (rule hoare_finally)
    apply (rule hoare_post [OF body [OF attempt_body_hoare [OF d] attempt_body_keeps]])
     apply (auto simp: ready_def since_def checked_def)
    done
qed

lemma loop_hoare:
  assumes d: "registry_get reg name = Inr d"
  shows "hoare (\<lambda>w. ready L0 a (fst w)) (run (RepairLoop p) a (execute_attempt G e d) ctx
      (case gc_repair_advisor G of None \<Rightarrow> None | Some adv \<Rightarrow> Some (repair_arguments G e d)))
    (\<lambda>(x, n). inv L0 (\<lambda>h. True)) (\<lambda>x. inv L0 (\<lambda>h. True))"
proof (rule scripted.run_hoare [where I = "\<lambda>n a. ready L0 a" and Q = "\<lambda>n x. since L0 (\<lambda>h. True)" and
      E = "\<lambda>x. since L0 (\<lambda>h. True)" and
      R = "\<lambda>n a x g. ready L0 a g \<and> (gc_repair_advisor G \<noteq> None \<longrightarrow> 1 < latest g)"])
  show "hoare (\<lambda>w. ready L0 cur (fst w)) (execute_attempt G e d cur) (\<lambda>x. inv L0 (\<lambda>h. True))
      (\<lambda>x w. ready L0 cur (fst w) \<and> (gc_repair_advisor G \<noteq> None \<longrightarrow> 1 < latest (fst w)))" for cur
    by (rule attempt_hoare [OF d])
  fix f n cur x
  assume f: "(case gc_repair_advisor G of None \<Rightarrow> None | Some adv \<Rightarrow> Some (repair_arguments G e d)) = Some f"
  have st: "stable (\<lambda>w. inv L0 (\<lambda>h. True) w \<and> 1 < latest (fst w)) (repair_arguments G e d cur (diagnose x))"
    by (rule stable_conj [OF _ stable_keeps])
      (auto simp: repair_arguments_def intro!: stable_steps stable_propose keeps_rules split: option.splits)
  show "hoare (\<lambda>w. ready L0 cur (fst w) \<and> (gc_repair_advisor G \<noteq> None \<longrightarrow> 1 < latest (fst w)))
      (f cur (diagnose x)) (\<lambda>cur' w. ready L0 cur' (fst w) \<and> inv L0 (\<lambda>h. True) w) (\<lambda>x. inv L0 (\<lambda>h. True))"
  proof -
    from f have "f = repair_arguments G e d" and adv: "gc_repair_advisor G \<noteq> None"
      by (auto split: option.splits)
    moreover have "hoare (\<lambda>w. ready L0 cur (fst w) \<and> (gc_repair_advisor G \<noteq> None \<longrightarrow> 1 < latest (fst w)))
      (repair_arguments G e d cur (diagnose x)) (\<lambda>cur' w. ready L0 cur' (fst w) \<and> inv L0 (\<lambda>h. True) w)
      (\<lambda>x. inv L0 (\<lambda>h. True))"
      by (rule hoare_weaken [OF stable_hoare [OF st]])
        (use adv in \<open>auto simp: ready_def checked_def elim!: since_mono\<close>)
    ultimately show ?thesis by simp
  qed
qed (auto simp: ready_def elim!: since_mono)

lemma execution_hoare:
  "registry_get reg name = Inr d \<Longrightarrow>
   hoare (\<lambda>w. ready L0 a (fst w)) (execution_phase G e a d) (\<lambda>x. inv L0 (\<lambda>h. True)) (\<lambda>x. inv L0 (\<lambda>h. True))"
  unfolding execution_phase_def
  by (rule hoare_bind [OF loop_hoare], assumption)
    (auto intro!: stable_hoare stable_steps stable_terminal)

lemma process_hoare:
  "revalidates reg \<Longrightarrow> hoare (\<lambda>w. inv L0 (\<lambda>h. True) w \<and> latest (fst w) = 1) (process_call G e)
    (\<lambda>x. inv L0 (\<lambda>h. True)) (\<lambda>x. inv L0 (\<lambda>h. True))"
proof -
  assume reval: "revalidates reg"
  let ?T = "\<lambda>h. True"
  have kv: "keeps (\<lambda>w. latest (fst w)) (validate_phase G e)"
    by (auto simp: validate_phase_def validate_request_def Let_def intro!: keeps_rules split: sum.splits option.splits)
  have kp: "keeps (\<lambda>w. latest (fst w)) (policy_phase G e request)" for request
    by (auto simp: policy_phase_def await_approval_def record_denial_def evaluate_policy_def Let_def
        intro!: keeps_rules)
  have val: "hoare (\<lambda>w. inv L0 ?T w \<and> latest (fst w) = 1) (validate_phase G e)
     (\<lambda>request w. (inv L0 ?T w \<and> registry_validate reg name request = Inr request) \<and> latest (fst w) = 1)
     (\<lambda>x. inv L0 ?T)"
    by (rule hoare_post [OF hoare_frame [OF validate_hoare [OF reval] kv]]) auto
  have pol: "hoare (\<lambda>w. inv L0 ?T w \<and> latest (fst w) = 1) (policy_phase G e request)
     (\<lambda>d w. (inv L0 (auth request) w \<and> registry_get reg name = Inr d) \<and> latest (fst w) = 1)
     (\<lambda>x. inv L0 ?T)" for request
    by (rule hoare_post [OF hoare_frame [OF policy_hoare kp]]) auto
  have exec: "hoare (\<lambda>w. (inv L0 (auth request) w \<and> registry_get reg name = Inr d) \<and> latest (fst w) = 1)
      (execution_phase G e request d) (\<lambda>x. inv L0 ?T) (\<lambda>x. inv L0 ?T)"
    if "registry_validate reg name request = Inr request" for request d
    by (rule hoare_fact [where F = "registry_get reg name = Inr d"], simp)
      (rule hoare_pre [OF execution_hoare], assumption,
       use that in \<open>auto simp: ready_def checked_def elim!: since_mono\<close>)
  show ?thesis
    unfolding process_call_def
    by (rule hoare_bind [OF val], rule hoare_fact, erule conjE, erule conjunct2,
        rule hoare_pre [OF hoare_bind [OF pol exec]]) auto
qed

lemma settle_hoare:
  "revalidates reg \<Longrightarrow> hoare (\<lambda>w. inv L0 (\<lambda>h. True) w \<and> latest (fst w) = 1) (settle_call G e)
    (\<lambda>x. inv L0 (\<lambda>h. True)) (\<lambda>x. inv L0 (\<lambda>h. True))"
  unfolding settle_call_def
  by (rule hoare_catch [OF process_hoare])
    (auto intro!: stable_hoare stable_steps stable_terminal split: exn.splits)

end

section \<open>Stores that carry a call\<close>

context state_store_laws
begin

lemma present_stable:
  "stable (holds call_id (\<lambda>r. True)) (ss_transition S call_id st err)"
  "stable (holds call_id (\<lambda>r. True)) (ss_finish_attempt S call_id n out err)"
  "stable (holds call_id (\<lambda>r. True)) (ss_start_attempt S call_id n)"
  "stable (holds call_id (\<lambda>r. True)) (ss_get_call S call_id)"
  by (rule hoare_stable, rule hoare_post [OF transition_hoare], simp_all)
    (rule hoare_stable, rule hoare_post [OF finish_hoare], simp_all,
     rule hoare_stable, rule hoare_post [OF start_hoare], simp_all,
     rule hoare_stable, rule hoare_post [OF get_hoare], auto)

end

lemma reliable_guarded:
  assumes "reliable_store (gc_store G) slook sok"
    and "\<And>Q. gc_approval_queue G = Some Q \<Longrightarrow> approval_queue_laws Q qlook qok"
  shows "guarded_call G e (state_store_laws.holds slook sok (ce_call_id e) (\<lambda>r. True)) qlook qok"
proof -
  from assms(1) have laws: "state_store_laws (gc_store G) slook sok" by (simp add: reliable_store_def)
  have "fst (ss_transition (gc_store G) (ce_call_id e) EXECUTING None s) = Inr ()"
    if "state_store_laws.holds slook sok (ce_call_id e) (\<lambda>r. True) s" for s
    using reliable_store.transition_total [OF assms(1)] that
    by (auto simp: state_store_laws.holds_def [OF laws])
  then show ?thesis
    by (intro guarded_call.intro) (auto intro: assms state_store_laws.present_stable [OF laws])
qed

interpretation in_memory: guarded_call
  "G\<lparr>gc_store := InMemoryStateStore, gc_approval_queue := Some InMemoryApprovalQueue\<rparr>" e
  "mem.holds (ce_call_id e) (\<lambda>r. True)" mem_look mem_queue_ok
  by (rule reliable_guarded) (auto intro: mem.reliable_store_axioms memq.approval_queue_laws_axioms)

lemma unrepaired_guarded:
  assumes "gc_repair_advisor G = None"
    and "\<And>Q. gc_approval_queue G = Some Q \<Longrightarrow> approval_queue_laws Q qlook qok"
  shows "guarded_call G e (\<lambda>s. True) qlook qok"
  using assms by (intro guarded_call.intro) (auto simp: stable_def)

section \<open>A whole call\<close>

lemma mediated_append: "mediated reg who h2 \<Longrightarrow> mediated reg who h1 \<Longrightarrow> mediated reg who (h2 @ h1)"
  by (induction reg who h2 rule: mediated.induct) (auto elim: authorised_mono)

lemma mediated_executed:
  "mediated reg who h \<Longrightarrow> EvExecuted name a \<in> set h \<Longrightarrow> authorised reg who name a h"
  by (induction reg who h rule: mediated.induct) (auto intro: authorised_mono [OF _ set_subset_Cons])

lemma call_mediated:
  assumes "revalidates (gc_registry G)"
    and "\<And>Q. gc_approval_queue G = Some Q \<Longrightarrow> approval_queue_laws Q qlook qok"
    and "qok (gw_queue (fst w))"
    and "gc_repair_advisor G = None \<or> reliable_store (gc_store G) slook sok \<and> sok (gw_store (fst w))"
    and "execute_tool_call G trace session name arguments who w = (r, w')"
  shows "\<exists>new. gw_log (fst w') = new @ gw_log (fst w) \<and> mediated (gc_registry G) who new \<and> qok (gw_queue (fst w'))"
  using assms(5)
proof (cases rule: execute_cases)
  case (settled e risk now w1)
  obtain pres where guarded: "guarded_call G e pres qlook qok" and pres: "pres (gw_store (fst w1))"
    using assms(4)
  proof
    assume "gc_repair_advisor G = None"
    from unrepaired_guarded [OF this assms(2)] show thesis by (rule that [of "\<lambda>s. True"]) simp_all
  next
    assume rel: "reliable_store (gc_store G) slook sok \<and> sok (gw_store (fst w))"
    then have laws: "state_store_laws (gc_store G) slook sok" by (simp add: reliable_store_def)
    from reliable_guarded [OF conjunct1 [OF rel] assms(2)] show thesis
      by (rule that) (use state_store_laws.create_law [OF laws conjunct2 [OF rel] settled(6)] in
          \<open>auto simp: state_store_laws.holds_def [OF laws] new_record_def\<close>)
  qed
  then have "guarded_call.since G e pres qok (gw_log (fst w)) (\<lambda>h. True) (fst w1)"
    using assms(3) settled by (auto simp: guarded_call.since_def untouched_def)
  then have "guarded_call.since G e pres qok (gw_log (fst w)) (\<lambda>h. True) (fst w')"
    using guarded_call.settle_hoare [OF guarded assms(1), of "gw_log (fst w)"] settled
    by (cases r) (auto simp: initial_locals_def dest: hoareD_ret hoareD_raise)
  then show ?thesis
    using settled by (auto simp: guarded_call.since_def [OF guarded])
qed (use assms(3) in \<open>auto simp: untouched_def intro: exI [of _ "[]"]\<close>)

section \<open>Properties\<close>


text \<open>A gateway with one read-only tool.  Its outside world is the list of executed arguments.\<close>

definition demo_tool :: "jdict list tool_definition" where
  "demo_tool = \<lparr>td_name = ''db_query'', td_description = ''query'', td_risk_class = READ_ONLY,
     td_input_model = (\<lambda>a. if dict_get a ''sql'' = None
       then Inl [\<lparr>pe_loc = [JStr ''sql''], pe_type = ''missing'', pe_msg = ''Field required''\<rparr>] else Inr a),
     td_output_model = Inr, td_handler = (\<lambda>a x. (Inr a, a # x)), td_idempotent = False,
     td_input_schema = [], td_output_schema = []\<rparr>"

definition demo_registry :: "jdict list tool_registry" where
  "demo_registry = [(''db_query'', demo_tool)]"

definition constant_policy :: "(jdict \<Rightarrow> string) \<Rightarrow> 'x policy_client" where
  "constant_policy f = \<lparr>pc_evaluate = (\<lambda>inp. ret \<lparr>pd_outcome = f inp, pd_matched_rule = ''demo'',
     pd_reason = ''demo''\<rparr>), pc_healthcheck = (\<lambda>x. (True, x))\<rparr>"

definition demo_gateway :: "'s state_store \<Rightarrow> jdict list policy_client \<Rightarrow> jdict list repair_advisor option \<Rightarrow>
    ('s, mem_queue, jdict list) gateway" where
  "demo_gateway S client advisor = \<lparr>gc_registry = demo_registry, gc_store = S, gc_policy_client = Some client,
     gc_approval_queue = Some InMemoryApprovalQueue, gc_audit_logger = None, gc_sandbox_runtime = ''none'',
     gc_repair_advisor = advisor, gc_control_plane = False, gc_set_context = (\<lambda>c x. x),
     gc_float_text = (\<lambda>r. ''0'')\<rparr>"

definition demo_world :: "'s \<Rightarrow> queue_op list list \<Rightarrow> ('s, mem_queue, jdict list) world" where
  "demo_world s env = (\<lparr>gw_store = s, gw_queue = \<lparr>mq_requests = [], mq_env = env\<rparr>, gw_outside = [],
     gw_audit = \<lparr>al_file = None, al_last_hash = GENESIS_HASH, al_clock = int, al_disk = (\<lambda>i. WriteOk), al_writes = 0\<rparr>,
     gw_cp = empty_control_plane False, gw_uid = (\<lambda>i. replicate i CHR ''u''), gw_uids = 0, gw_clock = int,
     gw_ticks = 0, gw_locals = initial_locals, gw_log = []\<rparr>, demo_env)"

definition sql_arguments :: "string \<Rightarrow> jdict" where
  "sql_arguments sql = [(''sql'', JStr sql)]"

lemma demo_revalidates: "revalidates demo_registry"
  by (simp add: revalidates_def demo_registry_def demo_tool_def)

text \<open>An approval is required and given while the call waits.\<close>

definition approved_run :: "(exn + call_tool_result) \<times> (mem_store, mem_queue, jdict list) world" where
  "approved_run = execute_tool_call
     (demo_gateway InMemoryStateStore (constant_policy (\<lambda>inp. REQUIRES_APPROVAL)) None) ''t'' ''s'' ''db_query''
     (Some (sql_arguments ''SELECT 1'')) None
     (demo_world (empty_mem_store int) [[Decide ''u'' True ''olga'' ''fine'']])"

lemma approved_run_executes: "gw_outside (fst (snd approved_run)) = [sql_arguments ''SELECT 1'']"
  by code_simp


definition strict_policy :: "'x policy_client" where
  "strict_policy = constant_policy (\<lambda>inp.
     if dict_get inp ''arguments'' = Some (JObj (sql_arguments ''SELECT 1'')) then ALLOW else DENY)"

definition talkative_advisor :: "'x repair_advisor" where
  "talkative_advisor name a schema d = ret (sql_arguments ''SELECT secret'')"

definition flaky_run :: "(exn + call_tool_result) \<times> (tool_call_record redis_store, mem_queue, jdict list) world" where
  "flaky_run = execute_tool_call
     (demo_gateway (RedisStateStore demo_config) strict_policy (Some talkative_advisor)) ''t'' ''s'' ''db_query''
     (Some (sql_arguments ''SELECT 1'')) None
     (demo_world (demo_redis (\<lambda>i. if i = 3 then NetFail else NetOk)) [])"


end
