(* ===== verification/Lifecycle.thy ===== *)
theory Lifecycle
  imports Mediation
begin

text \<open>
  The lifecycle of a call: which states \<open>execute_tool_call\<close> records and in which order, that it
  always records a terminal state that agrees with the result it returns, how often it executes the
  tool and how often it writes to the audit log.  The locale \<open>lifecycle_call\<close> extends the laws of a
  reliable state store by the gateway that uses it.
\<close>

section \<open>Legal histories\<close>

fun may_follow :: "tool_call_state \<Rightarrow> tool_call_state \<Rightarrow> bool" where
  "may_follow RECEIVED s = (s \<in> {VALIDATED, FAILED, DENIED})"
| "may_follow VALIDATED s = (s \<in> {POLICY_CHECKED, FAILED, DENIED})"
| "may_follow POLICY_CHECKED s = (s \<in> {AWAITING_APPROVAL, EXECUTING, FAILED, DENIED})"
| "may_follow AWAITING_APPROVAL s = (s \<in> {EXECUTING, FAILED, DENIED})"
| "may_follow EXECUTING s = (s \<in> {EXECUTING, SUCCEEDED, FAILED, DENIED})"
| "may_follow DENIED s = (s = DENIED)"
| "may_follow SUCCEEDED s = False"
| "may_follow FAILED s = False"

fun legal :: "tool_call_state list \<Rightarrow> bool" where
  "legal (a # b # rest) = (may_follow a b \<and> legal (b # rest))"
| "legal _ = True"

definition lifecycle :: "tool_call_record \<Rightarrow> bool" where
  "lifecycle r = (let states = map st_state (tc_transitions r) in
     states \<noteq> [] \<and> hd states = RECEIVED \<and> legal states \<and> last states = tc_current_state r)"

lemma legal_snoc: "legal (xs @ [b]) = (legal xs \<and> (xs = [] \<or> may_follow (last xs) b))"
  by (induction xs rule: legal.induct) auto

lemma lifecycle_transition:
  "lifecycle r \<Longrightarrow> may_follow (tc_current_state r) s \<Longrightarrow>
   lifecycle (r\<lparr>tc_current_state := s, tc_updated_at := now,
     tc_transitions := tc_transitions r @ [\<lparr>st_state = s, st_timestamp = now', st_error = err\<rparr>]\<rparr>)"
  using legal_snoc [of "map st_state (tc_transitions r)" s]
  by (auto simp: lifecycle_def Let_def)

lemma new_record_lifecycle: "lifecycle (new_record e risk now)"
  by (simp add: lifecycle_def new_record_def)

abbreviation open_states :: "tool_call_state set" where
  "open_states \<equiv> {RECEIVED, VALIDATED, POLICY_CHECKED, AWAITING_APPROVAL, EXECUTING}"

definition numbers :: "tool_call_record \<Rightarrow> nat set" where
  "numbers r = set (map ar_attempt (tc_attempts r))"

fun is_denial :: "exn \<Rightarrow> bool" where
  "is_denial (GatewayExn err) = (error_code err \<in> set denial_codes)"
| "is_denial _ = False"

text \<open>The states in which the exception may leave the pipeline.\<close>

definition fates :: "exn \<Rightarrow> tool_call_state set" where
  "fates x = open_states \<union> (if is_denial x then {DENIED} else {})"

lemma approval_refused_denial: "approval_refused x \<Longrightarrow> is_denial x"
  by (cases x rule: approval_refused.cases) (auto simp: denial_codes_def)

lemma policy_denied_denial [simp]: "is_denial (GatewayExn (PolicyDeniedError m))"
  by (simp add: denial_codes_def)

lemma fates_open [simp]: "open_states \<subseteq> fates x"
  by (auto simp: fates_def)

lemma hoare_sure: "hoare P m Q (\<lambda>x w. False) \<Longrightarrow> hoare P m Q E"
  by (erule hoare_post) auto

lemma except_ret:
  assumes "stable P m"
  shows "hoare P (except_exception m (ret y)) (\<lambda>u. P) (\<lambda>x w. P w \<and> x = CancelledExn)"
proof (unfold except_exception_def, rule hoare_catch [OF stable_hoare [OF assms]])
  show "hoare P (if is_exception x then ret y else raise_io x) (\<lambda>u. P) (\<lambda>x w. P w \<and> x = CancelledExn)" for x
    by (cases x) (auto intro: hoare_ret hoare_raise)
qed

section \<open>Calls on a reliable store\<close>

locale lifecycle_call = reliable_store S look ok
  for S :: "'s state_store" and look :: "'s \<Rightarrow> string \<rightharpoonup> tool_call_record" and ok :: "'s \<Rightarrow> bool" +
  fixes G :: "('s, 'q, 'x) gateway" and e :: call_env
  assumes store: "gc_store G = S"
begin

abbreviation finished :: "('s, 'q, 'x) world \<Rightarrow> nat" where
  "finished w \<equiv> cl_last_finished_attempt (gw_locals (fst w))"

definition fit :: "tool_call_state set \<Rightarrow> nat set \<Rightarrow> tool_call_record \<Rightarrow> bool" where
  "fit X N r = (lifecycle r \<and> tc_current_state r \<in> X \<and> N \<subseteq> numbers r)"

text \<open>The record of the call is in one of the states \<open>X\<close>, and it has the attempts \<open>N\<close>, the first one
  and the one that finished last.\<close>

definition stand :: "tool_call_state set \<Rightarrow> nat set \<Rightarrow> ('s, 'q, 'x) gw \<Rightarrow> bool" where
  "stand X N g = holds (ce_call_id e) (fit X ({1, cl_last_finished_attempt (gw_locals g)} \<union> N)) (gw_store g)"

abbreviation stands :: "tool_call_state set \<Rightarrow> nat set \<Rightarrow> ('s, 'q, 'x) world \<Rightarrow> bool" where
  "stands X N w \<equiv> stand X N (fst w)"

lemma stands_mono: "stand X N g \<Longrightarrow> X \<subseteq> Y \<Longrightarrow> M \<subseteq> N \<Longrightarrow> stand Y M g"
  unfolding stand_def by (erule holds_mono) (unfold fit_def, blast)

lemma stable_stands: "keeps (\<lambda>w. (gw_store (fst w), finished w)) m \<Longrightarrow> stable (stands X N) m"
  using stable_keeps [of "\<lambda>w. (gw_store (fst w), finished w)" m "\<lambda>(s, n). holds (ce_call_id e) (fit X ({1, n} \<union> N)) s"]
  by (simp add: stand_def)

lemma quiet_stands:
  "hoare (stands X N) locals (\<lambda>l. stands X N) E" "hoare (stands X N) monotonic (\<lambda>t. stands X N) E"
  "hoare (stands X N) uuid4 (\<lambda>u. stands X N) E" "hoare (stands X N) utc_now (\<lambda>t. stands X N) E"
  "hoare (stands X N) (log_event ev) (\<lambda>u. stands X N) E"
  by (auto simp: hoare_def stand_def locals_def gets_io_def monotonic_def uuid4_def utc_now_def
      log_event_def modify_io_def)

lemma set_locals_stands:
  "(\<And>l. cl_last_finished_attempt (f l) = cl_last_finished_attempt l) \<Longrightarrow>
   hoare (stands X N) (set_locals f) (\<lambda>u. stands X N) E"
  by (auto simp: hoare_def stand_def set_locals_def modify_io_def)

lemma on_store_stands:
  assumes "\<And>n. hoare (holds (ce_call_id e) (fit X ({1, n} \<union> N))) m (\<lambda>u. holds (ce_call_id e) (fit Y ({1, n} \<union> M))) (\<lambda>x s. False)"
  shows "hoare (stands X N) (on_store m) (\<lambda>u. stands Y M) (\<lambda>x w. False)"
proof (rule hoareI)
  fix w u w' assume a: "stands X N w" and m: "on_store m w = (Inr u, w')"
  then obtain s where "m (gw_store (fst w)) = (Inr u, s)" "gw_store (fst w') = s" "finished w' = finished w"
    by (auto simp: on_store_def split: prod.splits)
  with a assms [of "finished w"] show "stands Y M w'" by (auto simp: stand_def dest: hoareD_ret)
next
  fix w x w' assume a: "stands X N w" and m: "on_store m w = (Inl x, w')"
  then obtain s where "m (gw_store (fst w)) = (Inl x, s)"
    by (auto simp: on_store_def split: prod.splits)
  with a assms [of "finished w"] show False by (auto simp: stand_def dest: hoareD_raise)
qed

lemma transition_stands:
  assumes "\<And>c. c \<in> X \<Longrightarrow> may_follow c s"
  shows "hoare (stands X N) (on_store (ss_transition (gc_store G) (ce_call_id e) s err)) (\<lambda>u. stands {s} N) (\<lambda>x w. False)"
  unfolding store
  by (rule on_store_stands, rule transition_sure)
    (use assms in \<open>auto simp: fit_def numbers_def intro: lifecycle_transition\<close>)

lemma finish_stands:
  assumes "n \<in> N \<union> {1}"
  shows "hoare (stands X N) (on_store (ss_finish_attempt (gc_store G) (ce_call_id e) n out err)) (\<lambda>u. stands X N) (\<lambda>x w. False)"
  unfolding store
proof (rule on_store_stands, rule reliable_raise [OF finish_hoare])
  fix m r now r' assume "fit X ({1, m} \<union> N) r" "upd_finish n out err now r = Inr r'"
  with upd_finish_numbers [OF this(2)] upd_transitions_frame(1) [OF this(2)]
  show "fit X ({1, m} \<union> N) r'"
    by (simp add: fit_def numbers_def lifecycle_def del: set_map)
next
  fix m s assume "holds (ce_call_id e) (fit X ({1, m} \<union> N)) s"
  with assms show "fst (ss_finish_attempt S (ce_call_id e) n out err s) = Inr ()"
    by (auto simp: holds_def fit_def numbers_def intro!: finish_total)
qed

lemma start_stands:
  "hoare (stands X N) (on_store (ss_start_attempt (gc_store G) (ce_call_id e) n)) (\<lambda>u. stands X (insert n N)) (\<lambda>x w. False)"
  unfolding store
  by (rule on_store_stands, rule reliable_raise [OF start_hoare])
    (auto simp: fit_def numbers_def lifecycle_def upd_start_def holds_def intro: start_total)

lemma get_stands:
  "hoare (stands X N) (on_store (ss_get_call (gc_store G) (ce_call_id e))) (\<lambda>v. stands X N) (\<lambda>x w. False)"
  unfolding store
proof (rule on_store_stands, rule hoareI)
  fix n s v s' assume "holds (ce_call_id e) (fit X ({1, n} \<union> N)) s" "ss_get_call S (ce_call_id e) s = (Inr v, s')"
  then show "holds (ce_call_id e) (fit X ({1, n} \<union> N)) s'" by (blast dest: hoareD_ret [OF get_hoare])
next
  fix n s x s' assume "holds (ce_call_id e) (fit X ({1, n} \<union> N)) s" "ss_get_call S (ce_call_id e) s = (Inl x, s')"
  with get_total [of s "ce_call_id e"] show False by (simp add: holds_def)
qed

lemma audited_stands:
  "hoare (stands X N) (audited_attempts G e) (\<lambda>v. stands X N) (\<lambda>x w. stands X N w \<and> x = CancelledExn)"
proof -
  have persist: "hoare (stands X N) (when_io b (except_exception (on_cp m) (ret ()))) (\<lambda>u. stands X N)
      (\<lambda>x w. stands X N w \<and> x = CancelledExn)" for b and m :: "(control_plane, unit) aio"
    by (rule hoare_when, rule except_ret) (auto intro!: stable_stands keeps_rules)
  show ?thesis
    unfolding audited_attempts_def
  proof (rule hoare_catch [where R = "\<lambda>x w. stands X N w \<and> x = CancelledExn"])
    show "hoare (stands X N) (bind_io (on_store (ss_get_call (gc_store G) (ce_call_id e))) (\<lambda>current. case current of
        None \<Rightarrow> ret []
      | Some r \<Rightarrow> bind_io
          (when_io (gc_control_plane G) (except_exception (on_cp (upsert_tool_call r)) (ret ())))
          (\<lambda>u. ret (tc_attempts r)))) (\<lambda>v. stands X N) (\<lambda>x w. stands X N w \<and> x = CancelledExn)"
      by (rule hoare_bind [OF hoare_sure [OF get_stands]])
        (auto intro!: hoare_ret hoare_bind [OF persist] split: option.split)
  qed (auto intro!: hoare_if hoare_ret hoare_raise)
qed

lemma write_audit_stands:
  "hoare (stands X N) (write_audit G e out) (\<lambda>u. stands X N) (\<lambda>x w. stands X N w \<and> x = CancelledExn)"
proof (cases "gc_audit_logger G")
  case None
  then show ?thesis by (simp add: write_audit_def hoare_ret)
next
  case (Some codec)
  show ?thesis
    unfolding write_audit_def Some option.case
    by (rule hoare_bind [OF audited_stands], rule hoare_bind [OF quiet_stands(1)],
        rule hoare_bind [OF quiet_stands(2)], rule except_ret)
      (auto intro!: stable_stands keeps_rules)
qed

text \<open>The stored part of a failure: the terminal transition and the end of the last attempt.\<close>

lemma failure_stored:
  assumes "\<And>c. c \<in> X \<Longrightarrow> may_follow c (terminal_state err)"
  shows "hoare (stands X N) (catch_io
       (bind_io (on_store (ss_transition (gc_store G) (ce_call_id e) (terminal_state err) (Some (error_message err)))) (\<lambda>u.
        bind_io locals (\<lambda>l.
        bind_io (on_store (ss_finish_attempt (gc_store G) (ce_call_id e) (cl_last_finished_attempt l)
            (terminal_outcome err) (Some (error_message err)))) (\<lambda>u. ret True))))
       (\<lambda>x. if x = unavailable then ret False else raise_io x))
     (\<lambda>b w. stands {terminal_state err} N w \<and> b) (\<lambda>x w. False)"
proof -
  let ?Y = "{terminal_state err}"
  have finish: "hoare (\<lambda>w. stands ?Y N w \<and> finished w = n)
      (on_store (ss_finish_attempt (gc_store G) (ce_call_id e) n out er)) (\<lambda>u. stands ?Y N) E" for n out er E
  proof -
    have "hoare (stands ?Y (insert n N)) (on_store (ss_finish_attempt (gc_store G) (ce_call_id e) n out er))
      (\<lambda>u. stands ?Y (insert n N)) E"
      by (rule hoare_sure [OF finish_stands]) simp
    then show ?thesis
      by (rule hoare_weaken) (auto simp: stand_def insert_commute fit_def elim!: holds_mono)
  qed
  show ?thesis
    apply (rule hoare_catch [where R = "\<lambda>x w. False"])
     apply (rule hoare_bind [OF transition_stands [OF assms]], assumption)
     apply (rule hoare_bind [where R = "\<lambda>l w. stands ?Y N w \<and> finished w = cl_last_finished_attempt l"])
      apply (auto simp: locals_def intro!: hoare_gets)[1]
     apply (rule hoare_bind [OF finish])
     apply (rule hoare_ret, simp)
    apply (simp add: hoare_def)
    done
qed

lemma fail_stands:
  assumes "\<And>c. c \<in> X \<Longrightarrow> may_follow c (terminal_state err)"
  shows "hoare (stands X N) (fail_call G e err)
    (\<lambda>res w. stands {terminal_state err} N w \<and> res = tool_result (dump_error err) True)
    (\<lambda>x w. stands {terminal_state err} N w \<and> x = CancelledExn)"
  unfolding fail_call_def
  apply (rule hoare_bind [OF hoare_sure [OF failure_stored [OF assms]]], assumption)
  apply (rule hoare_fact, erule conjunct2)
  apply simp
  apply (rule hoare_bind [OF write_audit_stands])
  apply (auto intro!: hoare_ret)
  done

abbreviation escapes :: "exn \<Rightarrow> ('s, 'q, 'x) world \<Rightarrow> bool" where
  "escapes x w \<equiv> stand (fates x) {} (fst w)"

lemma escapes_open: "stand X N g \<Longrightarrow> X \<subseteq> open_states \<Longrightarrow> stand (fates x) {} g"
  by (erule stands_mono) (auto simp: fates_def)

lemma steps_stand:
  "keeps (\<lambda>w. (gw_store (fst w), finished w)) m \<Longrightarrow> X \<subseteq> open_states \<Longrightarrow>
   hoare (stands X N) m (\<lambda>u. stands X N) escapes"
  by (rule hoare_post [OF stable_hoare [OF stable_stands]]) (auto elim: escapes_open)

lemma propose_stands: "keeps (\<lambda>w. (gw_store (fst w), finished w)) (propose_repair G e adv a sch d)"
  by (auto intro!: keeps_rules)

lemma validate_stands:
  "hoare (stands {RECEIVED} {}) (validate_phase G e) (\<lambda>r. stands {VALIDATED} {}) escapes"
  unfolding validate_phase_def validate_request_def Let_def
  by (rule hoare_bind [OF steps_stand])
    (auto intro!: keeps_rules propose_stands hoare_bind [OF hoare_sure [OF transition_stands]] hoare_ret
      split: sum.splits option.splits)

lemma denial_stands:
  "X \<subseteq> {POLICY_CHECKED, AWAITING_APPROVAL} \<Longrightarrow>
   hoare (stands X {}) (record_denial G e reason) (\<lambda>u. stands {DENIED} {}) E"
  unfolding record_denial_def
  by (rule hoare_bind [OF hoare_sure [OF transition_stands] hoare_sure [OF finish_stands]]) auto

lemma refuse_stands:
  "hoare (stands {AWAITING_APPROVAL} {}) (if approval_refused x
      then bind_io (record_denial G e reason) (\<lambda>u. raise_io x) else raise_io x) (\<lambda>u. Q) escapes"
  by (rule hoare_if, rule hoare_bind [OF denial_stands])
    (auto intro!: hoare_raise simp: fates_def approval_refused_denial elim!: stands_mono)

lemma await_stands:
  "hoare (stands {POLICY_CHECKED} {}) (await_approval G e request inp d) (\<lambda>u. stands {AWAITING_APPROVAL} {}) escapes"
proof (cases "gc_approval_queue G")
  case None
  then show ?thesis by (auto simp: await_approval_def intro!: hoare_raise elim!: escapes_open)
next
  case (Some Q)
  let ?A = "stands {AWAITING_APPROVAL} {}"
  have wait: "hoare ?A (catch_io (on_queue (aq_wait Q uid)) (\<lambda>x. if approval_refused x
      then bind_io (record_denial G e reason) (\<lambda>u. raise_io x) else raise_io x)) (\<lambda>r. ?A) escapes" for uid reason
    by (rule hoare_catch [OF stable_hoare [OF stable_stands] refuse_stands]) (auto intro: keeps_rules)
  have rest: "hoare ?A (when_io b (bind_io utc_now (\<lambda>t. bind_io (on_cp (m t)) (\<lambda>b. ret ())))) (\<lambda>u. ?A) escapes"
    for b and m :: "timestamp \<Rightarrow> (control_plane, bool) aio"
    by (rule steps_stand) (auto intro!: keeps_rules)
  show ?thesis
    unfolding await_approval_def Some option.case Let_def
    apply (rule hoare_bind [OF quiet_stands(3)], rule hoare_bind [OF quiet_stands(4)])
    apply (rule hoare_bind [OF hoare_sure [OF transition_stands]], simp)
    apply (rule hoare_bind [OF steps_stand], (auto intro!: keeps_rules)[2])
    apply (rule hoare_bind [OF quiet_stands(5)])
    apply (rule hoare_bind [OF steps_stand], (auto intro!: keeps_rules)[2])
    apply (rule hoare_bind [OF wait], rule hoare_bind [OF quiet_stands(5)])
    apply (rule hoare_bind [OF set_locals_stands rest], simp)
    done
qed

lemma policy_stands:
  "hoare (stands {VALIDATED} {}) (policy_phase G e request) (\<lambda>d. stands {POLICY_CHECKED, AWAITING_APPROVAL} {}) escapes"
proof -
  let ?Q = "stands {POLICY_CHECKED, AWAITING_APPROVAL} {}"
  have decide: "hoare (stands {POLICY_CHECKED} {})
     (if pd_outcome dec = REQUIRES_APPROVAL then await_approval G e request inp dec
      else if pd_outcome dec \<noteq> ALLOW
      then bind_io (record_denial G e (pd_reason dec)) (\<lambda>u. raise_io (GatewayExn (PolicyDeniedError (pd_reason dec))))
      else ret ()) (\<lambda>u. ?Q) escapes" for dec inp
    apply (rule hoare_if)
     apply (rule hoare_post [OF await_stands], erule stands_mono, simp_all)
    apply (auto intro!: hoare_bind [OF denial_stands] hoare_raise hoare_ret
        simp: fates_def denial_codes_def elim!: stands_mono)
    done
  show ?thesis
    unfolding policy_phase_def Let_def evaluate_policy_def
    apply (rule hoare_bind [OF steps_stand], (auto intro!: keeps_rules)[2])
    apply (rule hoare_bind [OF set_locals_stands], simp)
    apply (rule hoare_bind [OF steps_stand], (auto intro!: keeps_rules)[2])
    apply (rule hoare_bind [OF set_locals_stands], simp)
    apply (rule hoare_bind [OF hoare_sure [OF transition_stands]], simp)
    apply (rule hoare_bind [OF decide])
    apply (rule hoare_ret, assumption)
    done
qed

abbreviation running :: "tool_call_state set" where
  "running \<equiv> {POLICY_CHECKED, AWAITING_APPROVAL, EXECUTING}"

abbreviation latest :: "('s, 'q, 'x) gw \<Rightarrow> nat" where "latest g \<equiv> cl_latest_attempt (gw_locals g)"

lemma attempt_body_stands:
  "hoare (stands {EXECUTING} {n}) (attempt_body G e d n a) (\<lambda>r. stands {EXECUTING} {n}) (\<lambda>x. stands {EXECUTING} {n})"
proof -
  have step: "hoare (stands {EXECUTING} {n}) m (\<lambda>u. stands {EXECUTING} {n}) (\<lambda>x. stands {EXECUTING} {n})"
    if "keeps (\<lambda>w. (gw_store (fst w), finished w)) m" for m :: "('s, 'q, 'x, 'b) gio"
    using that by (rule stable_hoare [OF stable_stands])
  have recheck: "keeps (\<lambda>w. (gw_store (fst w), finished w)) (when_io b (recheck_policy G e d a))" for b
    by (auto simp: recheck_policy_def evaluate_policy_def intro!: keeps_rules)
  have tool: "keeps (\<lambda>w. (gw_store (fst w), finished w)) (run_tool G e a)"
    by (auto simp: run_tool_def intro!: keeps_rules)
  show ?thesis
    unfolding attempt_body_def
    apply (rule hoare_catch)
     apply (rule hoare_bind [OF step [OF recheck]])
     apply (rule hoare_bind [OF step [OF tool]])
     apply (rule hoare_bind [OF hoare_sure [OF finish_stands]], simp)
     apply (rule hoare_ret, assumption)
    apply (auto intro!: hoare_bind [OF hoare_sure [OF finish_stands]] hoare_raise split: exn.split)
    done
qed

lemma attempt_body_latest: "keeps (\<lambda>w. latest (fst w)) (attempt_body G e d n a)"
  by (auto simp: attempt_body_def recheck_policy_def run_tool_def evaluate_policy_def
      intro!: keeps_rules split: exn.splits)

lemma attempt_stands:
  "hoare (\<lambda>w. stands running {} w \<and> 1 \<le> latest (fst w)) (execute_attempt G e d a)
    (\<lambda>r. stands {EXECUTING} {}) (\<lambda>x w. stands running {} w \<and> 1 \<le> latest (fst w))"
  unfolding execute_attempt_def Let_def
proof (rule hoare_bind)
  let ?I = "\<lambda>n w. stands running {} w \<and> latest (fst w) = n \<and> 1 \<le> n"
  show "hoare (\<lambda>w. stands running {} w \<and> 1 \<le> latest (fst w)) locals (\<lambda>l. ?I (cl_latest_attempt l))
      (\<lambda>x w. stands running {} w \<and> 1 \<le> latest (fst w))"
    by (auto simp: locals_def intro!: hoare_gets)
  fix l
  let ?n = "cl_latest_attempt l"
  let ?F = "\<lambda>k. k = ?n \<and> 1 \<le> ?n"
  have frame: "hoare (\<lambda>w. stands X N w \<and> ?F (latest (fst w))) (on_store m) (\<lambda>u w. stands Y M w \<and> ?F (latest (fst w))) E"
    if "hoare (stands X N) (on_store m) (\<lambda>u. stands Y M) (\<lambda>x w. False)" for X N Y M E and m :: "('s, unit) aio"
    by (rule hoare_post [OF hoare_frame [OF that, where v = "\<lambda>w. latest (fst w)"]]) (auto intro: keeps_rules)
  have start: "hoare (?I ?n) (when_io (1 < ?n) (on_store (ss_start_attempt (gc_store G) (ce_call_id e) ?n)))
      (\<lambda>u w. stands running {?n} w \<and> ?F (latest (fst w))) E" for E
    by (rule hoare_when) (rule frame [OF start_stands], auto simp: stand_def)
  have body: "hoare (\<lambda>w. stands {EXECUTING} {?n} w \<and> ?F (latest (fst w))) (attempt_body G e d ?n a)
      (\<lambda>r w. stands {EXECUTING} {?n} w \<and> ?F (latest (fst w))) (\<lambda>x w. stands {EXECUTING} {?n} w \<and> ?F (latest (fst w)))"
    by (rule hoare_frame [OF attempt_body_stands attempt_body_latest])
  show "hoare (?I ?n) (bind_io (when_io (1 < ?n) (on_store (ss_start_attempt (gc_store G) (ce_call_id e) ?n)))
     (\<lambda>u. bind_io (on_store (ss_transition (gc_store G) (ce_call_id e) EXECUTING None)) (\<lambda>u.
       finally_io (attempt_body G e d ?n a)
       (\<lambda>(g, t). (g\<lparr>gw_locals := (gw_locals g)\<lparr>cl_last_finished_attempt := ?n,
          cl_latest_attempt := Suc (cl_latest_attempt (gw_locals g))\<rparr>\<rparr>, t)))))
     (\<lambda>r. stands {EXECUTING} {}) (\<lambda>x w. stands running {} w \<and> 1 \<le> latest (fst w))"
    apply (rule hoare_bind [OF start])
    apply (rule hoare_bind [OF frame [OF transition_stands [where s = EXECUTING]]])
     apply auto[1]
    apply (rule hoare_finally)
    apply (rule hoare_post [OF body])
     apply (auto simp: stand_def fit_def elim!: holds_mono)
    done
qed

lemma loop_stands:
  "hoare (\<lambda>w. stands running {} w \<and> 1 \<le> latest (fst w)) (run (RepairLoop p) a (execute_attempt G e d) ctx
      (case gc_repair_advisor G of None \<Rightarrow> None | Some adv \<Rightarrow> Some (repair_arguments G e d)))
    (\<lambda>(x, n). stands {EXECUTING} {}) (\<lambda>x. stands running {})"
proof (rule scripted.run_hoare [where I = "\<lambda>n a g. stand running {} g \<and> 1 \<le> latest g" and
      Q = "\<lambda>n x. stand {EXECUTING} {}" and E = "\<lambda>x. stand running {}" and
      R = "\<lambda>n a x g. stand running {} g \<and> 1 \<le> latest g"])
  show "hoare (\<lambda>w. stands running {} w \<and> 1 \<le> latest (fst w)) (execute_attempt G e d cur)
      (\<lambda>x. stands {EXECUTING} {}) (\<lambda>x w. stands running {} w \<and> 1 \<le> latest (fst w))" for cur
    by (rule attempt_stands)
  fix f n cur x
  assume f: "(case gc_repair_advisor G of None \<Rightarrow> None | Some adv \<Rightarrow> Some (repair_arguments G e d)) = Some f"
  have "keeps (\<lambda>w. (gw_store (fst w), finished w)) (repair_arguments G e d cur (diagnose x))"
    "keeps (\<lambda>w. latest (fst w)) (repair_arguments G e d cur (diagnose x))"
    by (auto simp: repair_arguments_def intro!: keeps_rules split: option.splits)
  from hoare_frame [OF stable_hoare [OF stable_stands [OF this(1)]] this(2), of running "{}" "\<lambda>n. 1 \<le> n"]
  have "hoare (\<lambda>w. stands running {} w \<and> 1 \<le> latest (fst w)) (repair_arguments G e d cur (diagnose x))
      (\<lambda>cur' w. (stands running {} w \<and> 1 \<le> latest (fst w)) \<and> stands running {} w) (\<lambda>x. stands running {})"
    by (rule hoare_post) auto
  with f show "hoare (\<lambda>w. stands running {} w \<and> 1 \<le> latest (fst w)) (f cur (diagnose x))
      (\<lambda>cur' w. (stands running {} w \<and> 1 \<le> latest (fst w)) \<and> stands running {} w) (\<lambda>x. stands running {})"
    by (auto split: option.splits)
qed auto

text \<open>A result that agrees with the recorded state; a cancellation may strike at any point.\<close>

definition ended :: "call_tool_result \<Rightarrow> ('s, 'q, 'x) world \<Rightarrow> bool" where
  "ended res w = (stands {SUCCEEDED} {} w \<and> \<not> cr_is_error res \<or>
     (\<exists>err. stands {terminal_state err} {} w \<and> res = tool_result (dump_error err) True))"

definition aborted :: "exn \<Rightarrow> ('s, 'q, 'x) world \<Rightarrow> bool" where
  "aborted x w = (x = CancelledExn \<and> stands UNIV {} w)"

lemma execution_stands:
  "hoare (\<lambda>w. stands {POLICY_CHECKED, AWAITING_APPROVAL} {} w \<and> latest (fst w) = 1) (execution_phase G e a d)
    ended (\<lambda>x w. escapes x w \<or> aborted x w)"
  unfolding execution_phase_def
  apply (rule hoare_bind [where R = "\<lambda>(x, n). stands {EXECUTING} {}"])
   apply (rule hoare_weaken [OF loop_stands])
     apply (auto elim: stands_mono escapes_open)[3]
  apply (clarsimp split: prod.splits)
  apply (rule hoare_bind [OF hoare_sure [OF transition_stands]])
   apply auto[1]
  apply (rule hoare_bind)
   apply (rule hoare_post [OF write_audit_stands], assumption)
   apply (rule disjI2, unfold aborted_def, blast intro: stands_mono)
  apply (rule hoare_ret)
  apply (simp add: ended_def tool_result_def)
  done

lemma process_stands:
  "hoare (\<lambda>w. stands {RECEIVED} {} w \<and> latest (fst w) = 1) (process_call G e) ended (\<lambda>x w. escapes x w \<or> aborted x w)"
proof -
  have kv: "keeps (\<lambda>w. latest (fst w)) (validate_phase G e)"
    by (auto simp: validate_phase_def validate_request_def Let_def intro!: keeps_rules split: sum.splits option.splits)
  have kp: "keeps (\<lambda>w. latest (fst w)) (policy_phase G e request)" for request
    by (auto simp: policy_phase_def await_approval_def record_denial_def evaluate_policy_def Let_def
        intro!: keeps_rules)
  show ?thesis
    unfolding process_call_def
    apply (rule hoare_bind)
     apply (rule hoare_post [OF hoare_frame [OF validate_stands kv, of "\<lambda>n. n = 1"]], assumption, simp)
    apply (rule hoare_bind)
     apply (rule hoare_post [OF hoare_frame [OF policy_stands kp, of "\<lambda>n. n = 1"]], assumption, simp)
    apply (rule execution_stands)
    done
qed

lemma terminal_follows:
  "c \<in> fates (GatewayExn err) \<Longrightarrow> may_follow c (terminal_state err)"
  "c \<in> fates (PyExn k m) \<Longrightarrow> may_follow c (terminal_state (ToolExecutionError t))"
  by (auto simp: fates_def terminal_state_def denial_codes_def split: if_splits)

lemma settle_stands:
  "hoare (\<lambda>w. stands {RECEIVED} {} w \<and> latest (fst w) = 1) (settle_call G e) ended aborted"
proof -
  have fail: "hoare (\<lambda>w. escapes x w \<or> aborted x w) (fail_call G e err) ended aborted"
    if "x \<noteq> CancelledExn" "\<And>c. c \<in> fates x \<Longrightarrow> may_follow c (terminal_state err)" for x err
    by (rule hoare_weaken [OF fail_stands [OF that(2)]])
      (use that(1) in \<open>auto simp: aborted_def ended_def elim: stands_mono\<close>)
  show ?thesis
    unfolding settle_call_def
  proof (rule hoare_catch [OF process_stands])
    show "hoare (\<lambda>w. escapes x w \<or> aborted x w) (case x of
         GatewayExn err \<Rightarrow> fail_call G e err
       | PyExn c m \<Rightarrow> fail_call G e (ToolExecutionError ''The tool failed unexpectedly'')
       | CancelledExn \<Rightarrow> raise_io x) ended aborted" for x
    proof (cases x)
      case (GatewayExn err)
      then show ?thesis using fail [of x err] terminal_follows(1) by simp
    next
      case (PyExn c m)
      then show ?thesis using fail [of x] terminal_follows(2) by simp
    next
      case CancelledExn
      then show ?thesis by (auto simp: aborted_def intro!: hoare_raise elim!: stands_mono)
    qed
  qed
qed

end

interpretation in_memory_life: lifecycle_call InMemoryStateStore ms_calls "\<lambda>_. True"
  "G\<lparr>gc_store := InMemoryStateStore\<rparr>" e for G e
  by unfold_locales simp

section \<open>Counting executions and audit records\<close>

definition executions :: "gw_event list \<Rightarrow> nat" where
  "executions h = length (filter is_execution h)"

abbreviation executed :: "('s, 'q, 'x) world \<Rightarrow> nat" where
  "executed w \<equiv> executions (gw_log (fst w))"

lemma executions_Cons [simp]: "executions (ev # h) = (if is_execution ev then Suc (executions h) else executions h)"
  by (simp add: executions_def)

lemma phases_execute_nothing [keeps_rules]:
  "keeps executed (validate_phase G e)" "keeps executed (policy_phase G e request)"
  "keeps executed (recheck_policy G e d a)" "keeps executed (repair_arguments G e d a diag)"
  by (auto simp: validate_phase_def validate_request_def policy_phase_def await_approval_def record_denial_def evaluate_policy_def
      recheck_policy_def repair_arguments_def Let_def intro!: keeps_rules split: sum.splits option.splits)

lemma counts_step: "keeps executed m \<Longrightarrow> hoare (\<lambda>w. executed w \<le> k) m (\<lambda>x w. executed w \<le> k) (\<lambda>x w. executed w \<le> k)"
  by (rule keeps_hoare)

lemma counts_quiet: "keeps executed m \<Longrightarrow> hoare (\<lambda>w. executed w \<le> k) m (\<lambda>x w. executed w \<le> k) (\<lambda>x w. executed w \<le> Suc k)"
  by (rule hoare_post [OF counts_step]) auto

lemma run_tool_counts:
  "hoare (\<lambda>w. executed w \<le> k) (run_tool G e a) (\<lambda>x w. executed w \<le> Suc k) (\<lambda>x w. executed w \<le> Suc k)"
  unfolding run_tool_def
  apply (rule hoare_bind [where R = "\<lambda>x w. executed w \<le> k"])
   apply (rule hoare_lift_res; simp)
  apply (rule hoare_bind [where R = "\<lambda>x w. executed w \<le> Suc k"])
   apply (auto simp: log_event_def intro!: hoare_modify)[1]
  apply (rule counts_step)
  apply (auto intro!: keeps_rules)
  done

lemma attempt_counts:
  "hoare (\<lambda>w. executed w \<le> k) (execute_attempt G e d a) (\<lambda>x w. executed w \<le> Suc k) (\<lambda>x w. executed w \<le> Suc k)"
proof -
  have body: "hoare (\<lambda>w. executed w \<le> k) (attempt_body G e d n a) (\<lambda>x w. executed w \<le> Suc k) (\<lambda>x w. executed w \<le> Suc k)" for n
    unfolding attempt_body_def
    apply (rule hoare_catch [where R = "\<lambda>x w. executed w \<le> Suc k"])
     apply (rule hoare_bind [OF counts_quiet])
      apply (auto intro!: keeps_rules)[1]
     apply (rule hoare_bind [OF run_tool_counts])
     apply (rule counts_step)
     apply (auto intro!: keeps_rules)[1]
    apply (rule counts_step)
    apply (auto intro!: keeps_rules split: exn.splits)
    done
  show ?thesis
    unfolding execute_attempt_def Let_def
    apply (rule hoare_bind [OF counts_quiet], rule keeps_locals)
    apply (rule hoare_bind [OF counts_quiet], (auto intro!: keeps_rules)[1])
    apply (rule hoare_bind [OF counts_quiet], (auto intro!: keeps_rules)[1])
    apply (rule hoare_finally, rule hoare_post [OF body])
     apply (auto split: prod.splits)
    done
qed

text \<open>Without permission to retry the loop executes once.\<close>

lemma unsafe_run:
  fixes w :: "'b \<times> loop_env"
  assumes "rx_risk_class ctx \<noteq> READ_ONLY" "\<not> rx_idempotent ctx"
  shows "\<exists>w1. fst w1 = fst w \<and> fst (snd (run (RepairLoop p) a executor ctx repairer w)) = fst (snd (executor a w1))"
proof -
  let ?L = "RepairLoop p :: ('b \<times> loop_env) repair_loop"
  obtain t w1 where m: "rl_monotonic ?L w = (t, w1)" by (rule prod.exhaust)
  obtain r w2 where ex: "executor a w1 = (r, w2)" by (rule prod.exhaust)
  have no: "\<exists>w3. can_retry ?L d ctx n st w2 = (False, w3) \<and> fst w3 = fst w2" for d n st
  proof -
    obtain b w3 where cr: "can_retry ?L d ctx n st w2 = (b, w3)" by (rule prod.exhaust)
    with assms scripted.can_retry_keeps [OF cr] show ?thesis
      by (auto simp: can_retry_def split: if_splits prod.splits)
  qed
  have "fst (snd (run_from ?L executor ctx repairer t 1 a w1)) = fst w2"
  proof (cases r)
    case (Inl x)
    obtain w3 where "can_retry ?L (diagnose x) ctx (Suc 0) t w2 = (False, w3)" "fst w3 = fst w2"
      using no by blast
    with ex Inl show ?thesis by (simp add: run_from.simps [of ?L])
  qed (simp add: ex run_from.simps [of ?L])
  with m ex scripted.monotonic_keeps [OF m] show ?thesis
    by (intro exI [of _ w1]) (simp add: run_def)
qed

lemma loop_counts:
  "hoare (\<lambda>w. executed w \<le> k) (run (RepairLoop default_backoff) a (execute_attempt G e d) ctx
      (case gc_repair_advisor G of None \<Rightarrow> None | Some adv \<Rightarrow> Some (repair_arguments G e d)))
    (\<lambda>x w. executed w \<le> k + (if rx_risk_class ctx = READ_ONLY \<or> rx_idempotent ctx then 3 else 1))
    (\<lambda>x w. executed w \<le> k + (if rx_risk_class ctx = READ_ONLY \<or> rx_idempotent ctx then 3 else 1))"
proof (cases "rx_risk_class ctx = READ_ONLY \<or> rx_idempotent ctx")
  case False
  have "executed (snd (execute_attempt G e d a w1)) \<le> Suc k" if "executed w1 \<le> k" for w1
    using attempt_counts [of k G e d a] that by (cases rule: hoare_cases) auto
  then have count: "executed (snd (run (RepairLoop default_backoff) a (execute_attempt G e d) ctx
      (case gc_repair_advisor G of None \<Rightarrow> None | Some adv \<Rightarrow> Some (repair_arguments G e d)) w)) \<le> Suc k"
    if "executed w \<le> k" for w
    using unsafe_run [of ctx w default_backoff a "execute_attempt G e d"] False that by metis
  show ?thesis
    using False by (intro hoareI) (auto dest: count)
next
  case True
  let ?n = "\<lambda>g. executions (gw_log g)"
  have "hoare (\<lambda>w. ?n (fst w) \<le> k + (1 - 1) \<and> (1::nat) \<le> 1 \<and> (1::nat) \<le> 3) (run (RepairLoop default_backoff) a (execute_attempt G e d) ctx
      (case gc_repair_advisor G of None \<Rightarrow> None | Some adv \<Rightarrow> Some (repair_arguments G e d)))
    (\<lambda>(x, n) w. ?n (fst w) \<le> k + 3) (\<lambda>x w. ?n (fst w) \<le> k + 3)"
  proof (rule scripted.run_hoare [where I = "\<lambda>n a g. ?n g \<le> k + (n - 1) \<and> 1 \<le> n \<and> n \<le> 3" and Q = "\<lambda>n x g. ?n g \<le> k + 3" and
        R = "\<lambda>n a x g. ?n g \<le> k + n \<and> 1 \<le> n \<and> n \<le> 3" and E = "\<lambda>x g. ?n g \<le> k + 3"])
    show "hoare (\<lambda>w. ?n (fst w) \<le> k + (n - 1) \<and> 1 \<le> n \<and> n \<le> 3) (execute_attempt G e d cur)
      (\<lambda>x w. ?n (fst w) \<le> k + 3) (\<lambda>x w. ?n (fst w) \<le> k + n \<and> 1 \<le> n \<and> n \<le> 3)" for n cur
      by (rule hoare_fact [where F = "1 \<le> n \<and> n \<le> 3"], simp,
          rule hoare_weaken [OF attempt_counts [of "k + (n - 1)"]]) auto
  next
    fix f n cur x
    assume f: "(case gc_repair_advisor G of None \<Rightarrow> None | Some adv \<Rightarrow> Some (repair_arguments G e d)) = Some f"
      and n: "int n < bp_max_attempts (rl_policy (RepairLoop default_backoff))"
    from f have keeps: "keeps executed (f cur (diagnose x))"
      by (auto split: option.splits intro: keeps_rules)
    have "n < 3" using n by (simp add: RepairLoop_def default_backoff_def)
    then show "hoare (\<lambda>w. ?n (fst w) \<le> k + n \<and> 1 \<le> n \<and> n \<le> 3) (f cur (diagnose x))
      (\<lambda>cur' w. (?n (fst w) \<le> k + (Suc n - 1) \<and> 1 \<le> Suc n \<and> Suc n \<le> 3) \<and> ?n (fst w) \<le> k + 3)
      (\<lambda>x w. ?n (fst w) \<le> k + 3)"
      by (intro hoare_weaken [OF counts_step [OF keeps, of "k + n"]]) auto
  qed (auto simp: RepairLoop_def default_backoff_def)
  then show ?thesis using True by (elim hoare_weaken) (auto simp: case_prod_unfold)
qed

lemma policy_result:
  "hoare (\<lambda>w. True) (policy_phase G e request) (\<lambda>d w. registry_get (gc_registry G) (ce_tool_name e) = Inr d) (\<lambda>x w. True)"
  unfolding policy_phase_def Let_def
  apply (rule hoare_bind [where R = "\<lambda>d w. registry_get (gc_registry G) (ce_tool_name e) = Inr d"])
   apply (rule hoare_lift_res; simp)
  apply (rule hoare_fact, assumption)
  apply (rule hoare_pre [where P' = "\<lambda>w. True"])
   apply (rule yields_bind)+
   apply (rule hoare_ret, assumption)
  apply simp
  done

definition execution_limit :: "'x tool_registry \<Rightarrow> string \<Rightarrow> nat" where
  "execution_limit reg name = (case registry_get reg name of
       Inl x \<Rightarrow> 0
     | Inr d \<Rightarrow> if td_risk_class d = READ_ONLY \<or> td_idempotent d then 3 else 1)"

lemma process_counts:
  "hoare (\<lambda>w. executed w \<le> k) (process_call G e)
    (\<lambda>x w. executed w \<le> k + execution_limit (gc_registry G) (ce_tool_name e))
    (\<lambda>x w. executed w \<le> k + execution_limit (gc_registry G) (ce_tool_name e))"
proof -
  let ?L = "execution_limit (gc_registry G) (ce_tool_name e)"
  have quiet: "keeps executed m \<Longrightarrow> hoare (\<lambda>w. executed w \<le> k) m (\<lambda>x w. executed w \<le> k) (\<lambda>x w. executed w \<le> k + ?L)" for m :: "('a, 'b, 'c, jdict) gio"
    by (rule hoare_post [OF counts_step]) auto
  have policy: "hoare (\<lambda>w. executed w \<le> k) (policy_phase G e request)
      (\<lambda>d w. executed w \<le> k \<and> registry_get (gc_registry G) (ce_tool_name e) = Inr d) (\<lambda>x w. executed w \<le> k + ?L)" for request
    using hoare_conj [OF counts_step [OF phases_execute_nothing(2)] policy_result, of k G e request]
    by (rule hoare_weaken) auto
  have exec: "hoare (\<lambda>w. executed w \<le> k) (execution_phase G e request d) (\<lambda>x w. executed w \<le> k + ?L) (\<lambda>x w. executed w \<le> k + ?L)"
    if "registry_get (gc_registry G) (ce_tool_name e) = Inr d" for request d
  proof -
    have lim: "execution_limit (gc_registry G) (ce_tool_name e) =
        (if rx_risk_class (repair_context_for e d) = READ_ONLY \<or> rx_idempotent (repair_context_for e d) then 3 else 1)"
      using that by (simp add: execution_limit_def repair_context_for_def)
    show ?thesis
      unfolding execution_phase_def lim
      by (rule hoare_bind [OF loop_counts]) (auto intro!: counts_step keeps_rules split: prod.splits)
  qed
  show ?thesis
    unfolding process_call_def
    by (rule hoare_bind [OF quiet], rule phases_execute_nothing, rule hoare_bind [OF policy],
        rule hoare_fact, erule conjunct2, rule hoare_pre [OF exec]) auto
qed

lemma settle_counts:
  "executed (snd (settle_call G e w)) \<le> executed w + execution_limit (gc_registry G) (ce_tool_name e)"
proof -
  let ?Q = "\<lambda>x w'. executed w' \<le> executed w + execution_limit (gc_registry G) (ce_tool_name e)"
  have "hoare (\<lambda>w'. executed w' \<le> executed w) (settle_call G e) ?Q ?Q"
    unfolding settle_call_def
    by (rule hoare_catch [OF process_counts]) (auto intro!: counts_step keeps_rules split: exn.splits)
  then show ?thesis by (cases rule: hoare_cases [where w = w]) auto
qed

section \<open>Properties\<close>



text \<open>C27: a call executes its tool a bounded number of times: never when the tool is unknown, once
  when the tool is neither read-only nor idempotent, and at most three times otherwise, whatever
  fails on the way.\<close>

theorem executions_bounded:
  "executions (gw_log (fst (snd (execute_tool_call G trace session name arguments who w)))) \<le>
   executions (gw_log (fst w)) + execution_limit (gc_registry G) name"
proof -
  obtain r w' where run: "execute_tool_call G trace session name arguments who w = (r, w')"
    by (rule prod.exhaust)
  from run show ?thesis
  proof (cases rule: execute_cases)
    case (settled e risk now w1)
    with settle_counts [of G e w1] run show ?thesis by (simp add: untouched_def)
  qed (auto simp: run untouched_def)
qed

end
