(* ===== verification/Audit_Trail.thy ===== *)
theory Audit_Trail
  imports Lifecycle
begin

text \<open>
  What \<open>execute_tool_call\<close> leaves behind beyond the state store: how often a call writes to the
  audit log, and that a call that was not recorded has no effect.
\<close>

section \<open>Counting audit records\<close>

abbreviation audited :: "('s, 'q, 'x) world \<Rightarrow> nat" where
  "audited w \<equiv> al_writes (gw_audit (fst w))"

lemma phases_audit_nothing [keeps_rules]:
  "keeps audited (validate_phase G e)" "keeps audited (policy_phase G e request)"
  "keeps audited (execute_attempt G e d a)" "keeps audited (repair_arguments G e d a diag)"
  "keeps audited (audited_attempts G e)"
  by (auto simp: validate_phase_def validate_request_def policy_phase_def await_approval_def record_denial_def evaluate_policy_def
      execute_attempt_def attempt_body_def run_tool_def audited_attempts_def
      recheck_policy_def repair_arguments_def Let_def intro!: keeps_rules split: sum.splits option.splits exn.splits)

lemma audits_step: "keeps audited m \<Longrightarrow> hoare (\<lambda>w. audited w = k) m (\<lambda>x w. audited w = k) (\<lambda>x w. audited w = k)"
  by (rule keeps_hoare)

lemma loop_audits:
  "hoare (\<lambda>w. audited w = k) (run (RepairLoop p) a (execute_attempt G e d) ctx
      (case gc_repair_advisor G of None \<Rightarrow> None | Some adv \<Rightarrow> Some (repair_arguments G e d)))
    (\<lambda>(x, n) w. audited w = k) (\<lambda>x w. audited w = k)"
proof (rule scripted.run_hoare [where I = "\<lambda>n a g. al_writes (gw_audit g) = k" and
      Q = "\<lambda>n x g. al_writes (gw_audit g) = k" and R = "\<lambda>n a x g. al_writes (gw_audit g) = k" and
      E = "\<lambda>x g. al_writes (gw_audit g) = k"])
  fix f n cur x
  assume "(case gc_repair_advisor G of None \<Rightarrow> None | Some adv \<Rightarrow> Some (repair_arguments G e d)) = Some f"
  then have "keeps audited (f cur (diagnose x))" by (auto split: option.splits intro: keeps_rules)
  from audits_step [OF this, of k]
  show "hoare (\<lambda>w. audited w = k) (f cur (diagnose x)) (\<lambda>cur' w. audited w = k \<and> audited w = k) (\<lambda>x w. audited w = k)"
    by (rule hoare_post) auto
qed (auto intro!: audits_step phases_audit_nothing)

abbreviation one_if_logged :: "('s, 'q, 'x) gateway \<Rightarrow> nat" where
  "one_if_logged G \<equiv> (if gc_audit_logger G = None then 0 else 1)"

lemma audit_append_writes: "al_writes (snd (audit_append C f s)) = Suc (al_writes s)"
  by (simp add: audit_append_def append_sync_def Let_def split: write_fate.splits)

lemma write_audit_counts:
  "hoare (\<lambda>w. audited w = k) (write_audit G e out) (\<lambda>u w. audited w = k + one_if_logged G)
    (\<lambda>x w. audited w \<le> Suc k \<and> (x \<noteq> CancelledExn \<longrightarrow> audited w = k))"
proof (cases "gc_audit_logger G")
  case None
  then show ?thesis by (simp add: write_audit_def hoare_ret)
next
  case (Some codec)
  have quiet: "hoare (\<lambda>w. audited w = k) m (\<lambda>u w. audited w = k)
      (\<lambda>x w. audited w \<le> Suc k \<and> (x \<noteq> CancelledExn \<longrightarrow> audited w = k))"
    if "hoare (\<lambda>w. audited w = k) m (\<lambda>u w. audited w = k) (\<lambda>x w. audited w = k)" for m :: "('a, 'b, 'c, 'd) gio"
    by (rule hoare_post [OF that]) auto
  have append: "hoare (\<lambda>w. audited w = k) (except_exception (bind_io (on_audit (audit_append C f)) (\<lambda>r. ret ())) (ret ()))
      (\<lambda>u w. audited w = Suc k) (\<lambda>x w. audited w \<le> Suc k \<and> (x \<noteq> CancelledExn \<longrightarrow> audited w = k))" for C f
  proof -
    have "hoare (\<lambda>w. audited w = k) (bind_io (on_audit (audit_append C f)) (\<lambda>r. ret ()))
        (\<lambda>u w. audited w = Suc k) (\<lambda>x w. audited w = Suc k)"
    proof (rule hoare_bind [where R = "\<lambda>r w. audited w = Suc k"])
      show "hoare (\<lambda>w. audited w = k) (on_audit (audit_append C f)) (\<lambda>r w. audited w = Suc k) (\<lambda>x w. audited w = Suc k)"
      proof (rule hoareI)
        fix w x w' assume "audited w = k" "on_audit (audit_append C f) w = (Inr x, w')"
        with audit_append_writes [of C f "gw_audit (fst w)"] show "audited w' = Suc k"
          by (auto simp: on_audit_def split: prod.splits)
      next
        fix w x w' assume "audited w = k" "on_audit (audit_append C f) w = (Inl x, w')"
        with audit_append_writes [of C f "gw_audit (fst w)"] show "audited w' = Suc k"
          by (auto simp: on_audit_def split: prod.splits)
      qed
    qed (auto intro: hoare_ret)
    then show ?thesis
      unfolding except_exception_def
    proof (rule hoare_catch)
      show "hoare (\<lambda>w. audited w = Suc k) (if is_exception x then ret () else raise_io x)
          (\<lambda>u w. audited w = Suc k) (\<lambda>x w. audited w \<le> Suc k \<and> (x \<noteq> CancelledExn \<longrightarrow> audited w = k))" for x
        by (cases x) (auto intro: hoare_ret hoare_raise)
    qed
  qed
  show ?thesis
    unfolding write_audit_def Some option.case
    apply (rule hoare_bind [where R = "\<lambda>u w. audited w = k"])
     apply (rule hoare_post [OF audits_step [OF phases_audit_nothing(5)]], assumption, simp)
    apply (rule hoare_bind [where R = "\<lambda>u w. audited w = k"])
     apply (rule hoare_post [OF audits_step [OF keeps_locals]], assumption, simp)
    apply (rule hoare_bind [where R = "\<lambda>u w. audited w = k"])
     apply (rule hoare_post [OF audits_step [OF keeps_monotonic]], simp, assumption, simp)
    apply (rule hoare_post [OF append], simp_all)
    done
qed

lemma process_audits:
  "hoare (\<lambda>w. audited w = k) (process_call G e) (\<lambda>res w. audited w = k + one_if_logged G \<and> \<not> cr_is_error res)
    (\<lambda>x w. audited w \<le> Suc k \<and> (x \<noteq> CancelledExn \<longrightarrow> audited w = k))"
  unfolding process_call_def execution_phase_def
  apply (rule hoare_bind [where R = "\<lambda>u w. audited w = k"])
   apply (rule hoare_post [OF audits_step [OF phases_audit_nothing(1)]], assumption, simp)
  apply (rule hoare_bind [where R = "\<lambda>u w. audited w = k"])
   apply (rule hoare_post [OF audits_step [OF phases_audit_nothing(2)]], assumption, simp)
  apply (rule hoare_bind [where R = "\<lambda>u w. audited w = k"])
   apply (rule hoare_post [OF loop_audits], (simp add: case_prod_unfold)[1], simp)
  apply (simp only: split_beta)
  apply (rule hoare_bind [where R = "\<lambda>u w. audited w = k"])
   apply (rule hoare_post [OF audits_step [OF keeps_on_store]], simp, assumption, simp)
  apply (rule hoare_bind [OF hoare_post [OF write_audit_counts]], assumption, assumption)
  apply (rule hoare_ret, simp add: tool_result_def)
  done

lemma fail_audits:
  "hoare (\<lambda>w. audited w = k) (fail_call G e err) (\<lambda>res w. audited w \<le> Suc k \<and> cr_is_error res) (\<lambda>x w. audited w \<le> Suc k)"
  unfolding fail_call_def
  apply (rule hoare_bind [where R = "\<lambda>u w. audited w = k"])
   apply (rule hoare_post [OF audits_step], (auto intro!: keeps_rules)[1], assumption, simp)
  apply (rule hoare_if)
   apply (rule hoare_bind [where R = "\<lambda>u w. audited w \<le> Suc k"])
    apply (rule hoare_post [OF write_audit_counts], simp_all split: if_splits)
   apply (rule hoare_ret, simp add: tool_result_def)
  apply (rule hoare_ret, simp add: tool_result_def)
  done

lemma settle_audits:
  "hoare (\<lambda>w. audited w = k) (settle_call G e)
    (\<lambda>res w. audited w \<le> Suc k \<and> (\<not> cr_is_error res \<longrightarrow> audited w = k + one_if_logged G)) (\<lambda>x w. audited w \<le> Suc k)"
proof -
  have fail: "hoare (\<lambda>w. audited w \<le> Suc k \<and> (x \<noteq> CancelledExn \<longrightarrow> audited w = k)) (fail_call G e err)
      (\<lambda>res w. audited w \<le> Suc k \<and> (\<not> cr_is_error res \<longrightarrow> audited w = k + one_if_logged G)) (\<lambda>x w. audited w \<le> Suc k)"
    if "x \<noteq> CancelledExn" for x err
    by (rule hoare_weaken [OF fail_audits [of k]]) (use that in auto)
  show ?thesis
    unfolding settle_call_def
  proof (rule hoare_catch)
    show "hoare (\<lambda>w. audited w = k) (process_call G e)
      (\<lambda>res w. audited w \<le> Suc k \<and> (\<not> cr_is_error res \<longrightarrow> audited w = k + one_if_logged G))
      (\<lambda>x w. audited w \<le> Suc k \<and> (x \<noteq> CancelledExn \<longrightarrow> audited w = k))"
      by (rule hoare_post [OF process_audits]) auto
    show "hoare (\<lambda>w. audited w \<le> Suc k \<and> (x \<noteq> CancelledExn \<longrightarrow> audited w = k)) (case x of
         GatewayExn err \<Rightarrow> fail_call G e err
       | PyExn c m \<Rightarrow> fail_call G e (ToolExecutionError ''The tool failed unexpectedly'')
       | CancelledExn \<Rightarrow> raise_io x)
      (\<lambda>res w. audited w \<le> Suc k \<and> (\<not> cr_is_error res \<longrightarrow> audited w = k + one_if_logged G))
      (\<lambda>x w. audited w \<le> Suc k)" for x
      by (cases x) (use fail [of x] in \<open>auto intro: hoare_raise\<close>)
  qed
qed

section \<open>Properties\<close>



text \<open>C28: a call that could not be recorded has no effect.  When the state store refuses the record of a
  new call, \<open>execute_tool_call\<close> asks neither the policy, nor an approver, nor an advisor, nor the tool:
  the history, the approval queue, the outside world and the audit log are as before, and the result, if
  there is one, is an error.\<close>

theorem unrecorded_call_has_no_effect:
  assumes "\<And>record. fst (ss_create_call (gc_store G) record (gw_store (fst w))) \<noteq> Inr ()"
    and "execute_tool_call G trace session name arguments who w = (r, w')"
  shows "untouched (fst w') = untouched (fst w) \<and> (\<forall>res. r = Inr res \<longrightarrow> cr_is_error res)"
  using assms(2)
proof (cases rule: execute_cases)
  case (unpersisted e risk now)
  with assms(1) [of "new_record e risk now"] show ?thesis by simp
next
  case (settled e risk now w1)
  with assms(1) [of "new_record e risk now"] show ?thesis by simp
qed simp

theorem unrecorded_call_has_no_effect_witness:
  "gw_outside (fst (snd (execute_tool_call (demo_gateway (RedisStateStore demo_config) strict_policy None) ''t'' ''s''
     ''db_query'' (Some (sql_arguments ''SELECT 1'')) None (demo_world (demo_redis (\<lambda>i. NetFail)) [])))) = []"
proof -
  let ?G = "demo_gateway (RedisStateStore demo_config) strict_policy None"
  let ?w = "demo_world (demo_redis (\<lambda>i. NetFail)) []"
  obtain r w' where run: "execute_tool_call ?G ''t'' ''s'' ''db_query'' (Some (sql_arguments ''SELECT 1'')) None ?w = (r, w')"
    by (rule prod.exhaust)
  have "fst (ss_create_call (gc_store ?G) r0 (gw_store (fst ?w))) \<noteq> Inr ()" for r0
    by (simp add: demo_gateway_def RedisStateStore_def redis_create_call_def demo_world_def demo_redis_def Let_def)
  from unrecorded_call_has_no_effect [OF this run] run show ?thesis
    by (simp add: untouched_def) (simp add: demo_world_def)
qed

end
