(* ===== verification/Db_Query.thy ===== *)
theory Db_Query
  imports Registry Json_Loads
begin

text \<open>
  The read-only SQL tool (\<open>gateway/tools/db_query.py\<close>): its input and output models and the query.
  SQLite is a parameter: opening a database, the authorizer actions of a statement, and its cursor.
\<close>

section \<open>Input and output models\<close>

definition is_scalar :: "json \<Rightarrow> bool" where
  "is_scalar v = (case v of JStr s \<Rightarrow> True | JInt i \<Rightarrow> True | JFloat r \<Rightarrow> True | JNull \<Rightarrow> True | _ \<Rightarrow> False)"

definition sql_parameters_ok :: "json \<Rightarrow> bool" where
  "sql_parameters_ok v = (case v of
       JList vs \<Rightarrow> list_all is_scalar vs
     | JObj d \<Rightarrow> list_all (\<lambda>(k, v). is_scalar v) d
     | _ \<Rightarrow> False)"

definition allowed_fields :: "string list \<Rightarrow> jdict \<Rightarrow> bool" where
  "allowed_fields ks d = list_all (\<lambda>(k, v). k \<in> set ks) d"

definition text_between :: "nat \<Rightarrow> nat \<Rightarrow> json \<Rightarrow> bool" where
  "text_between lo hi v = (case v of JStr s \<Rightarrow> lo \<le> length s \<and> length s \<le> hi | _ \<Rightarrow> False)"

text \<open>The validated request, \<open>None\<close> when pydantic reports errors.\<close>

definition DbQueryInput :: "jdict \<Rightarrow> jdict option" where
  "DbQueryInput a =
     (let parameters = (case dict_get a ''parameters'' of None \<Rightarrow> JObj [] | Some v \<Rightarrow> v);
          max_rows = (case dict_get a ''max_rows'' of None \<Rightarrow> JInt 100 | Some v \<Rightarrow> v)
      in if \<not> allowed_fields [''query'', ''parameters'', ''max_rows''] a then None
         else (case (dict_get a ''query'', max_rows) of
             (Some query, JInt n) \<Rightarrow>
               if text_between 1 10000 query \<and> sql_parameters_ok parameters \<and> 1 \<le> n \<and> n \<le> 500
               then Some [(''query'', query), (''parameters'', parameters), (''max_rows'', JInt n)]
               else None
           | _ \<Rightarrow> None))"

definition is_text :: "json \<Rightarrow> bool" where
  "is_text v = (case v of JStr s \<Rightarrow> True | _ \<Rightarrow> False)"

definition row_ok :: "json \<Rightarrow> bool" where
  "row_ok v = (case v of JObj d \<Rightarrow> list_all (\<lambda>(k, v). is_scalar v) d | _ \<Rightarrow> False)"

definition DbQueryOutput :: "jdict \<Rightarrow> jdict option" where
  "DbQueryOutput a =
     (if \<not> allowed_fields [''columns'', ''rows'', ''row_count'', ''truncated''] a then None
      else (case (dict_get a ''columns'', dict_get a ''rows'', dict_get a ''row_count'', dict_get a ''truncated'') of
          (Some (JList columns), Some (JList rows), Some (JInt row_count), Some (JBool truncated)) \<Rightarrow>
            if list_all is_text columns \<and> list_all row_ok rows \<and> 0 \<le> row_count
            then Some [(''columns'', JList columns), (''rows'', JList rows), (''row_count'', JInt row_count),
              (''truncated'', JBool truncated)]
            else None
        | _ \<Rightarrow> None))"

section \<open>SQLite\<close>

datatype sql_value = SqlNull | SqlInteger int | SqlReal string | SqlText string | SqlBlob string

text \<open>
  \<open>sq_open\<close>: an error of \<open>sqlite3.connect\<close> on the URI, if any.  \<open>sq_actions\<close>: the authorizer callbacks
  while the statement is compiled.  \<open>sq_execute\<close>: an authorised statement gives the column names, \<open>None\<close>
  when it returns no rows, and a cursor: the \<open>i\<close>-th row, an error on the way to it, or the end.
\<close>

record 'x sqlite =
  sq_open :: "string \<Rightarrow> 'x \<Rightarrow> exn option"
  sq_actions :: "string \<Rightarrow> string \<Rightarrow> 'x \<Rightarrow> int list"
  sq_execute :: "string \<Rightarrow> string \<Rightarrow> json \<Rightarrow>
    ('x, (string list \<times> (nat \<Rightarrow> (exn + sql_value list) option)) option) aio"

abbreviation sqlite_error :: "string \<Rightarrow> exn" where
  "sqlite_error m \<equiv> PyExn ''sqlite3.Error'' m"

definition SQLITE_OK :: int where "SQLITE_OK = 0"
definition SQLITE_DENY :: int where "SQLITE_DENY = 1"

text \<open>The codes of \<open>sqlite3\<close> for the listed actions, in the order of the source.\<close>

definition WRITE_ACTIONS :: "int list" where
  "WRITE_ACTIONS = [26, 28, 24, 1, 2, 3, 4, 5, 6, 7, 8, 9, 25, 10, 11, 12, 13, 14, 15, 16, 17, 18, 19, 27, 22, 23]"

definition read_only_authorizer :: "int \<Rightarrow> int" where
  "read_only_authorizer action = (if action \<in> set WRITE_ACTIONS then SQLITE_DENY else SQLITE_OK)"

definition connection_execute :: "'x sqlite \<Rightarrow> (int \<Rightarrow> int) \<Rightarrow> string \<Rightarrow> string \<Rightarrow> json \<Rightarrow>
    ('x, (string list \<times> (nat \<Rightarrow> (exn + sql_value list) option)) option) aio" where
  "connection_execute E authorizer uri query parameters x =
     (if list_ex (\<lambda>a. authorizer a \<noteq> SQLITE_OK) (sq_actions E uri query x)
      then (Inl (sqlite_error ''not authorized''), x)
      else sq_execute E uri query parameters x)"

fun fetchmany :: "(nat \<Rightarrow> (exn + sql_value list) option) \<Rightarrow> nat \<Rightarrow> nat \<Rightarrow> exn + sql_value list list" where
  "fetchmany cursor i 0 = Inr []"
| "fetchmany cursor i (Suc n) = (case cursor i of
       None \<Rightarrow> Inr []
     | Some (Inl e) \<Rightarrow> Inl e
     | Some (Inr row) \<Rightarrow> (case fetchmany cursor (Suc i) n of Inl e \<Rightarrow> Inl e | Inr rows \<Rightarrow> Inr (row # rows)))"

section \<open>The query\<close>

fun sql_json :: "sql_value \<Rightarrow> json option" where
  "sql_json SqlNull = Some JNull"
| "sql_json (SqlInteger i) = Some (JInt i)"
| "sql_json (SqlReal r) = Some (JFloat r)"
| "sql_json (SqlText s) = Some (JStr s)"
| "sql_json (SqlBlob b) = None"

fun normalize_from :: "string list \<Rightarrow> sql_value list \<Rightarrow> jdict \<Rightarrow> exn + jdict" where
  "normalize_from (c # cs) (v # vs) acc = (case sql_json v of
       None \<Rightarrow> Inl (GatewayExn (ToolExecutionError
         (''Column '' @ py_repr_str c @ '' returned an unsupported SQLite value type'')))
     | Some j \<Rightarrow> normalize_from cs vs (dict_set c j acc))"
| "normalize_from [] [] acc = Inr acc"
| "normalize_from cs vs acc = Inl (PyExn ''ValueError'' ''zip() arguments have different lengths'')"

definition normalize_row :: "string list \<Rightarrow> sql_value list \<Rightarrow> exn + jdict" where
  "normalize_row columns row = normalize_from columns row []"

fun map_res :: "('a \<Rightarrow> 'e + 'b) \<Rightarrow> 'a list \<Rightarrow> 'e + 'b list" where
  "map_res f [] = Inr []"
| "map_res f (x # xs) = (case f x of Inl e \<Rightarrow> Inl e | Inr y \<Rightarrow>
     (case map_res f xs of Inl e \<Rightarrow> Inl e | Inr ys \<Rightarrow> Inr (y # ys)))"

definition sqlite_rejects :: "exn \<Rightarrow> exn" where
  "sqlite_rejects e = (case e of
       PyExn c m \<Rightarrow> if c = ''sqlite3.Error'' then GatewayExn (ToolExecutionError (''SQLite rejected the query: '' @ m)) else e
     | _ \<Rightarrow> e)"

definition request_query :: "jdict \<Rightarrow> string" where
  "request_query r = (case dict_get r ''query'' of Some (JStr q) \<Rightarrow> q | _ \<Rightarrow> [])"

definition request_max_rows :: "jdict \<Rightarrow> int" where
  "request_max_rows r = (case dict_get r ''max_rows'' of Some (JInt n) \<Rightarrow> n | _ \<Rightarrow> 0)"

definition request_parameters :: "jdict \<Rightarrow> json" where
  "request_parameters r = (case dict_get r ''parameters'' of Some v \<Rightarrow> v | None \<Rightarrow> JObj [])"

text \<open>The part inside the \<open>try\<close>: columns and fetched rows.\<close>

definition fetch_rows :: "'x sqlite \<Rightarrow> string \<Rightarrow> jdict \<Rightarrow> ('x, string list \<times> sql_value list list) aio" where
  "fetch_rows E uri request x = (case sq_open E uri x of
       Some e \<Rightarrow> (Inl e, x)
     | None \<Rightarrow> (case connection_execute E read_only_authorizer uri (request_query request) (request_parameters request) x of
         (Inl e, x') \<Rightarrow> (Inl e, x')
       | (Inr None, x') \<Rightarrow> (Inl (GatewayExn (ToolExecutionError ''The SQL statement did not return rows'')), x')
       | (Inr (Some (columns, cursor)), x') \<Rightarrow>
           (case fetchmany cursor 0 (nat (request_max_rows request + 1)) of
              Inl e \<Rightarrow> (Inl e, x')
            | Inr rows \<Rightarrow> (Inr (columns, rows), x'))))"

definition query_output :: "string list \<Rightarrow> jdict list \<Rightarrow> bool \<Rightarrow> jdict" where
  "query_output columns rows truncated = [(''columns'', JList (map JStr columns)), (''rows'', JList (map JObj rows)),
     (''row_count'', JInt (int (length rows))), (''truncated'', JBool truncated)]"

definition execute_query :: "'x sqlite \<Rightarrow> (string \<Rightarrow> string) \<Rightarrow> string \<Rightarrow> jdict \<Rightarrow> ('x, jdict) aio" where
  "execute_query E as_uri path request x = (case fetch_rows E (as_uri path @ ''?mode=ro'') request x of
       (Inl e, x') \<Rightarrow> (Inl (sqlite_rejects e), x')
     | (Inr (columns, fetched), x') \<Rightarrow>
         (case map_res (normalize_row columns) (take (nat (request_max_rows request)) fetched) of
            Inl e \<Rightarrow> (Inl e, x')
          | Inr rows \<Rightarrow> (Inr (query_output columns rows (request_max_rows request < int (length fetched))), x')))"

definition query_database :: "'x sqlite \<Rightarrow> (string \<Rightarrow> string) \<Rightarrow> string \<Rightarrow> jdict \<Rightarrow> ('x, jdict) aio" where
  "query_database = execute_query"

section \<open>The fixture\<close>

text \<open>The table \<open>orders\<close> by its primary key, \<open>None\<close> before it is created: customer name, e-mail, status and
  total.\<close>

type_synonym order_row = "string \<times> string \<times> string \<times> int"

definition seed_orders :: "(string \<times> order_row) list" where
  "seed_orders = [(''ORD-1001'', ''Max Mustermann'', ''user@example.com'', ''pending'', 12900),
     (''ORD-1002'', ''Erika Musterfrau'', ''erika@example.com'', ''shipped'', 4599),
     (''ORD-1003'', ''Alex Example'', ''alex@example.com'', ''cancelled'', 8750)]"

definition insert_or_ignore :: "string \<times> order_row \<Rightarrow> (string, order_row) dict \<Rightarrow> (string, order_row) dict" where
  "insert_or_ignore r t = (if dict_get t (fst r) = None then dict_set (fst r) (snd r) t else t)"

definition seed_database :: "(string, order_row) dict option \<Rightarrow> (string, order_row) dict option" where
  "seed_database db = Some (fold insert_or_ignore seed_orders (case db of None \<Rightarrow> [] | Some t \<Rightarrow> t))"

section \<open>Lemmas\<close>

lemma insert_or_ignore_get:
  "dict_get (insert_or_ignore r t) k = (if k = fst r \<and> dict_get t k = None then Some (snd r) else dict_get t k)"
  by (auto simp: insert_or_ignore_def)

text \<open>Seeding keeps the rows that are there and is idempotent.\<close>

lemma seed_database_keeps: "dict_get t k = Some row \<Longrightarrow> dict_get (the (seed_database (Some t))) k = Some row"
  by (simp add: seed_database_def seed_orders_def insert_or_ignore_get)

lemma seed_database_idem: "seed_database (seed_database db) = seed_database db"
proof -
  have here: "insert_or_ignore r t = t" if "dict_get t (fst r) \<noteq> None" for r and t :: "(string, order_row) dict"
    using that by (auto simp: insert_or_ignore_def)
  have "dict_get (the (seed_database db)) (fst r) \<noteq> None" if "r \<in> set seed_orders" for r
    using that by (auto simp: seed_database_def seed_orders_def insert_or_ignore_get)
  then have "fold insert_or_ignore seed_orders (the (seed_database db)) = the (seed_database db)"
    by (intro fold_invariant [where P = "\<lambda>t. t = the (seed_database db)" and Q = "\<lambda>r. r \<in> set seed_orders"])
      (auto simp: here)
  then show ?thesis by (simp add: seed_database_def)
qed

lemma fetchmany_rows:
  assumes "fetchmany cursor i n = Inr rows"
  shows "length rows \<le> n" and "k < length rows \<Longrightarrow> cursor (i + k) = Some (Inr (rows ! k))"
    and "length rows < n \<Longrightarrow> cursor (i + length rows) = None"
proof -
  have "length rows \<le> n \<and> (\<forall>k < length rows. cursor (i + k) = Some (Inr (rows ! k))) \<and>
      (length rows < n \<longrightarrow> cursor (i + length rows) = None)"
    using assms
  proof (induction cursor i n arbitrary: rows rule: fetchmany.induct)
    case (2 cursor i n)
    show ?case
    proof (cases "cursor i")
      case None
      with 2 show ?thesis by auto
    next
      case (Some r)
      with 2(2) obtain row rows' where r: "r = Inr row" "fetchmany cursor (Suc i) n = Inr rows'" "rows = row # rows'"
        by (auto split: sum.splits)
      have "length rows' \<le> n \<and> (\<forall>k < length rows'. cursor (Suc i + k) = Some (Inr (rows' ! k))) \<and>
          (length rows' < n \<longrightarrow> cursor (Suc i + length rows') = None)"
        by (rule 2(1) [OF Some r(1,2)])
      moreover have "cursor (i + k) = Some (Inr (rows ! k))"
        if "\<forall>k < length rows'. cursor (Suc i + k) = Some (Inr (rows' ! k))" "k < length rows" for k
        using that Some r by (cases k) auto
      ultimately show ?thesis using r(3) by auto
    qed
  qed simp
  then show "length rows \<le> n" "k < length rows \<Longrightarrow> cursor (i + k) = Some (Inr (rows ! k))"
    "length rows < n \<Longrightarrow> cursor (i + length rows) = None" by blast+
qed

lemma map_res_Inr: "map_res f xs = Inr ys \<longleftrightarrow> length ys = length xs \<and> (\<forall>k < length xs. f (xs ! k) = Inr (ys ! k))"
proof (induction xs arbitrary: ys)
  case (Cons x xs)
  show ?case
  proof (cases ys)
    case Nil
    then show ?thesis by (auto split: sum.splits)
  next
    case (Cons y ys')
    then show ?thesis using Cons.IH [of ys'] by (auto simp: nth_Cons' less_Suc_eq_0_disj split: sum.splits)
  qed
qed auto

lemma normalize_from_scalars:
  "normalize_from cs vs acc = Inr d \<Longrightarrow> list_all (\<lambda>(k, v). is_scalar v) acc \<Longrightarrow> distinct (dict_keys acc) \<Longrightarrow>
   list_all (\<lambda>(k, v). is_scalar v) d \<and> distinct (dict_keys d)"
proof (induction cs vs acc rule: normalize_from.induct)
  case (1 c cs v vs acc)
  then obtain j where j: "sql_json v = Some j" "normalize_from cs vs (dict_set c j acc) = Inr d"
    by (auto split: option.splits)
  have "is_scalar j" using j(1) by (cases v) (auto simp: is_scalar_def)
  then have "list_all (\<lambda>(k, v). is_scalar v) (dict_set c j acc)"
    using 1(3) by (induction c j acc rule: dict_set.induct) auto
  then show ?case using 1(1) [OF j] 1(4) by simp
qed auto

lemma normalize_row_ok: "normalize_row columns row = Inr d \<Longrightarrow> row_ok (JObj d)"
  using normalize_from_scalars [of columns row "[]" d] by (simp add: normalize_row_def row_ok_def)

lemma query_output_valid:
  "list_all row_ok (map JObj rows) \<Longrightarrow> DbQueryOutput (query_output columns rows t) = Some (query_output columns rows t)"
  by (simp add: DbQueryOutput_def query_output_def allowed_fields_def list_all_iff is_text_def)

lemma DbQueryInput_cases:
  assumes "DbQueryInput a = Some r"
  obtains q p n where "r = [(''query'', JStr q), (''parameters'', p), (''max_rows'', JInt n)]"
    "1 \<le> length q" "length q \<le> 10000" "sql_parameters_ok p" "1 \<le> n" "n \<le> 500"
  using assms
  by (auto simp: DbQueryInput_def Let_def text_between_def split: if_splits option.splits json.splits)

lemma DbQueryInput_idem: "DbQueryInput a = Some r \<Longrightarrow> DbQueryInput r = Some r"
  by (erule DbQueryInput_cases) (simp add: DbQueryInput_def Let_def allowed_fields_def text_between_def)

lemma DbQueryInput_request:
  "DbQueryInput a = Some r \<Longrightarrow> 1 \<le> request_max_rows r \<and> request_max_rows r \<le> 500"
  by (erule DbQueryInput_cases) (simp add: request_max_rows_def)

lemma execute_query_Inr:
  assumes "execute_query E as_uri path r x = (Inr out, x')"
  obtains columns cursor fetched rows where
    "sq_open E (as_uri path @ ''?mode=ro'') x = None"
    "list_all (\<lambda>a. a \<notin> set WRITE_ACTIONS) (sq_actions E (as_uri path @ ''?mode=ro'') (request_query r) x)"
    "sq_execute E (as_uri path @ ''?mode=ro'') (request_query r) (request_parameters r) x = (Inr (Some (columns, cursor)), x')"
    "fetchmany cursor 0 (nat (request_max_rows r + 1)) = Inr fetched"
    "map_res (normalize_row columns) (take (nat (request_max_rows r)) fetched) = Inr rows"
    "out = query_output columns rows (request_max_rows r < int (length fetched))"
proof -
  let ?uri = "as_uri path @ ''?mode=ro''"
  obtain columns fetched rows where f: "fetch_rows E ?uri r x = (Inr (columns, fetched), x')"
    and "map_res (normalize_row columns) (take (nat (request_max_rows r)) fetched) = Inr rows"
    and "out = query_output columns rows (request_max_rows r < int (length fetched))"
    using assms by (auto simp: execute_query_def split: prod.splits sum.splits)
  moreover obtain cursor where "sq_open E ?uri x = None"
    "connection_execute E read_only_authorizer ?uri (request_query r) (request_parameters r) x = (Inr (Some (columns, cursor)), x')"
    "fetchmany cursor 0 (nat (request_max_rows r + 1)) = Inr fetched"
    using f by (auto simp: fetch_rows_def split: prod.splits sum.splits option.splits)
  moreover from this(2) have "list_all (\<lambda>a. a \<notin> set WRITE_ACTIONS) (sq_actions E ?uri (request_query r) x)"
    "sq_execute E ?uri (request_query r) (request_parameters r) x = (Inr (Some (columns, cursor)), x')"
    by (auto simp: connection_execute_def read_only_authorizer_def SQLITE_OK_def SQLITE_DENY_def list_all_iff list_ex_iff
        split: if_splits)
  ultimately show thesis by (intro that [of columns cursor fetched rows])
qed

lemma execute_query_valid:
  assumes "execute_query E as_uri path r x = (Inr out, x')"
  shows "DbQueryOutput out = Some out"
  using assms
proof (rule execute_query_Inr)
  fix columns cursor fetched rows
  assume "map_res (normalize_row columns) (take (nat (request_max_rows r)) fetched) = Inr rows"
    and out: "out = query_output columns rows (request_max_rows r < int (length fetched))"
  then have "list_all row_ok (map JObj rows)"
    by (auto simp: map_res_Inr list_all_length intro: normalize_row_ok)
  then show ?thesis unfolding out by (rule query_output_valid)
qed

section \<open>Properties\<close>

text \<open>C18: the result of a query.  When \<open>_execute_query\<close> answers a validated request, no authorizer action of
  the statement was a write action; the rows are the first rows of the statement's cursor, each
  normalised, at most \<open>max_rows\<close> and so at most 500 of them; \<open>row_count\<close> is their number; and \<open>truncated\<close> is
  set exactly when the cursor had one more row.  The output satisfies the output model.\<close>

theorem query_result_exact:
  assumes "DbQueryInput a = Some r" and "execute_query E as_uri path r x = (Inr out, x')"
  shows "\<exists>columns cursor rows. out = query_output columns rows (\<exists>row. cursor (length rows) = Some (Inr row)) \<and>
    sq_execute E (as_uri path @ ''?mode=ro'') (request_query r) (request_parameters r) x = (Inr (Some (columns, cursor)), x') \<and>
    list_all (\<lambda>a. a \<notin> set WRITE_ACTIONS) (sq_actions E (as_uri path @ ''?mode=ro'') (request_query r) x) \<and>
    int (length rows) \<le> request_max_rows r \<and> length rows \<le> 500 \<and>
    (\<forall>k < length rows. \<exists>row. cursor k = Some (Inr row) \<and> normalize_row columns row = Inr (rows ! k)) \<and>
    (int (length rows) < request_max_rows r \<longrightarrow> cursor (length rows) = None) \<and>
    DbQueryOutput out = Some out"
  using assms(2)
proof (rule execute_query_Inr)
  fix columns cursor fetched rows
  let ?n = "nat (request_max_rows r)"
  assume run: "list_all (\<lambda>a. a \<notin> set WRITE_ACTIONS) (sq_actions E (as_uri path @ ''?mode=ro'') (request_query r) x)"
      "sq_execute E (as_uri path @ ''?mode=ro'') (request_query r) (request_parameters r) x = (Inr (Some (columns, cursor)), x')"
    and fetch: "fetchmany cursor 0 (nat (request_max_rows r + 1)) = Inr fetched"
    and rows: "map_res (normalize_row columns) (take ?n fetched) = Inr rows"
    and out: "out = query_output columns rows (request_max_rows r < int (length fetched))"
  have n: "1 \<le> request_max_rows r" "request_max_rows r \<le> 500" using DbQueryInput_request [OF assms(1)] by simp_all
  then have Suc: "nat (request_max_rows r + 1) = Suc ?n" by linarith
  note cur = fetchmany_rows [OF fetch, unfolded Suc, simplified]
  have len: "length rows = min ?n (length fetched)"
    and norm: "\<And>k. k < length rows \<Longrightarrow> normalize_row columns (fetched ! k) = Inr (rows ! k)"
    using rows by (auto simp: map_res_Inr)
  have short: "cursor (length rows) = None" if "length rows < ?n" using that len cur(3) by auto
  have "(\<exists>row. cursor (length rows) = Some (Inr row)) = (request_max_rows r < int (length fetched))"
  proof (cases "?n < length fetched")
    case True
    then show ?thesis using cur(2) [of ?n] len by auto
  next
    case False
    then have "length rows = length fetched" using len by simp
    then show ?thesis using cur(3) False n(1) by (auto simp: nat_less_iff)
  qed
  moreover have "\<exists>row. cursor k = Some (Inr row) \<and> normalize_row columns row = Inr (rows ! k)" if "k < length rows" for k
    using cur(2) [of k] norm [OF that] that len by auto
  moreover have "int (length rows) \<le> request_max_rows r" "length rows \<le> 500" using len n by linarith+
  moreover have "cursor (length rows) = None" if "int (length rows) < request_max_rows r" using short that by linarith
  ultimately show ?thesis using run out execute_query_valid [OF assms(2)]
    by (intro exI [of _ columns] exI [of _ cursor] exI [of _ rows]) simp
qed

text \<open>A database with three orders; its statements are \<open>SELECT\<close> and \<open>DROP\<close>.\<close>

definition demo_sqlite :: "nat sqlite" where
  "demo_sqlite = \<lparr>sq_open = (\<lambda>uri x. None), sq_actions = (\<lambda>uri q x. if q = ''SELECT'' then [21, 20] else [9, 11]),
     sq_execute = (\<lambda>uri q p. ret (Some ([''order_id''], \<lambda>i. if i < 3 then Some (Inr [SqlInteger (int i)]) else None)))\<rparr>"

definition orders_request :: jdict where
  "orders_request = [(''query'', JStr ''SELECT''), (''parameters'', JObj []), (''max_rows'', JInt 2)]"

lemma demo_query_runs: "execute_query demo_sqlite id ''db'' orders_request 0 =
    (Inr (query_output [''order_id''] [[(''order_id'', JInt 0)], [(''order_id'', JInt 1)]] True), 0)"
  by code_simp

theorem query_result_exact_witness:
  "fst (execute_query demo_sqlite id ''db'' orders_request 0) =
     Inr (query_output [''order_id''] [[(''order_id'', JInt 0)], [(''order_id'', JInt 1)]] True) \<and>
   DbQueryOutput (query_output [''order_id''] [[(''order_id'', JInt 0)], [(''order_id'', JInt 1)]] True) =
     Some (query_output [''order_id''] [[(''order_id'', JInt 0)], [(''order_id'', JInt 1)]] True)"
proof -
  have "DbQueryInput orders_request = Some orders_request" by code_simp
  from query_result_exact [OF this demo_query_runs] show ?thesis by (auto simp: demo_query_runs)
qed

end
