(* ===== verification/Sandbox.thy ===== *)
theory Sandbox
  imports Complex_Main Db_Query
begin

text \<open>
  Per-call containers (\<open>gateway/sandbox\<close>): resource profiles, runtime flags, the \<open>docker run\<close> command,
  the life of one container, and the worker that runs inside it.  Docker is a parameter: the outcome of
  starting the client, killing it, and removing a container.
\<close>

section \<open>Profiles and runtimes\<close>

text \<open>\<open>cpus\<close> is kept as the text that goes to the command line.\<close>

type_synonym mount = "string \<times> string \<times> bool"

record sandbox_profile =
  sp_name :: string
  sp_timeout_seconds :: rat
  sp_memory :: string
  sp_cpus :: string
  sp_pids_limit :: int
  sp_network :: bool
  sp_workspace :: string
  sp_mounts :: "mount list"

definition profile_for_tool :: "string \<Rightarrow> string \<Rightarrow> exn + sandbox_profile" where
  "profile_for_tool tool_name workspace =
     (if tool_name = ''db_query''
      then Inr \<lparr>sp_name = ''db_query'', sp_timeout_seconds = 10, sp_memory = ''256m'', sp_cpus = ''1.0'',
        sp_pids_limit = 32, sp_network = False, sp_workspace = workspace, sp_mounts = []\<rparr>
      else if tool_name = ''shell_exec''
      then Inr \<lparr>sp_name = ''shell_exec'', sp_timeout_seconds = 5, sp_memory = ''128m'', sp_cpus = ''0.5'',
        sp_pids_limit = 16, sp_network = False, sp_workspace = workspace, sp_mounts = []\<rparr>
      else Inl (PyExn ''ValueError'' (''No sandbox profile exists for '' @ tool_name)))"

datatype sandbox_runtime = GVISOR | HARDENED_DOCKER

definition SandboxRuntime :: "string \<Rightarrow> exn + sandbox_runtime" where
  "SandboxRuntime v = (if v = ''gvisor'' then Inr GVISOR else if v = ''hardened-docker'' then Inr HARDENED_DOCKER
     else Inl (PyExn ''ValueError'' (py_repr_str v @ '' is not a valid SandboxRuntime'')))"

definition runtime_arguments :: "sandbox_runtime \<Rightarrow> string list" where
  "runtime_arguments r = (case r of
       GVISOR \<Rightarrow> [''--runtime'', ''runsc'']
     | HARDENED_DOCKER \<Rightarrow> [''--security-opt'', ''no-new-privileges''])"

section \<open>The command line\<close>

text \<open>\<open>sr_seccomp\<close> is the resolved path of \<open>docker/seccomp/tool.json\<close>, \<open>sr_resolve\<close> is \<open>Path.resolve\<close>.\<close>

record sandbox_runner =
  sr_runtime :: sandbox_runtime
  sr_image :: string
  sr_output_limit :: nat
  sr_seccomp :: string
  sr_resolve :: "string \<Rightarrow> string"

definition mount_arguments :: "(string \<Rightarrow> string) \<Rightarrow> mount \<Rightarrow> string list" where
  "mount_arguments resolve m = (case m of (host_path, container_path, read_only) \<Rightarrow>
     [''--mount'', ''type=bind,src='' @ resolve host_path @ '',dst='' @ container_path @ '','' @
        (if read_only then ''ro'' else ''rw'')])"

definition docker_options :: "sandbox_runner \<Rightarrow> sandbox_profile \<Rightarrow> mount list \<Rightarrow> string \<Rightarrow> string list" where
  "docker_options R profile mounts container_name =
     [''--name'', container_name, ''--rm'', ''--interactive'', ''--init'', ''--read-only'', ''--cap-drop=ALL'',
      ''--security-opt=no-new-privileges'',
      if \<not> sp_network profile then ''--network=none'' else ''--network=bridge'',
      ''--memory'', sp_memory profile, ''--cpus'', sp_cpus profile, ''--pids-limit'', str_of_int (sp_pids_limit profile),
      ''--tmpfs'', ''/workspace:rw,noexec,nosuid,nodev'', ''--workdir'', ''/workspace'',
      ''--env'', ''PYTHONPATH=/opt/gateway''] @
     runtime_arguments (sr_runtime R) @
     (if sr_runtime R = HARDENED_DOCKER then [''--security-opt'', ''seccomp='' @ sr_seccomp R] else []) @
     [''--label'', ''mcp-gateway.sandbox=true''] @
     concat (map (mount_arguments (sr_resolve R)) mounts)"

definition docker_command :: "sandbox_runner \<Rightarrow> sandbox_profile \<Rightarrow> mount list \<Rightarrow> string \<Rightarrow> string list \<Rightarrow> string list" where
  "docker_command R profile mounts container_name command =
     [''docker'', ''run''] @ docker_options R profile mounts container_name @ sr_image R # command"

section \<open>The life of a container\<close>

text \<open>How the attached \<open>docker run\<close> ends: the executable is missing, it cannot be started, an exception
  interrupts the wait, the timeout passes, or it exits.\<close>

datatype process_end = NoExecutable | NotStarted exn | Interrupted exn | TimedOut | Exited int string string

record 'x docker =
  dk_run :: "string list \<Rightarrow> string option \<Rightarrow> rat \<Rightarrow> 'x \<Rightarrow> process_end \<times> 'x"
  dk_kill :: "'x \<Rightarrow> 'x"
  dk_remove :: "string \<Rightarrow> 'x \<Rightarrow> 'x"
  dk_decode :: "string \<Rightarrow> string"
  dk_uuid :: "'x \<Rightarrow> string \<times> 'x"
  dk_shlex :: "string list \<Rightarrow> string"

record sandbox_result =
  sbr_exit_code :: int
  sbr_stdout :: string
  sbr_stderr :: string

definition sandbox_outcome :: "'x docker \<Rightarrow> nat \<Rightarrow> string list \<Rightarrow> process_end \<Rightarrow> exn + sandbox_result" where
  "sandbox_outcome D limit command p = (case p of
       NoExecutable \<Rightarrow> Inl (GatewayExn (SandboxError ''Docker executable is unavailable''))
     | NotStarted e \<Rightarrow> Inl e
     | Interrupted e \<Rightarrow> Inl e
     | TimedOut \<Rightarrow> Inl (GatewayExn SandboxTimeoutError)
     | Exited code out err \<Rightarrow>
         if limit < length out \<or> limit < length err
         then Inl (GatewayExn (SandboxError ''Sandbox output exceeded the configured limit''))
         else if code \<noteq> 0
         then Inl (GatewayExn (SandboxError (''Sandbox command failed with exit code '' @ str_of_int code @ '': '' @
           dk_shlex D command @ ''; '' @ str_strip (dk_decode D err))))
         else Inr \<lparr>sbr_exit_code = 0, sbr_stdout = dk_decode D out, sbr_stderr = dk_decode D err\<rparr>)"

text \<open>A client that has not ended is killed, and the container is removed by name in every case.  A
  failure of the removal is only logged.\<close>

definition sandbox_run :: "'x docker \<Rightarrow> sandbox_runner \<Rightarrow> string list \<Rightarrow> sandbox_profile \<Rightarrow> mount list \<Rightarrow>
    string option \<Rightarrow> ('x, sandbox_result) aio" where
  "sandbox_run D R command profile mounts stdin x0 =
     (case dk_uuid D x0 of (uid, x1) \<Rightarrow>
      let container_name = ''mcp-tool-'' @ uid in
      case dk_run D (docker_command R profile mounts container_name command) stdin (sp_timeout_seconds profile) x1 of
        (p, x2) \<Rightarrow>
          let x3 = (case p of TimedOut \<Rightarrow> dk_kill D x2 | Interrupted e \<Rightarrow> dk_kill D x2 | _ \<Rightarrow> x2)
          in (sandbox_outcome D (sr_output_limit R) command p, dk_remove D container_name x3))"

definition worker_command :: "string list" where
  "worker_command = [''python'', ''-m'', ''gateway.sandbox.worker'']"

text \<open>\<open>json.dumps\<close> without sorted keys, and \<open>json.loads\<close>.\<close>

definition json_text :: "json \<Rightarrow> string" where
  "json_text v = json_render '', '' '': '' v"

definition run_worker :: "(string \<Rightarrow> string) \<Rightarrow> 'x docker \<Rightarrow> sandbox_runner \<Rightarrow> jdict \<Rightarrow> sandbox_profile \<Rightarrow> mount list \<Rightarrow>
    ('x, jdict) aio" where
  "run_worker frepr D R payload profile mounts x =
     (case sandbox_run D R worker_command profile mounts (Some (json_text (JObj payload))) x of
        (Inl e, x') \<Rightarrow> (Inl e, x')
      | (Inr result, x') \<Rightarrow> (case json_loads frepr (sbr_stdout result) of
            None \<Rightarrow> (Inl (PyExn ''ValueError'' ''JSONDecodeError''), x')
          | Some (JObj decoded) \<Rightarrow> (Inr decoded, x')
          | Some v \<Rightarrow> (Inl (GatewayExn (SandboxError ''Sandbox worker returned an invalid JSON object'')), x')))"

section \<open>The worker inside the container\<close>

text \<open>\<open>shell\<close> is \<open>subprocess.run(..., shell=True, capture_output=True, text=True)\<close>.\<close>

definition worker_main :: "(string \<Rightarrow> string) \<Rightarrow> 'x sqlite \<Rightarrow> (string \<Rightarrow> string) \<Rightarrow>
    (json \<Rightarrow> ('x, int \<times> string \<times> string) aio) \<Rightarrow> string \<Rightarrow> ('x, string) aio" where
  "worker_main frepr E as_uri shell stdin x = (case json_loads frepr stdin of
       None \<Rightarrow> (Inl (PyExn ''ValueError'' ''JSONDecodeError''), x)
     | Some (JObj payload) \<Rightarrow>
         (case dict_get payload ''kind'' of
            None \<Rightarrow> (Inl (PyExn ''KeyError'' ''kind''), x)
          | Some kind \<Rightarrow>
              if kind = JStr ''shell_exec''
              then (case dict_get payload ''command'' of
                  None \<Rightarrow> (Inl (PyExn ''KeyError'' ''command''), x)
                | Some command \<Rightarrow> (case shell command x of
                    (Inl e, x') \<Rightarrow> (Inl e, x')
                  | (Inr (code, out, err), x') \<Rightarrow>
                      (Inr (json_text (JObj [(''exit_code'', JInt code), (''stdout'', JStr out), (''stderr'', JStr err)])), x')))
              else if kind = JStr ''db_query''
              then (case dict_get payload ''request'' of
                  None \<Rightarrow> (Inl (PyExn ''KeyError'' ''request''), x)
                | Some request \<Rightarrow> (case (case request of JObj a \<Rightarrow> DbQueryInput a | _ \<Rightarrow> None) of
                    None \<Rightarrow> (Inl (PyExn ''ValidationError'' ''DbQueryInput''), x)
                  | Some r \<Rightarrow> (case dict_get payload ''database_path'' of
                      None \<Rightarrow> (Inl (PyExn ''KeyError'' ''database_path''), x)
                    | Some path \<Rightarrow> (case query_database E as_uri (py_str path) r x of
                        (Inl e, x') \<Rightarrow> (Inl e, x')
                      | (Inr v, x') \<Rightarrow> (Inr (json_text (JObj v)), x')))))
              else (Inl (PyExn ''ValueError'' ''Unknown sandbox worker command''), x))
     | Some v \<Rightarrow> (Inl (PyExn ''TypeError'' ''indices must be integers or slices, not str''), x))"

end
