(* ===== verification/Circuit.thy ===== *)
theory Circuit
  imports Models
begin

text \<open>
  The circuit breaker of the worker pool (\<open>gateway/workers/circuit.py\<close>).  Times are
  microseconds; \<open>now\<close> is the value of \<open>datetime.now(UTC)\<close>.
\<close>

record circuit =
  cb_failure_threshold :: int
  cb_reset_timeout :: int
  cb_failures :: int
  cb_opened_at :: "timestamp option"

definition CircuitBreaker :: "int \<Rightarrow> int \<Rightarrow> circuit" where
  "CircuitBreaker failure_threshold reset_timeout =
     \<lparr>cb_failure_threshold = max 1 failure_threshold, cb_reset_timeout = reset_timeout,
      cb_failures = 0, cb_opened_at = None\<rparr>"

definition is_open :: "timestamp \<Rightarrow> circuit \<Rightarrow> bool" where
  "is_open now b = (case cb_opened_at b of None \<Rightarrow> False | Some t \<Rightarrow> now - t < cb_reset_timeout b)"

definition allow :: "timestamp \<Rightarrow> circuit \<Rightarrow> (exn + unit) \<times> circuit" where
  "allow now b =
     (if is_open now b then (Inl (PyExn ''CircuitOpenError'' ''Execution worker circuit is open''), b)
      else if cb_opened_at b \<noteq> None then (Inr (), b\<lparr>cb_opened_at := None, cb_failures := 0\<rparr>)
      else (Inr (), b))"

definition record_success :: "circuit \<Rightarrow> circuit" where
  "record_success b = b\<lparr>cb_failures := 0, cb_opened_at := None\<rparr>"

definition record_failure :: "timestamp \<Rightarrow> circuit \<Rightarrow> circuit" where
  "record_failure now b = (let b' = b\<lparr>cb_failures := cb_failures b + 1\<rparr> in
     if cb_failure_threshold b' \<le> cb_failures b' then b'\<lparr>cb_opened_at := Some now\<rparr> else b')"

section \<open>Runs\<close>

datatype circuit_event = CAllow | CSuccess | CFailure

fun circuit_step :: "timestamp \<times> circuit_event \<Rightarrow> circuit \<Rightarrow> circuit" where
  "circuit_step (now, CAllow) b = snd (allow now b)"
| "circuit_step (now, CSuccess) b = record_success b"
| "circuit_step (now, CFailure) b = record_failure now b"

definition circuit_run :: "(timestamp \<times> circuit_event) list \<Rightarrow> circuit \<Rightarrow> circuit" where
  "circuit_run es b = fold circuit_step es b"

text \<open>Closed with fewer failures than the threshold, or opened.\<close>

definition circuit_inv :: "circuit \<Rightarrow> bool" where
  "circuit_inv b = (1 \<le> cb_failure_threshold b \<and> 0 \<le> cb_failures b \<and>
     (cb_opened_at b = None \<longrightarrow> cb_failures b < cb_failure_threshold b))"

section \<open>Lemmas\<close>

lemma circuit_step_inv: "circuit_inv b \<Longrightarrow> circuit_inv (circuit_step e b)"
  by (cases e; cases "snd e")
    (auto simp: circuit_inv_def allow_def record_success_def record_failure_def Let_def)

lemma circuit_run_inv: "circuit_inv b \<Longrightarrow> circuit_inv (circuit_run es b)"
  unfolding circuit_run_def by (induction es arbitrary: b) (auto intro: circuit_step_inv)

lemma circuit_step_config [simp]:
  "cb_failure_threshold (circuit_step e b) = cb_failure_threshold b"
  "cb_reset_timeout (circuit_step e b) = cb_reset_timeout b"
  by (cases e; cases "snd e";
      auto simp: allow_def record_success_def record_failure_def Let_def)+

lemma record_failure_threshold [simp]:
  "cb_failure_threshold (record_failure now b) = cb_failure_threshold b"
  by (simp add: record_failure_def Let_def)

lemma circuit_run_config [simp]:
  "cb_failure_threshold (circuit_run es b) = cb_failure_threshold b"
  "cb_reset_timeout (circuit_run es b) = cb_reset_timeout b"
  unfolding circuit_run_def by (induction es arbitrary: b) auto

lemma CircuitBreaker_inv: "circuit_inv (CircuitBreaker n t)"
  by (simp add: circuit_inv_def CircuitBreaker_def)

lemma failures_accumulate:
  assumes "\<forall>e \<in> set es. snd e = CFailure"
  shows "cb_failures (circuit_run es b) = cb_failures b + int (length es) \<and>
    (es \<noteq> [] \<longrightarrow> cb_failure_threshold b \<le> cb_failures b + int (length es) \<longrightarrow>
       cb_opened_at (circuit_run es b) = Some (fst (last es)))"
  using assms
proof (induction es arbitrary: b)
  case (Cons e es)
  obtain t where e: "e = (t, CFailure)" using Cons.prems by (cases e) auto
  have f: "cb_failures (circuit_step e b) = cb_failures b + 1"
    by (simp add: e record_failure_def Let_def)
  have o: "cb_failure_threshold b \<le> cb_failures b + 1 \<Longrightarrow> cb_opened_at (circuit_step e b) = Some t"
    by (simp add: e record_failure_def Let_def)
  have run: "circuit_run (e # es) b = circuit_run es (circuit_step e b)" by (simp add: circuit_run_def)
  show ?case
    using Cons.IH [of "circuit_step e b"] Cons.prems f o e
    by (cases es) (auto simp: run circuit_run_def)
qed (simp add: circuit_run_def)

section \<open>Properties\<close>

text \<open>C26: the breaker trips and recovers.  From any state reached by an operating breaker, a number
  of consecutive failures that reaches the threshold opens the circuit: every submission is
  refused until the cool-down after the last failure has passed, and the first one after it is
  admitted and starts with a clean count.\<close>

theorem circuit_trips_and_recovers:
  assumes "b = circuit_run history (CircuitBreaker n reset)"
    and "failures \<noteq> []" and "\<forall>e \<in> set failures. snd e = CFailure"
    and "max 1 n \<le> int (length failures)"
  shows "let b' = circuit_run failures b; opened = fst (last failures) in
     (if now - opened < reset
      then allow now b' = (Inl (PyExn ''CircuitOpenError'' ''Execution worker circuit is open''), b')
      else allow now b' = (Inr (), b'\<lparr>cb_opened_at := None, cb_failures := 0\<rparr>))"
proof -
  have inv: "circuit_inv b" by (simp add: assms(1) circuit_run_inv CircuitBreaker_inv)
  have cfg: "cb_failure_threshold b = max 1 n" "cb_reset_timeout b = reset"
    by (simp_all add: assms(1) CircuitBreaker_def)
  have "cb_opened_at (circuit_run failures b) = Some (fst (last failures))"
    using failures_accumulate [OF assms(3), of b] assms(2,4) inv cfg by (auto simp: circuit_inv_def)
  then show ?thesis by (simp add: Let_def allow_def is_open_def cfg)
qed

theorem circuit_trips_and_recovers_witness:
  "fst (allow 5 (circuit_run [(1, CFailure), (2, CFailure)] (CircuitBreaker 2 10))) =
     Inl (PyExn ''CircuitOpenError'' ''Execution worker circuit is open'') \<and>
   fst (allow 12 (circuit_run [(1, CFailure), (2, CFailure)] (CircuitBreaker 2 10))) = Inr ()"
  using circuit_trips_and_recovers [of "CircuitBreaker 2 10" "[]" 2 10 "[(1, CFailure), (2, CFailure)]" 5]
    circuit_trips_and_recovers [of "CircuitBreaker 2 10" "[]" 2 10 "[(1, CFailure), (2, CFailure)]" 12]
  by (simp add: circuit_run_def Let_def)

end
