(* ===== verification/Workers.thy ===== *)
theory Workers
  imports Server Circuit
begin

text \<open>
  The bounded worker queue (\<open>gateway/workers/service.py\<close>, \<open>models.py\<close>): jobs and their
  signatures, the service as a state machine, and the gateway-side proxies.  The service's methods are
  coroutines; between two awaits they run without interruption, so each such section is one event:
  \<open>submit\<close> up to its wait, a worker taking a job, a worker finishing one, the end of the wait (result,
  timeout, cancellation), the parts of \<open>stop\<close>, \<open>start\<close> and \<open>reconcile\<close>.  \<open>self._lock\<close> is never held
  across an await and so never delays a section.  \<open>ws_jobs\<close> (the job each future was created for),
  \<open>ws_accepted\<close> and \<open>ws_succeeded\<close> are history variables.
\<close>

section \<open>Jobs and results\<close>

record worker_job =
  wj_job_id :: string
  wj_call_id :: string
  wj_tenant_id :: string
  wj_tool_name :: string
  wj_risk_class :: risk_class
  wj_arguments :: jdict
  wj_idempotency_key :: string
  wj_submitted_at :: timestamp
  wj_auth_token :: string

record worker_result =
  wr_job_id :: string
  wr_outcome :: string
  wr_output :: "jdict option"
  wr_error_code :: "string option"
  wr_error_message :: "string option"
  wr_completed_at :: timestamp

record reconciliation_record =
  rec_job_id :: string
  rec_call_id :: string
  rec_idempotency_key :: string
  rec_risk_class :: risk_class
  rec_status :: string
  rec_detail :: string
  rec_updated_at :: timestamp

section \<open>Signatures\<close>

text \<open>\<open>str.encode()\<close> on the code points below 256.\<close>

definition utf8_char :: "char \<Rightarrow> string" where
  "utf8_char c = (let n = (of_char c :: nat) in
     if n < 128 then [c] else [char_of (192 + n div 64), char_of (128 + n mod 64)])"

definition utf8_encode :: "string \<Rightarrow> string" where
  "utf8_encode s = concat (map utf8_char s)"

definition job_values :: "(timestamp \<Rightarrow> string) \<Rightarrow> worker_job \<Rightarrow> jdict" where
  "job_values tfmt j = [(''job_id'', JStr (wj_job_id j)), (''call_id'', JStr (wj_call_id j)),
     (''tenant_id'', JStr (wj_tenant_id j)), (''tool_name'', JStr (wj_tool_name j)),
     (''risk_class'', JStr (risk_value (wj_risk_class j))), (''arguments'', JObj (wj_arguments j)),
     (''idempotency_key'', JStr (wj_idempotency_key j)), (''submitted_at'', JStr (tfmt (wj_submitted_at j)))]"

definition canonical_job_payload :: "(timestamp \<Rightarrow> string) \<Rightarrow> worker_job \<Rightarrow> string" where
  "canonical_job_payload tfmt j = json_dumps_compact (JObj (job_values tfmt j))"

definition sign_job :: "(timestamp \<Rightarrow> string) \<Rightarrow> worker_job \<Rightarrow> string \<Rightarrow> string" where
  "sign_job tfmt j secret = hmac_sha256_hex (utf8_encode secret) (canonical_job_payload tfmt j)"

definition arguments_key :: "string \<Rightarrow> jdict \<Rightarrow> string" where
  "arguments_key tool_name arguments = tool_name @ '':'' @ sha256_hex (json_dumps_compact (JObj arguments))"

text \<open>\<open>hmac.compare_digest\<close> on texts raises \<open>TypeError\<close> unless both are ASCII.\<close>

definition compare_digest :: "string \<Rightarrow> string \<Rightarrow> exn + bool" where
  "compare_digest a b = (if list_all (\<lambda>c. (of_char c :: nat) < 128) (a @ b) then Inr (a = b)
     else Inl (PyExn ''TypeError'' ''comparing strings with non-ASCII characters is not supported''))"

section \<open>The state of the service\<close>

datatype future = Pending | Resolved worker_result | Raised exn | Cancelled

record 'x worker_config =
  wc_registry :: "'x tool_registry"
  wc_shared_secret :: string
  wc_max_concurrency :: int
  wc_queue_size :: int
  wc_tfmt :: "timestamp \<Rightarrow> string"

record 'x worker_service =
  ws_started :: bool
  ws_stopping :: bool
  ws_workers :: nat
  ws_queue :: "(worker_job \<times> nat) list"
  ws_active :: "(worker_job \<times> nat) list"
  ws_results :: "(string, worker_result) dict"
  ws_inflight :: "(string, worker_job \<times> nat) dict"
  ws_reconciliation :: "(string, reconciliation_record) dict"
  ws_futures :: "future list"
  ws_waiting :: "(nat, worker_job) dict"
  ws_breaker :: circuit
  ws_clock :: "nat \<Rightarrow> timestamp"
  ws_ticks :: nat
  ws_outside :: 'x
  ws_jobs :: "worker_job list"
  ws_accepted :: "(worker_job \<times> nat) list"
  ws_succeeded :: "worker_job list"

definition WorkerService :: "int \<Rightarrow> int \<Rightarrow> (nat \<Rightarrow> timestamp) \<Rightarrow> 'x \<Rightarrow> 'x worker_service" where
  "WorkerService failure_threshold reset_timeout clock outside = \<lparr>ws_started = False, ws_stopping = False, ws_workers = 0, ws_queue = [],
     ws_active = [], ws_results = [], ws_inflight = [], ws_reconciliation = [], ws_futures = [], ws_waiting = [],
     ws_breaker = CircuitBreaker failure_threshold reset_timeout, ws_clock = clock, ws_ticks = 0,
     ws_outside = outside, ws_jobs = [], ws_accepted = [], ws_succeeded = []\<rparr>"

text \<open>The clock is read anew in each event.\<close>

abbreviation ws_now :: "'x worker_service \<Rightarrow> timestamp" where
  "ws_now s \<equiv> ws_clock s (ws_ticks s)"

definition tick :: "'x worker_service \<Rightarrow> 'x worker_service" where
  "tick s = s\<lparr>ws_ticks := Suc (ws_ticks s)\<rparr>"

definition set_future :: "nat \<Rightarrow> future \<Rightarrow> 'x worker_service \<Rightarrow> 'x worker_service" where
  "set_future f v s = (if f < length (ws_futures s) \<and> ws_futures s ! f = Pending
     then s\<lparr>ws_futures := (ws_futures s)[f := v]\<rparr> else s)"

abbreviation mutating :: "worker_job \<Rightarrow> bool" where
  "mutating j \<equiv> wj_risk_class j \<noteq> READ_ONLY"

definition mark_uncertain :: "worker_job \<Rightarrow> string \<Rightarrow> 'x worker_service \<Rightarrow> 'x worker_service" where
  "mark_uncertain j detail s = s\<lparr>ws_reconciliation := dict_set (wj_job_id j)
     \<lparr>rec_job_id = wj_job_id j, rec_call_id = wj_call_id j, rec_idempotency_key = wj_idempotency_key j,
      rec_risk_class = wj_risk_class j, rec_status = ''needs_review'', rec_detail = detail,
      rec_updated_at = ws_now s\<rparr> (ws_reconciliation s)\<rparr>"

definition worker_healthcheck :: "'x worker_service \<Rightarrow> bool" where
  "worker_healthcheck s = (ws_started s \<and> \<not> is_open (ws_now s) (ws_breaker s))"

section \<open>Submission\<close>

definition authenticate :: "'x worker_config \<Rightarrow> worker_job \<Rightarrow> exn + unit" where
  "authenticate C j =
     (case compare_digest (sign_job (wc_tfmt C) (j\<lparr>wj_auth_token := []\<rparr>) (wc_shared_secret C)) (wj_auth_token j) of
        Inl x \<Rightarrow> Inl x
      | Inr b \<Rightarrow> if b then Inr () else Inl (GatewayExn (ToolExecutionError ''Worker authentication failed'')))"

text \<open>How the first section of \<open>submit\<close> ends: with an exception, with a cached result, or waiting on
  a future that it created (\<open>Owner\<close>) or found (\<open>Joined\<close>).\<close>

datatype entered = Refused exn | Completed worker_result | Owner nat | Joined nat

definition queue_full :: "'x worker_config \<Rightarrow> 'x worker_service \<Rightarrow> bool" where
  "queue_full C s = (0 < wc_queue_size C \<and> wc_queue_size C \<le> int (length (ws_queue s)))"

definition enqueue :: "'x worker_config \<Rightarrow> worker_job \<Rightarrow> 'x worker_service \<Rightarrow> entered \<times> 'x worker_service" where
  "enqueue C j s =
     (let f = length (ws_futures s);
          s1 = s\<lparr>ws_futures := ws_futures s @ [Pending], ws_jobs := ws_jobs s @ [j],
                 ws_inflight := dict_set (wj_idempotency_key j) (j, f) (ws_inflight s)\<rparr>
      in if queue_full C s
         then (Refused (GatewayExn (ToolExecutionError ''Execution worker queue is full'')),
               s1\<lparr>ws_inflight := dict_del (wj_idempotency_key j) (ws_inflight s1),
                  ws_breaker := record_failure (ws_now s) (ws_breaker s)\<rparr>)
         else (Owner f, s1\<lparr>ws_queue := ws_queue s @ [(j, f)], ws_waiting := dict_set f j (ws_waiting s),
                  ws_accepted := (j, f) # ws_accepted s\<rparr>))"

definition submit_enter :: "'x worker_config \<Rightarrow> worker_job \<Rightarrow> 'x worker_service \<Rightarrow> entered \<times> 'x worker_service" where
  "submit_enter C j s =
     (if \<not> ws_started s
      then (Refused (GatewayExn (ToolExecutionError ''Execution worker service is not running'')), s)
      else case allow (ws_now s) (ws_breaker s) of
        (Inl x, b) \<Rightarrow> (Refused (GatewayExn (ToolExecutionError (exn_str x))), s\<lparr>ws_breaker := b\<rparr>)
      | (Inr u, b) \<Rightarrow> (let s1 = s\<lparr>ws_breaker := b\<rparr> in
          case authenticate C j of
            Inl x \<Rightarrow> (Refused x, s1)
          | Inr u \<Rightarrow> (case dict_get (ws_results s1) (wj_idempotency_key j) of
              Some r \<Rightarrow> (Completed r, s1)
            | None \<Rightarrow> (case dict_get (ws_inflight s1) (wj_idempotency_key j) of
                Some (j', f) \<Rightarrow> (Joined f, s1)
              | None \<Rightarrow> enqueue C j s1))))"

text \<open>The end of the owner's wait.\<close>

definition submit_timeout :: "nat \<Rightarrow> worker_job \<Rightarrow> 'x worker_service \<Rightarrow> exn \<times> 'x worker_service" where
  "submit_timeout f j s =
     (let s1 = set_future f Cancelled (s\<lparr>ws_waiting := dict_del f (ws_waiting s)\<rparr>);
          s2 = (if mutating j then mark_uncertain j ''Worker job exceeded the gateway wait timeout'' s1 else s1);
          s3 = s2\<lparr>ws_breaker := record_failure (ws_now s) (ws_breaker s2)\<rparr>
      in (GatewayExn (if mutating j then NeedsReviewError ''Mutation outcome is uncertain; reconciliation required''
            else ToolExecutionError ''Execution worker timed out''), s3))"

definition owner_result :: "worker_result \<Rightarrow> 'x worker_service \<Rightarrow> (exn + worker_result) \<times> 'x worker_service" where
  "owner_result r s =
     (if wr_outcome r \<noteq> ''succeeded''
      then (Inl (GatewayExn (if wr_error_code r = Some ''needs_review''
              then NeedsReviewError (or_text (wr_error_message r) ''Worker outcome requires review'')
              else ToolExecutionError (or_text (wr_error_message r) ''Execution worker failed''))),
            s\<lparr>ws_breaker := record_failure (ws_now s) (ws_breaker s)\<rparr>)
      else (Inr r, s\<lparr>ws_breaker := record_success (ws_breaker s)\<rparr>))"

text \<open>\<open>None\<close> while the future is pending.\<close>

definition owner_resume :: "nat \<Rightarrow> 'x worker_service \<Rightarrow> ((exn + worker_result) \<times> 'x worker_service) option" where
  "owner_resume f s = (let s1 = s\<lparr>ws_waiting := dict_del f (ws_waiting s)\<rparr> in
     case ws_futures s ! f of
       Pending \<Rightarrow> None
     | Resolved r \<Rightarrow> Some (owner_result r s1)
     | Raised x \<Rightarrow> Some (Inl x, s1)
     | Cancelled \<Rightarrow> Some (Inl CancelledExn, s1))"

definition joined_resume :: "nat \<Rightarrow> 'x worker_service \<Rightarrow> (exn + worker_result) option" where
  "joined_resume f s = (case ws_futures s ! f of
       Pending \<Rightarrow> None
     | Resolved r \<Rightarrow> Some (Inr r)
     | Raised x \<Rightarrow> Some (Inl x)
     | Cancelled \<Rightarrow> Some (Inl CancelledExn))"

section \<open>Workers\<close>

definition worker_take :: "'x worker_service \<Rightarrow> 'x worker_service" where
  "worker_take s = (case ws_queue s of
       [] \<Rightarrow> s
     | p # rest \<Rightarrow> if length (ws_active s) < ws_workers s \<and> \<not> ws_stopping s
         then s\<lparr>ws_queue := rest, ws_active := ws_active s @ [p]\<rparr> else s)"

definition run_job :: "'x worker_config \<Rightarrow> worker_job \<Rightarrow> ('x, jdict) aio" where
  "run_job C j = bind_io (lift_res (registry_validate (wc_registry C) (wj_tool_name j) (wj_arguments j)))
     (registry_execute_validated (wc_registry C) (wj_tool_name j))"

definition succeeded_result :: "worker_job \<Rightarrow> jdict \<Rightarrow> timestamp \<Rightarrow> worker_result" where
  "succeeded_result j output now = \<lparr>wr_job_id = wj_job_id j, wr_outcome = ''succeeded'', wr_output = Some output,
     wr_error_code = None, wr_error_message = None, wr_completed_at = now\<rparr>"

definition failed_result :: "worker_job \<Rightarrow> exn \<Rightarrow> timestamp \<Rightarrow> worker_result" where
  "failed_result j x now = \<lparr>wr_job_id = wj_job_id j, wr_outcome = ''failed'', wr_output = None,
     wr_error_code = Some (case x of GatewayExn err \<Rightarrow> error_code err | _ \<Rightarrow> ''worker_error''),
     wr_error_message = Some (exn_str x), wr_completed_at = now\<rparr>"

text \<open>The \<open>finally\<close> of the worker loop: the job leaves the table of jobs in flight.\<close>

definition leave :: "nat \<Rightarrow> worker_job \<Rightarrow> 'x worker_service \<Rightarrow> 'x worker_service" where
  "leave i j s = s\<lparr>ws_active := take i (ws_active s) @ drop (Suc i) (ws_active s),
     ws_inflight := dict_del (wj_idempotency_key j) (ws_inflight s)\<rparr>"

text \<open>Worker \<open>i\<close> finishes its job: \<open>_execute\<close> and the rest of the loop body.  A cancellation raised by
  the handler ends the worker.\<close>

definition worker_finish :: "'x worker_config \<Rightarrow> nat \<Rightarrow> 'x worker_service \<Rightarrow> 'x worker_service" where
  "worker_finish C i s = (if length (ws_active s) \<le> i \<or> ws_stopping s then s else
     (case ws_active s ! i of (j, f) \<Rightarrow>
        (case run_job C j (ws_outside s) of
           (Inr output, x) \<Rightarrow> (let r = succeeded_result j output (ws_now s) in
             leave i j (set_future f (Resolved r) (s\<lparr>ws_outside := x,
               ws_results := dict_set (wj_idempotency_key j) r (ws_results s),
               ws_succeeded := j # ws_succeeded s\<rparr>)))
         | (Inl error, x) \<Rightarrow> (let s1 = s\<lparr>ws_outside := x\<rparr> in
             if is_exception error
             then leave i j (set_future f (Resolved (failed_result j error (ws_now s)))
               (if mutating j then mark_uncertain j (exn_str error) s1 else s1))
             else (leave i j s1)\<lparr>ws_workers := ws_workers s - 1\<rparr>))))"

section \<open>Start, stop and reconciliation\<close>

definition start :: "'x worker_config \<Rightarrow> 'x worker_service \<Rightarrow> 'x worker_service" where
  "start C s = (if ws_started s then s else s\<lparr>ws_started := True, ws_workers := nat (max 1 (wc_max_concurrency C))\<rparr>)"

definition abandon :: "worker_job \<times> nat \<Rightarrow> 'x worker_service \<Rightarrow> 'x worker_service" where
  "abandon p s = (case p of (j, f) \<Rightarrow>
     if ws_futures s ! f \<noteq> Pending then s
     else if mutating j
     then set_future f (Raised (GatewayExn (NeedsReviewError ''Worker stopped; mutation outcome requires review'')))
       (mark_uncertain j ''Worker service stopped before completion'' s)
     else set_future f (Raised (GatewayExn (ToolExecutionError ''Worker stopped before read-only job completion''))) s)"

definition get_nowait :: "'x worker_service \<Rightarrow> ((worker_job \<times> nat) \<times> 'x worker_service) option" where
  "get_nowait s = (case ws_queue s of [] \<Rightarrow> None | p # rest \<Rightarrow> Some (p, s\<lparr>ws_queue := rest\<rparr>))"

text \<open>\<open>_queued_jobs\<close> takes jobs until the queue raises \<open>QueueEmpty\<close>.\<close>

function queued_jobs :: "'x worker_service \<Rightarrow> (worker_job \<times> nat) list \<times> 'x worker_service" where
  "queued_jobs s = (case get_nowait s of
       None \<Rightarrow> ([], s)
     | Some (p, s1) \<Rightarrow> (case queued_jobs s1 of (values, s2) \<Rightarrow> (p # values, s2)))"
  by pat_completeness auto
termination
  by (relation "measure (\<lambda>s. length (ws_queue s))") (auto simp: get_nowait_def split: list.splits)

declare queued_jobs.simps [simp del]

lemma queued_jobs_all [simp]: "queued_jobs s = (ws_queue s, s\<lparr>ws_queue := []\<rparr>)"
  by (induction s rule: queued_jobs.induct)
    (subst queued_jobs.simps, auto simp: get_nowait_def split: list.splits option.splits)

definition inflight_jobs :: "'x worker_service \<Rightarrow> (worker_job \<times> nat) list" where
  [simp]: "inflight_jobs s = dict_values (ws_inflight s)"

definition reconciliation :: "'x worker_service \<Rightarrow> (string, reconciliation_record) dict" where
  "reconciliation s = ws_reconciliation s"

text \<open>
  \<open>stop\<close> up to its \<open>gather\<close>: the jobs in flight and the drained queue are settled, then every worker is
  cancelled.  From then on no worker takes or finishes a job; a worker that has one is interrupted in
  its handler, which leaves the outside world in some state \<open>x\<close>, and removes the job from the table.
  \<open>stop\<close> ends when all workers have ended.
\<close>

definition stop_begin :: "'x worker_service \<Rightarrow> 'x worker_service" where
  "stop_begin s = (case queued_jobs s of (queued, s1) \<Rightarrow>
     (fold abandon (inflight_jobs s @ queued) s1)\<lparr>ws_stopping := ws_started s\<rparr>)"

definition worker_cancelled :: "nat \<Rightarrow> 'x \<Rightarrow> 'x worker_service \<Rightarrow> 'x worker_service" where
  "worker_cancelled i x s = (if length (ws_active s) \<le> i \<or> \<not> ws_stopping s then s else
     leave i (fst (ws_active s ! i)) (s\<lparr>ws_outside := x\<rparr>))"

definition stop_end :: "'x worker_service \<Rightarrow> 'x worker_service" where
  "stop_end s = (if ws_stopping s \<and> ws_active s = []
     then s\<lparr>ws_started := False, ws_stopping := False, ws_workers := 0\<rparr> else s)"

definition reconcile :: "string \<Rightarrow> string option \<Rightarrow> 'x worker_service \<Rightarrow>
    (exn + reconciliation_record) \<times> 'x worker_service" where
  "reconcile job_id confirmed s = (case dict_get (ws_reconciliation s) job_id of
       None \<Rightarrow> (Inl (GatewayExn (ToolExecutionError ''No reconciliation record exists for this job'')), s)
     | Some r \<Rightarrow> (case confirmed of
         None \<Rightarrow> (Inr r, s)
       | Some outcome \<Rightarrow> (let r' = r\<lparr>rec_status := outcome,
             rec_detail := ''Outcome confirmed by an operator or tool-specific reconciler'', rec_updated_at := ws_now s\<rparr>
           in (Inr r', s\<lparr>ws_reconciliation := dict_set job_id r' (ws_reconciliation s)\<rparr>))))"

section \<open>Runs of the service\<close>

datatype 'x ws_event = Enter worker_job | Take | Finish nat | Resume nat | Timeout nat | CancelWait nat
  | StopBegin | WorkerCancelled nat 'x | StopEnd | Start | Reconcile string "string option"

fun ws_act :: "'x worker_config \<Rightarrow> 'x ws_event \<Rightarrow> 'x worker_service \<Rightarrow> 'x worker_service" where
  "ws_act C (Enter j) s = snd (submit_enter C j s)"
| "ws_act C Take s = worker_take s"
| "ws_act C (Finish i) s = worker_finish C i s"
| "ws_act C (Resume f) s = (case dict_get (ws_waiting s) f of
       None \<Rightarrow> s
     | Some j \<Rightarrow> (case owner_resume f s of None \<Rightarrow> s | Some (r, s') \<Rightarrow> s'))"
| "ws_act C (Timeout f) s = (case dict_get (ws_waiting s) f of
       None \<Rightarrow> s
     | Some j \<Rightarrow> if ws_futures s ! f = Pending then snd (submit_timeout f j s) else s)"
| "ws_act C (CancelWait f) s = set_future f Cancelled (s\<lparr>ws_waiting := dict_del f (ws_waiting s)\<rparr>)"
| "ws_act C StopBegin s = stop_begin s"
| "ws_act C (WorkerCancelled i x) s = worker_cancelled i x s"
| "ws_act C StopEnd s = stop_end s"
| "ws_act C Start s = start C s"
| "ws_act C (Reconcile k v) s = snd (reconcile k v s)"

definition ws_step :: "'x worker_config \<Rightarrow> 'x ws_event \<Rightarrow> 'x worker_service \<Rightarrow> 'x worker_service" where
  "ws_step C ev s = tick (ws_act C ev s)"

inductive reachable :: "'x worker_config \<Rightarrow> ('x ws_event \<Rightarrow> bool) \<Rightarrow> 'x worker_service \<Rightarrow> 'x worker_service \<Rightarrow> bool"
  for C allowed s0 where
  reach_init: "reachable C allowed s0 s0"
| reach_step: "reachable C allowed s0 s \<Longrightarrow> allowed ev \<Longrightarrow> reachable C allowed s0 (ws_step C ev s)"

fun is_cancel :: "'x ws_event \<Rightarrow> bool" where
  "is_cancel (CancelWait f) = True"
| "is_cancel _ = False"

end
