(* ===== verification/Worker_Safety.thy ===== *)
theory Worker_Safety
  imports Workers
begin

text \<open>
  Invariants of the worker service over all its runs (every interleaving of submissions, workers,
  timeouts, cancellations, shutdown and reconciliation), and the properties that rest on them.
\<close>

declare map_of_eq_Some_iff [simp del]

section \<open>The invariant\<close>

definition held :: "'x worker_service \<Rightarrow> (worker_job \<times> nat) list" where
  "held s = ws_queue s @ ws_active s"

definition owns :: "'x worker_service \<Rightarrow> worker_job \<Rightarrow> nat \<Rightarrow> bool" where
  "owns s j f = (f < length (ws_futures s) \<and> ws_jobs s ! f = j)"

text \<open>Every future belongs to the job it was created for, in the tables that mention it.\<close>

definition inv_own :: "'x worker_service \<Rightarrow> bool" where
  "inv_own s = (length (ws_jobs s) = length (ws_futures s) \<and> distinct (dict_keys (ws_inflight s)) \<and>
     (\<forall>k j f. dict_get (ws_inflight s) k = Some (j, f) \<longrightarrow> k = wj_idempotency_key j \<and> owns s j f) \<and>
     (\<forall>f j. dict_get (ws_waiting s) f = Some j \<longrightarrow> owns s j f))"

text \<open>A queued or running job is the one that the table of jobs in flight has under its key.\<close>

definition inv_held :: "'x worker_service \<Rightarrow> bool" where
  "inv_held s = (distinct (map snd (held s)) \<and>
     (\<forall>j f. (j, f) \<in> set (held s) \<longrightarrow> dict_get (ws_inflight s) (wj_idempotency_key j) = Some (j, f)))"

text \<open>A key that succeeded has a result, and no job with it is queued or running.\<close>

definition inv_once :: "'x worker_service \<Rightarrow> bool" where
  "inv_once s = ((\<forall>j f. (j, f) \<in> set (held s) \<longrightarrow> dict_get (ws_results s) (wj_idempotency_key j) = None) \<and>
     (\<forall>j. j \<in> set (ws_succeeded s) \<longrightarrow> dict_get (ws_results s) (wj_idempotency_key j) \<noteq> None) \<and>
     distinct (map wj_idempotency_key (ws_succeeded s)))"

definition inv_size :: "'x worker_config \<Rightarrow> 'x worker_service \<Rightarrow> bool" where
  "inv_size C s = ((0 < wc_queue_size C \<longrightarrow> int (length (ws_queue s)) \<le> wc_queue_size C) \<and>
     length (ws_active s) \<le> ws_workers s \<and> int (ws_workers s) \<le> max 1 (wc_max_concurrency C))"

definition ws_inv :: "'x worker_config \<Rightarrow> 'x worker_service \<Rightarrow> bool" where
  "ws_inv C s = (inv_own s \<and> inv_held s \<and> inv_once s \<and> inv_size C s)"

lemma ws_invI: "inv_own s \<Longrightarrow> inv_held s \<Longrightarrow> inv_once s \<Longrightarrow> inv_size C s \<Longrightarrow> ws_inv C s"
  by (simp add: ws_inv_def)

lemma ws_invD: "ws_inv C s \<Longrightarrow> inv_own s" "ws_inv C s \<Longrightarrow> inv_held s" "ws_inv C s \<Longrightarrow> inv_once s" "ws_inv C s \<Longrightarrow> inv_size C s"
  by (simp_all add: ws_inv_def)

lemma held_inflight:
  "inv_held s \<Longrightarrow> (j, f) \<in> set (held s) \<Longrightarrow> dict_get (ws_inflight s) (wj_idempotency_key j) = Some (j, f)"
  by (simp only: inv_held_def)

lemma held_owns: "ws_inv C s \<Longrightarrow> (j, f) \<in> set (held s) \<Longrightarrow> owns s j f"
  using held_inflight ws_invD(1,2) unfolding inv_own_def by metis

lemma held_same_key:
  "inv_held s \<Longrightarrow> (j, f) \<in> set (held s) \<Longrightarrow> (j', f') \<in> set (held s) \<Longrightarrow>
   wj_idempotency_key j = wj_idempotency_key j' \<Longrightarrow> (j, f) = (j', f')"
  by (metis held_inflight option.inject)

lemmas ws_defs = set_future_def mark_uncertain_def enqueue_def submit_enter_def submit_timeout_def
  owner_result_def owner_resume_def worker_take_def leave_def worker_finish_def start_def stop_begin_def
  stop_end_def reconcile_def tick_def

lemma set_future_simps [simp]:
  "ws_queue (set_future f v s) = ws_queue s" "ws_active (set_future f v s) = ws_active s"
  "ws_inflight (set_future f v s) = ws_inflight s" "ws_results (set_future f v s) = ws_results s"
  "ws_jobs (set_future f v s) = ws_jobs s" "ws_waiting (set_future f v s) = ws_waiting s"
  "ws_succeeded (set_future f v s) = ws_succeeded s" "ws_workers (set_future f v s) = ws_workers s"
  "ws_reconciliation (set_future f v s) = ws_reconciliation s" "ws_accepted (set_future f v s) = ws_accepted s"
  "length (ws_futures (set_future f v s)) = length (ws_futures s)" "ws_outside (set_future f v s) = ws_outside s"
  by (simp_all add: set_future_def)

lemma mark_uncertain_simps [simp]:
  "ws_queue (mark_uncertain j d s) = ws_queue s" "ws_active (mark_uncertain j d s) = ws_active s"
  "ws_inflight (mark_uncertain j d s) = ws_inflight s" "ws_results (mark_uncertain j d s) = ws_results s"
  "ws_jobs (mark_uncertain j d s) = ws_jobs s" "ws_waiting (mark_uncertain j d s) = ws_waiting s"
  "ws_succeeded (mark_uncertain j d s) = ws_succeeded s" "ws_workers (mark_uncertain j d s) = ws_workers s"
  "ws_futures (mark_uncertain j d s) = ws_futures s" "ws_accepted (mark_uncertain j d s) = ws_accepted s"
  "ws_outside (mark_uncertain j d s) = ws_outside s"
  by (simp_all add: mark_uncertain_def)

text \<open>The invariant reads only these parts of the state.\<close>

lemma ws_inv_cong:
  assumes "length (ws_futures s') = length (ws_futures s)" "ws_jobs s' = ws_jobs s" "ws_queue s' = ws_queue s"
    "ws_active s' = ws_active s" "ws_inflight s' = ws_inflight s" "ws_results s' = ws_results s"
    "ws_succeeded s' = ws_succeeded s" "ws_workers s' = ws_workers s"
    "\<And>f j. dict_get (ws_waiting s') f = Some j \<Longrightarrow> dict_get (ws_waiting s) f = Some j"
  shows "ws_inv C s \<Longrightarrow> ws_inv C s'"
  using assms unfolding ws_inv_def inv_own_def inv_held_def inv_once_def inv_size_def owns_def held_def by simp

section \<open>Preservation\<close>

lemma held_take: "set (held (worker_take s)) = set (held s)" "distinct (map snd (held (worker_take s))) = distinct (map snd (held s))"
  by (auto simp: worker_take_def held_def split: list.splits)

lemma take_frame:
  "ws_futures (worker_take s) = ws_futures s" "ws_jobs (worker_take s) = ws_jobs s"
  "ws_inflight (worker_take s) = ws_inflight s" "ws_results (worker_take s) = ws_results s"
  "ws_waiting (worker_take s) = ws_waiting s" "ws_succeeded (worker_take s) = ws_succeeded s"
  "ws_accepted (worker_take s) = ws_accepted s" "ws_reconciliation (worker_take s) = ws_reconciliation s"
  by (simp_all add: worker_take_def split: list.splits)

lemma take_inv:
  assumes "ws_inv C s"
  shows "ws_inv C (worker_take s)"
proof (rule ws_invI)
  show "inv_size C (worker_take s)"
    using ws_invD(4) [OF assms] by (auto simp: worker_take_def inv_size_def split: list.splits)
qed (use assms in \<open>unfold ws_inv_def inv_own_def inv_held_def inv_once_def owns_def take_frame held_take, blast+\<close>)

lemma start_inv:
  assumes "ws_inv C s"
  shows "ws_inv C (start C s)"
proof (rule ws_invI)
  show "inv_size C (start C s)"
    using ws_invD(4) [OF assms] by (auto simp: start_def inv_size_def)
qed (use assms in \<open>simp_all add: ws_inv_def inv_own_def inv_held_def inv_once_def owns_def start_def held_def\<close>)

lemma enqueue_inv:
  assumes inv: "ws_inv C s" and new: "dict_get (ws_inflight s) (wj_idempotency_key j) = None"
    "dict_get (ws_results s) (wj_idempotency_key j) = None"
  shows "ws_inv C (snd (enqueue C j s))"
proof -
  let ?s = "snd (enqueue C j s)" and ?n = "length (ws_futures s)"
  have other: "wj_idempotency_key j' \<noteq> wj_idempotency_key j" if "(j', f) \<in> set (held s)" for j' f
    using held_inflight [OF ws_invD(2) [OF inv] that] new(1) by auto
  have fresh: "f < ?n" if "(j', f) \<in> set (held s)" for j' f
    using held_owns [OF inv that] by (simp add: owns_def)
  have len: "length (ws_jobs s) = ?n" using inv by (simp add: ws_inv_def inv_own_def)
  have fut: "ws_futures ?s = ws_futures s @ [Pending]" "ws_jobs ?s = ws_jobs s @ [j]" "ws_results ?s = ws_results s"
    "ws_succeeded ?s = ws_succeeded s" "ws_active ?s = ws_active s" "ws_workers ?s = ws_workers s"
    by (simp_all add: enqueue_def Let_def)
  have owns: "owns ?s j' f" if "owns s j' f" for j' f
    using that len by (simp add: owns_def fut nth_append)
  show ?thesis
  proof (rule ws_invI)
    have "owns ?s j ?n" using len by (simp add: owns_def fut nth_append)
    moreover have "(k, j', f) = (wj_idempotency_key j, j, ?n) \<or> dict_get (ws_inflight s) k = Some (j', f)"
      if "dict_get (ws_inflight ?s) k = Some (j', f)" for k j' f
      using that by (auto simp: enqueue_def Let_def split: if_splits)
    moreover have "(f, j') = (?n, j) \<or> dict_get (ws_waiting s) f = Some j'"
      if "dict_get (ws_waiting ?s) f = Some j'" for f j'
      using that by (auto simp: enqueue_def Let_def split: if_splits)
    moreover have "length (ws_jobs ?s) = length (ws_futures ?s)" using len by (simp add: fut)
    moreover have "distinct (dict_keys (ws_inflight ?s))"
      using ws_invD(1) [OF inv] by (simp add: enqueue_def Let_def inv_own_def del: dict_keys_set)
    ultimately show "inv_own ?s"
      using ws_invD(1) [OF inv] owns unfolding inv_own_def by blast
    show "inv_size C ?s"
      using ws_invD(4) [OF inv] by (auto simp: enqueue_def Let_def inv_size_def queue_full_def)
    have new_queue: "ws_queue ?s = ws_queue s \<or> ws_queue ?s = ws_queue s @ [(j, ?n)]"
      by (simp add: enqueue_def Let_def)
    have "?n \<notin> snd ` set (ws_queue s)" "?n \<notin> snd ` set (ws_active s)" using fresh by (fastforce simp: held_def)+
    then have dist: "distinct (map snd (held ?s))"
      using ws_invD(2) [OF inv] new_queue by (elim disjE) (simp_all add: fut inv_held_def held_def)
    have held: "set (held ?s) \<subseteq> insert (j, ?n) (set (held s))"
      using new_queue by (auto simp: fut held_def)
    have "dict_get (ws_inflight ?s) (wj_idempotency_key j') = dict_get (ws_inflight s) (wj_idempotency_key j')"
      if "(j', f) \<in> set (held s)" for j' f
      using other [OF that] by (simp add: enqueue_def Let_def)
    moreover have "dict_get (ws_inflight ?s) (wj_idempotency_key j) = Some (j, ?n)" if "(j, ?n) \<in> set (held ?s)"
    proof -
      have "\<not> queue_full C s"
      proof
        assume "queue_full C s"
        then have "held ?s = held s" by (simp add: enqueue_def Let_def held_def)
        with that fresh show False by auto
      qed
      then show ?thesis by (simp add: enqueue_def Let_def)
    qed
    ultimately have "dict_get (ws_inflight ?s) (wj_idempotency_key j') = Some (j', f)"
      if "(j', f) \<in> set (held ?s)" for j' f
      using that held held_inflight [OF ws_invD(2) [OF inv], of j' f] by (cases "(j', f) \<in> set (held s)") auto
    with dist show "inv_held ?s" unfolding inv_held_def by blast
    show "inv_once ?s"
      using ws_invD(3) [OF inv] held new(2) unfolding inv_once_def fut by blast
  qed
qed

lemma enter_inv:
  assumes "ws_inv C s"
  shows "ws_inv C (snd (submit_enter C j s))"
proof -
  have breaker: "ws_inv C (s\<lparr>ws_breaker := b\<rparr>)" for b
    by (rule ws_inv_cong [OF _ _ _ _ _ _ _ _ _ assms]) simp_all
  show ?thesis
    using assms breaker enqueue_inv [OF breaker]
    by (auto simp: submit_enter_def Let_def split: prod.splits sum.splits option.splits)
qed

text \<open>The other held jobs when worker \<open>i\<close> gives up the job \<open>j\<close>.\<close>

lemma held_rest:
  assumes inv: "inv_held s" and i: "i < length (ws_active s)" "ws_active s ! i = (j, f)"
    and mem: "(j', f') \<in> set (ws_queue s @ take i (ws_active s) @ drop (Suc i) (ws_active s))"
  shows "(j', f') \<in> set (held s)" and "f' \<noteq> f" and "wj_idempotency_key j' \<noteq> wj_idempotency_key j"
proof -
  have act: "ws_active s = take i (ws_active s) @ (j, f) # drop (Suc i) (ws_active s)"
    using id_take_nth_drop [OF i(1)] i(2) by simp
  then have set: "set (ws_active s) = insert (j, f) (set (take i (ws_active s)) \<union> set (drop (Suc i) (ws_active s)))"
    by (metis Un_insert_right list.simps(15) set_append)
  then show held: "(j', f') \<in> set (held s)" using mem by (auto simp: held_def)
  have "distinct (map snd (ws_queue s @ take i (ws_active s) @ (j, f) # drop (Suc i) (ws_active s)))"
    using inv act unfolding inv_held_def held_def by metis
  then have "f \<notin> snd ` set (ws_queue s @ take i (ws_active s) @ drop (Suc i) (ws_active s))"
    by auto
  with mem show ne: "f' \<noteq> f" by force
  have "(j, f) \<in> set (held s)" using set by (simp add: held_def)
  with held ne show "wj_idempotency_key j' \<noteq> wj_idempotency_key j"
    using held_same_key [OF inv] by blast
qed

lemma leave_inv:
  assumes inv: "ws_inv C s" and i: "i < length (ws_active s)" "ws_active s ! i = (j, f)"
    and same: "ws_queue s1 = ws_queue s" "ws_active s1 = ws_active s" "ws_inflight s1 = ws_inflight s"
      "length (ws_futures s1) = length (ws_futures s)" "ws_jobs s1 = ws_jobs s" "ws_waiting s1 = ws_waiting s"
    and once: "ws_results s1 = ws_results s \<and> ws_succeeded s1 = ws_succeeded s \<or>
      ws_results s1 = dict_set (wj_idempotency_key j) r (ws_results s) \<and> ws_succeeded s1 = j # ws_succeeded s"
    and w: "length (ws_active s) \<le> Suc w" "w \<le> ws_workers s"
  shows "ws_inv C ((leave i j s1)\<lparr>ws_workers := w\<rparr>)"
proof -
  let ?s = "(leave i j s1)\<lparr>ws_workers := w\<rparr>"
  note rest = held_rest [OF ws_invD(2) [OF inv] i]
  have held: "held ?s = ws_queue s @ take i (ws_active s) @ drop (Suc i) (ws_active s)"
    by (simp add: leave_def same held_def)
  have "(j, f) \<in> set (held s)" using nth_mem [OF i(1)] i(2) by (simp add: held_def)
  then have "dict_get (ws_results s) (wj_idempotency_key j) = None"
    using ws_invD(3) [OF inv] unfolding inv_once_def by blast
  then have not_yet: "wj_idempotency_key j \<notin> wj_idempotency_key ` set (ws_succeeded s)"
    using ws_invD(3) [OF inv] unfolding inv_once_def by (metis imageE)
  show ?thesis
  proof (rule ws_invI)
    show "inv_own ?s"
      using ws_invD(1) [OF inv] by (auto simp: inv_own_def owns_def leave_def same)
    show "inv_size C ?s"
      using ws_invD(4) [OF inv] w i(1) by (auto simp: inv_size_def leave_def same)
    have "distinct (map snd (ws_queue s @ take i (ws_active s) @ (j, f) # drop (Suc i) (ws_active s)))"
      using ws_invD(2) [OF inv] id_take_nth_drop [OF i(1)] i(2) unfolding inv_held_def held_def by metis
    then have "distinct (map snd (held ?s))" unfolding held by simp
    moreover have "dict_get (ws_inflight ?s) (wj_idempotency_key j') = Some (j', f')"
      if "(j', f') \<in> set (held ?s)" for j' f'
      using rest [OF that [unfolded held]] held_inflight [OF ws_invD(2) [OF inv]]
      by (simp add: leave_def same)
    ultimately show "inv_held ?s" unfolding inv_held_def by blast
    have "dict_get (ws_results ?s) (wj_idempotency_key j') = None" if "(j', f') \<in> set (held ?s)" for j' f'
      using rest [OF that [unfolded held]] ws_invD(3) [OF inv] once
      by (auto simp: leave_def inv_once_def)
    moreover have "\<forall>j'. j' \<in> set (ws_succeeded ?s) \<longrightarrow> dict_get (ws_results ?s) (wj_idempotency_key j') \<noteq> None"
      using ws_invD(3) [OF inv] once by (auto simp: leave_def inv_once_def)
    moreover have "distinct (map wj_idempotency_key (ws_succeeded ?s))"
      using ws_invD(3) [OF inv] once not_yet by (auto simp: leave_def inv_once_def)
    ultimately show "inv_once ?s" unfolding inv_once_def by blast
  qed
qed

lemma finish_inv:
  assumes inv: "ws_inv C s"
  shows "ws_inv C (worker_finish C i s)"
proof (cases "i < length (ws_active s) \<and> \<not> ws_stopping s")
  case act: True
  then have True: "i < length (ws_active s)" and run_on: "\<not> ws_stopping s" by simp_all
  obtain j f where jf: "ws_active s ! i = (j, f)" by (rule prod.exhaust)
  have size: "length (ws_active s) \<le> ws_workers s" using ws_invD(4) [OF inv] by (simp add: inv_size_def)
  obtain out x where run: "run_job C j (ws_outside s) = (out, x)" by (rule prod.exhaust)
  have keep: "ws_inv C (leave i j s1)"
    if "ws_queue s1 = ws_queue s" "ws_active s1 = ws_active s" "ws_inflight s1 = ws_inflight s"
      "length (ws_futures s1) = length (ws_futures s)" "ws_jobs s1 = ws_jobs s" "ws_waiting s1 = ws_waiting s"
      "ws_results s1 = ws_results s \<and> ws_succeeded s1 = ws_succeeded s \<or>
       ws_results s1 = dict_set (wj_idempotency_key j) r (ws_results s) \<and> ws_succeeded s1 = j # ws_succeeded s"
      "ws_workers s1 = ws_workers s" for s1 r
    by (rule ws_inv_cong [OF _ _ _ _ _ _ _ _ _ leave_inv [OF inv True jf that(1-7), of "ws_workers s"]])
      (use size that(8) in \<open>simp_all add: leave_def\<close>)
  show ?thesis
  proof (cases out)
    case (Inr res)
    with True run_on jf run show ?thesis
      by (simp add: worker_finish_def Let_def)
        (rule keep [where r = "succeeded_result j res (ws_now s)"]; simp)
  next
    case (Inl error)
    show ?thesis
    proof (cases "is_exception error")
      case True
      with act jf run Inl show ?thesis
        by (simp add: worker_finish_def Let_def) (intro conjI impI; rule keep; simp)
    next
      case False
      with act jf run Inl show ?thesis
        using leave_inv [OF inv conjunct1 [OF act] jf, of "s\<lparr>ws_outside := x\<rparr>" undefined "ws_workers s - 1"] size
        by (simp add: worker_finish_def Let_def)
    qed
  qed
qed (auto simp: worker_finish_def inv)

lemma abandon_frame:
  "ws_queue (abandon p s) = ws_queue s" "ws_active (abandon p s) = ws_active s"
  "ws_inflight (abandon p s) = ws_inflight s" "ws_results (abandon p s) = ws_results s"
  "ws_jobs (abandon p s) = ws_jobs s" "ws_waiting (abandon p s) = ws_waiting s"
  "ws_succeeded (abandon p s) = ws_succeeded s" "ws_workers (abandon p s) = ws_workers s"
  "ws_accepted (abandon p s) = ws_accepted s" "length (ws_futures (abandon p s)) = length (ws_futures s)"
  by (simp_all add: abandon_def split: prod.splits)

lemma fold_abandon_frame:
  "ws_queue (fold abandon ps s) = ws_queue s" "ws_active (fold abandon ps s) = ws_active s"
  "ws_inflight (fold abandon ps s) = ws_inflight s" "ws_results (fold abandon ps s) = ws_results s"
  "ws_jobs (fold abandon ps s) = ws_jobs s" "ws_waiting (fold abandon ps s) = ws_waiting s"
  "ws_succeeded (fold abandon ps s) = ws_succeeded s" "ws_workers (fold abandon ps s) = ws_workers s"
  "ws_accepted (fold abandon ps s) = ws_accepted s" "length (ws_futures (fold abandon ps s)) = length (ws_futures s)"
  by (induction ps arbitrary: s) (simp_all add: abandon_frame)

lemma stop_begin_frame:
  "ws_queue (stop_begin s) = []" "ws_active (stop_begin s) = ws_active s"
  "ws_inflight (stop_begin s) = ws_inflight s" "ws_results (stop_begin s) = ws_results s"
  "ws_jobs (stop_begin s) = ws_jobs s" "ws_waiting (stop_begin s) = ws_waiting s"
  "ws_succeeded (stop_begin s) = ws_succeeded s" "ws_workers (stop_begin s) = ws_workers s"
  "ws_accepted (stop_begin s) = ws_accepted s" "length (ws_futures (stop_begin s)) = length (ws_futures s)"
  "held (stop_begin s) = ws_active s"
  by (simp_all add: stop_begin_def fold_abandon_frame held_def)

lemma stop_begin_inv:
  assumes "ws_inv C s"
  shows "ws_inv C (stop_begin s)"
proof (rule ws_invI)
  have held: "set (ws_active s) \<subseteq> set (held s)" by (simp add: held_def)
  show "inv_own (stop_begin s)"
    using ws_invD(1) [OF assms] by (simp add: inv_own_def owns_def stop_begin_frame)
  show "inv_held (stop_begin s)"
    using ws_invD(2) [OF assms] held by (auto simp: inv_held_def stop_begin_frame held_def)
  show "inv_once (stop_begin s)"
    using ws_invD(3) [OF assms] held unfolding inv_once_def stop_begin_frame by blast
  show "inv_size C (stop_begin s)"
    using ws_invD(4) [OF assms] by (auto simp: inv_size_def stop_begin_frame)
qed

lemma cancelled_inv:
  assumes inv: "ws_inv C s"
  shows "ws_inv C (worker_cancelled i x s)"
proof (cases "i < length (ws_active s) \<and> ws_stopping s")
  case True
  obtain j f where jf: "ws_active s ! i = (j, f)" by (rule prod.exhaust)
  have "ws_inv C ((leave i j (s\<lparr>ws_outside := x\<rparr>))\<lparr>ws_workers := ws_workers s\<rparr>)"
    using True ws_invD(4) [OF inv] by (intro leave_inv [OF inv _ jf, where r = undefined]) (simp_all add: inv_size_def)
  then have "ws_inv C (leave i j (s\<lparr>ws_outside := x\<rparr>))"
    by (rule ws_inv_cong [rotated -1]) (simp_all add: leave_def)
  with True jf show ?thesis by (simp add: worker_cancelled_def)
qed (auto simp: worker_cancelled_def inv)

lemma stop_end_inv:
  assumes "ws_inv C s"
  shows "ws_inv C (stop_end s)"
  using assms unfolding ws_inv_def inv_own_def inv_held_def inv_once_def inv_size_def owns_def held_def stop_end_def by simp

lemma wait_over_inv:
  assumes "ws_inv C s"
  shows "ws_inv C (ws_act C (Resume f) s)" "ws_inv C (ws_act C (Timeout f) s)" "ws_inv C (ws_act C (CancelWait f) s)"
    "ws_inv C (ws_act C (Reconcile k v) s)" "ws_inv C (tick s)"
  by (rule ws_inv_cong [OF _ _ _ _ _ _ _ _ _ assms];
      auto simp: owner_resume_def owner_result_def submit_timeout_def reconcile_def tick_def Let_def
        split: option.splits future.splits if_splits)+

lemma step_inv:
  assumes "ws_inv C s"
  shows "ws_inv C (ws_step C ev s)"
proof -
  have "ws_inv C (ws_act C ev s)"
    using wait_over_inv [OF assms] assms
    by (cases ev) (simp_all add: take_inv start_inv enter_inv finish_inv stop_begin_inv cancelled_inv stop_end_inv)
  then show ?thesis unfolding ws_step_def by (rule wait_over_inv(5))
qed

lemma initial_inv: "ws_inv C (WorkerService t r clock x)"
  by (simp add: WorkerService_def ws_inv_def inv_own_def inv_held_def inv_once_def inv_size_def held_def)

lemma reachable_inv: "reachable C allowed (WorkerService t r clock x) s \<Longrightarrow> ws_inv C s"
  by (induction rule: reachable.induct) (auto intro: initial_inv step_inv)

section \<open>Mutations are accounted for\<close>

definition marked :: "'x worker_service \<Rightarrow> worker_job \<Rightarrow> bool" where
  "marked s j = (dict_get (ws_reconciliation s) (wj_job_id j) \<noteq> None)"

text \<open>The submitter of the job is still waiting for its future.\<close>

definition awaited :: "'x worker_service \<Rightarrow> worker_job \<Rightarrow> nat \<Rightarrow> bool" where
  "awaited s j f = (dict_get (ws_waiting s) f = Some j \<and> ws_futures s ! f = Pending)"

definition accounted :: "'x worker_service \<Rightarrow> worker_job \<Rightarrow> nat \<Rightarrow> bool" where
  "accounted s j f = (j \<in> set (ws_succeeded s) \<or> marked s j \<or> (j, f) \<in> set (held s) \<or> awaited s j f)"

definition inv_kept :: "'x worker_service \<Rightarrow> bool" where
  "inv_kept s = ((\<forall>j f. (j, f) \<in> set (held s) \<longrightarrow> mutating j \<longrightarrow> marked s j \<or> awaited s j f) \<and>
     (\<forall>j f. (j, f) \<in> set (ws_accepted s) \<longrightarrow> owns s j f \<and> (mutating j \<longrightarrow> accounted s j f)))"

lemma inv_keptI:
  assumes "\<And>j f. (j, f) \<in> set (held s) \<Longrightarrow> mutating j \<Longrightarrow> marked s j \<or> awaited s j f"
    and "\<And>j f. (j, f) \<in> set (ws_accepted s) \<Longrightarrow> owns s j f"
    and "\<And>j f. (j, f) \<in> set (ws_accepted s) \<Longrightarrow> mutating j \<Longrightarrow> accounted s j f"
  shows "inv_kept s"
  using assms by (auto simp: inv_kept_def)

text \<open>A step that keeps what is marked, succeeded and held, and that ends no wait unless the job is
  marked or succeeded, keeps the invariant.\<close>

lemma kept_step:
  assumes kept: "inv_kept s"
    and owns: "\<And>j f. owns s j f \<Longrightarrow> owns s' j f"
    and acc: "ws_accepted s' = ws_accepted s"
    and marks: "\<And>j. marked s j \<Longrightarrow> marked s' j"
    and succ: "set (ws_succeeded s) \<subseteq> set (ws_succeeded s')"
    and held: "set (held s') \<subseteq> set (held s)"
    and gone: "\<And>j f. (j, f) \<in> set (held s) \<Longrightarrow> mutating j \<Longrightarrow> (j, f) \<notin> set (held s') \<Longrightarrow>
      j \<in> set (ws_succeeded s') \<or> marked s' j \<or> awaited s' j f"
    and wait: "\<And>j f. owns s j f \<Longrightarrow> awaited s j f \<Longrightarrow> mutating j \<Longrightarrow>
      awaited s' j f \<or> marked s' j \<or> j \<in> set (ws_succeeded s') \<and> (j, f) \<notin> set (held s')"
    and own: "\<And>j f. (j, f) \<in> set (held s) \<Longrightarrow> owns s j f"
  shows "inv_kept s'"
proof (rule inv_keptI)
  fix j f assume m: "(j, f) \<in> set (held s')" "mutating j"
  then have h: "(j, f) \<in> set (held s)" using held by blast
  with kept m(2) have "marked s j \<or> awaited s j f" unfolding inv_kept_def by blast
  with marks wait [OF own [OF h]] m show "marked s' j \<or> awaited s' j f" by blast
next
  fix j f assume "(j, f) \<in> set (ws_accepted s')"
  then have a: "owns s j f" "mutating j \<Longrightarrow> accounted s j f"
    using kept acc by (auto simp: inv_kept_def)
  then show "owns s' j f" using owns by blast
  assume m: "mutating j"
  with a(2) show "accounted s' j f"
    using marks succ gone [of j f] wait [OF a(1)] m unfolding accounted_def by blast
qed

lemma kept_cong:
  assumes "inv_kept s" "ws_futures s' = ws_futures s" "ws_jobs s' = ws_jobs s" "ws_accepted s' = ws_accepted s"
    "\<And>j. marked s' j = marked s j" "ws_succeeded s' = ws_succeeded s" "set (held s') = set (held s)"
    "ws_waiting s' = ws_waiting s"
  shows "inv_kept s'"
  using assms unfolding inv_kept_def accounted_def awaited_def owns_def by simp

lemma kept_quiet:
  assumes "inv_kept s"
  shows "inv_kept (worker_take s)" "inv_kept (start C s)" "inv_kept (stop_end s)" "inv_kept (tick s)"
    "inv_kept (snd (reconcile k v s))" "inv_kept (s\<lparr>ws_breaker := b\<rparr>)"
  subgoal by (rule kept_cong [OF assms]) (simp_all add: take_frame held_take marked_def)
  by (rule kept_cong [OF assms];
      auto simp: held_def marked_def start_def stop_end_def tick_def reconcile_def Let_def split: option.splits)+

lemma kept_enqueue:
  assumes kept: "inv_kept s" and inv: "ws_inv C s"
  shows "inv_kept (snd (enqueue C j s))"
proof -
  let ?s = "snd (enqueue C j s)" and ?n = "length (ws_futures s)"
  have len: "length (ws_jobs s) = ?n" using inv by (simp add: ws_inv_def inv_own_def)
  have fut: "ws_futures ?s = ws_futures s @ [Pending]" "ws_jobs ?s = ws_jobs s @ [j]"
    "ws_succeeded ?s = ws_succeeded s" "\<And>j'. marked ?s j' = marked s j'"
    by (simp_all add: enqueue_def Let_def marked_def)
  have owns: "owns ?s j' f" if "owns s j' f" for j' f
    using that len by (simp add: owns_def fut nth_append)
  have wait: "awaited ?s j' f" if "awaited s j' f" "owns s j' f" for j' f
    using that by (auto simp: awaited_def owns_def fut nth_append enqueue_def Let_def)
  have acc: "set (ws_accepted ?s) \<subseteq> insert (j, ?n) (set (ws_accepted s))"
    and held: "set (held s) \<subseteq> set (held ?s)" "set (held ?s) \<subseteq> insert (j, ?n) (set (held s))"
    by (auto simp: enqueue_def Let_def held_def)
  have new: "awaited ?s j ?n \<and> owns ?s j ?n" if "(j, ?n) \<in> set (held ?s) \<union> set (ws_accepted ?s)"
  proof -
    have "\<not> queue_full C s"
    proof
      assume full: "queue_full C s"
      then have "held ?s = held s" "ws_accepted ?s = ws_accepted s" by (simp_all add: enqueue_def Let_def held_def)
      with that held_owns [OF inv] kept have "owns s j ?n" unfolding inv_kept_def by auto
      then show False by (simp add: owns_def)
    qed
    then show ?thesis using len by (simp add: enqueue_def Let_def awaited_def owns_def nth_append)
  qed
  show ?thesis
  proof (rule inv_keptI)
    fix j' f assume a: "(j', f) \<in> set (held ?s)" "mutating j'"
    show "marked ?s j' \<or> awaited ?s j' f"
    proof (cases "(j', f) \<in> set (held s)")
      case True
      with kept a(2) have "marked s j' \<or> awaited s j' f" unfolding inv_kept_def by blast
      with wait [OF _ held_owns [OF inv True]] fut(4) show ?thesis by metis
    next
      case False
      with a(1) held(2) have "j' = j" "f = ?n" by auto
      with new a(1) show ?thesis by simp
    qed
  next
    fix j' f assume a: "(j', f) \<in> set (ws_accepted ?s)"
    have old: "owns s j' f \<and> (mutating j' \<longrightarrow> accounted s j' f)" if "(j', f) \<in> set (ws_accepted s)"
      using kept that unfolding inv_kept_def by blast
    show "owns ?s j' f"
      using a acc old owns new by (cases "(j', f) \<in> set (ws_accepted s)") auto
    assume m: "mutating j'"
    show "accounted ?s j' f"
    proof (cases "(j', f) \<in> set (ws_accepted s)")
      case True
      with old m wait [of j' f] fut(3,4) held(1) show ?thesis unfolding accounted_def by auto
    next
      case False
      with a acc have "j' = j" "f = ?n" by auto
      with new a show ?thesis by (simp add: accounted_def)
    qed
  qed
qed

lemma kept_enter: "inv_kept s \<Longrightarrow> ws_inv C s \<Longrightarrow> inv_kept (snd (submit_enter C j s))"
proof -
  assume kept: "inv_kept s" and inv: "ws_inv C s"
  have "ws_inv C (s\<lparr>ws_breaker := b\<rparr>)" for b
    by (rule ws_inv_cong [OF _ _ _ _ _ _ _ _ _ inv]) simp_all
  then show ?thesis
    using kept kept_quiet(6) [OF kept] kept_enqueue [OF kept_quiet(6) [OF kept]]
    by (auto simp: submit_enter_def Let_def split: prod.splits sum.splits option.splits)
qed

lemma set_future_nth:
  "ws_futures (set_future f v s) ! f' = (if f' = f \<and> f < length (ws_futures s) \<and> ws_futures s ! f = Pending
     then v else ws_futures s ! f')"
  by (auto simp: set_future_def nth_list_update)

lemma marked_simps [simp]:
  "marked (set_future f v s) j = marked s j" "marked (leave i j' s) j = marked s j"
  "marked (s\<lparr>ws_waiting := w\<rparr>) j = marked s j" "marked (s\<lparr>ws_breaker := b\<rparr>) j = marked s j"
  "marked (mark_uncertain j' d s) j = (wj_job_id j = wj_job_id j' \<or> marked s j)"
  "marked (s\<lparr>ws_workers := w'\<rparr>) j = marked s j" "marked (s\<lparr>ws_outside := x\<rparr>) j = marked s j"
  by (auto simp: marked_def leave_def mark_uncertain_def)

lemma leave_succeeded [simp]: "ws_succeeded (leave i j s) = ws_succeeded s"
  by (simp add: leave_def)

lemma kept_resume:
  assumes kept: "inv_kept s" and inv: "ws_inv C s"
  shows "inv_kept (ws_act C (Resume f) s)"
proof (cases "dict_get (ws_waiting s) f = None \<or> ws_futures s ! f = Pending")
  case True
  then show ?thesis using kept by (auto simp: owner_resume_def split: option.splits)
next
  case False
  let ?s = "ws_act C (Resume f) s"
  have same: "ws_futures ?s = ws_futures s" "ws_jobs ?s = ws_jobs s" "ws_accepted ?s = ws_accepted s"
    "ws_reconciliation ?s = ws_reconciliation s" "ws_succeeded ?s = ws_succeeded s" "held ?s = held s"
    "ws_waiting ?s = dict_del f (ws_waiting s)"
    using False by (auto simp: owner_resume_def owner_result_def Let_def held_def split: option.splits future.splits)
  show ?thesis
    by (rule kept_step [OF kept])
      (use False same held_owns [OF inv] in \<open>auto simp: owns_def marked_def awaited_def simp del: ws_act.simps\<close>)
qed

lemma kept_timeout:
  assumes kept: "inv_kept s" and inv: "ws_inv C s"
  shows "inv_kept (ws_act C (Timeout f) s)"
proof (cases "dict_get (ws_waiting s) f")
  case None
  then show ?thesis using kept by simp
next
  case (Some j)
  show ?thesis
  proof (cases "ws_futures s ! f = Pending")
    case False
    then show ?thesis using kept Some by simp
  next
    case True
    let ?s = "ws_act C (Timeout f) s"
    have j: "owns s j f" using inv Some unfolding ws_inv_def inv_own_def by blast
    have same: "ws_jobs ?s = ws_jobs s" "ws_accepted ?s = ws_accepted s" "ws_succeeded ?s = ws_succeeded s"
      "held ?s = held s" "ws_waiting ?s = dict_del f (ws_waiting s)"
      "length (ws_futures ?s) = length (ws_futures s)"
      "\<And>f'. f' \<noteq> f \<Longrightarrow> ws_futures ?s ! f' = ws_futures s ! f'"
      "\<And>j'. marked ?s j' = (mutating j \<and> wj_job_id j' = wj_job_id j \<or> marked s j')"
      using True Some by (auto simp: submit_timeout_def Let_def set_future_nth held_def)
    show ?thesis
    proof (rule kept_step [OF kept])
      fix j' f' assume a: "owns s j' f'" "awaited s j' f'" "mutating j'"
      show "awaited ?s j' f' \<or> marked ?s j' \<or> j' \<in> set (ws_succeeded ?s) \<and> (j', f') \<notin> set (held ?s)"
      proof (cases "f' = f")
        case True
        with a(1) j have "j' = j" by (simp add: owns_def)
        with a(3) same show ?thesis by blast
      next
        case False
        with a(2) same(5,7) show ?thesis by (simp add: awaited_def)
      qed
    qed (use same held_owns [OF inv] in \<open>auto simp: owns_def simp del: ws_act.simps\<close>)
  qed
qed

lemma kept_finish:
  assumes kept: "inv_kept s" and inv: "ws_inv C s"
  shows "inv_kept (worker_finish C i s)"
proof (cases "i < length (ws_active s) \<and> \<not> ws_stopping s")
  case False
  then show ?thesis using kept by (auto simp: worker_finish_def)
next
  case act: True
  then have True: "i < length (ws_active s)" and run_on: "\<not> ws_stopping s" by simp_all
  obtain j f where jf: "ws_active s ! i = (j, f)" by (rule prod.exhaust)
  let ?s = "worker_finish C i s"
  obtain out x where run: "run_job C j (ws_outside s) = (out, x)" by (rule prod.exhaust)
  have mem: "(j, f) \<in> set (held s)" using nth_mem [OF True] jf by (simp add: held_def)
  have own: "owns s j f" by (rule held_owns [OF inv mem])
  have same: "ws_jobs ?s = ws_jobs s" "ws_accepted ?s = ws_accepted s" "ws_waiting ?s = ws_waiting s"
    "length (ws_futures ?s) = length (ws_futures s)" "\<And>f'. f' \<noteq> f \<Longrightarrow> ws_futures ?s ! f' = ws_futures s ! f'"
    "\<And>j'. marked s j' \<Longrightarrow> marked ?s j'" "set (ws_succeeded s) \<subseteq> set (ws_succeeded ?s)"
    "held ?s = ws_queue s @ take i (ws_active s) @ drop (Suc i) (ws_active s)"
    using act jf run
    by (auto simp: worker_finish_def Let_def leave_def set_future_nth held_def marked_def mark_uncertain_def
        split: sum.splits if_splits)
  have dead: "ws_futures ?s = ws_futures s" if "out = Inl CancelledExn"
    using act jf run that by (simp add: worker_finish_def Let_def leave_def)
  have over: "j \<in> set (ws_succeeded ?s) \<or> marked ?s j \<or> out = Inl CancelledExn" if "mutating j"
    using act jf run that
    by (cases out; cases "projl out") (auto simp: worker_finish_def Let_def)
  have not_held: "(j', f) \<notin> set (held ?s)" for j'
    using held_rest(2) [OF ws_invD(2) [OF inv] True jf, of j' f] unfolding same(8) by blast
  have "ws_active s = take i (ws_active s) @ (j, f) # drop (Suc i) (ws_active s)"
    using id_take_nth_drop [OF True] jf by simp
  then have "set (ws_active s) = set (take i (ws_active s) @ (j, f) # drop (Suc i) (ws_active s))"
    by (rule arg_cong)
  then have set: "set (held s) = insert (j, f) (set (held ?s))"
    unfolding same(8) by (auto simp: held_def)
  then have rest: "set (held ?s) \<subseteq> set (held s)" by blast
  have kill: "awaited ?s j f" if "out = Inl CancelledExn" "awaited s j f"
    using that same(3) dead by (simp add: awaited_def)
  have ends: "j \<in> set (ws_succeeded ?s) \<or> marked ?s j \<or> awaited ?s j f" if m: "mutating j"
  proof -
    have "marked s j \<or> awaited s j f" using kept mem m unfolding inv_kept_def by blast
    with over [OF m] kill same(6) show ?thesis by blast
  qed
  show ?thesis
  proof (rule kept_step [OF kept _ same(2,6,7) rest])
    show "owns ?s j' f'" if "owns s j' f'" for j' f' using that same(1,4) by (simp add: owns_def)
    show "owns s j' f'" if "(j', f') \<in> set (held s)" for j' f' using held_owns [OF inv that] .
  next
    fix j' f' assume g: "(j', f') \<in> set (held s)" "mutating j'" "(j', f') \<notin> set (held ?s)"
    then have eq: "j' = j" "f' = f" using set by auto
    show "j' \<in> set (ws_succeeded ?s) \<or> marked ?s j' \<or> awaited ?s j' f'"
      using ends g(2) unfolding eq by blast
  next
    fix j' f' assume g: "owns s j' f'" "awaited s j' f'" "mutating j'"
    show "awaited ?s j' f' \<or> marked ?s j' \<or> j' \<in> set (ws_succeeded ?s) \<and> (j', f') \<notin> set (held ?s)"
    proof (cases "f' = f")
      case True
      with g(1) own have eq: "j' = j" by (simp add: owns_def)
      show ?thesis using ends g(3) not_held unfolding True eq by blast
    next
      case False
      with g(2) same(3,5) show ?thesis by (simp add: awaited_def)
    qed
  qed
qed

section \<open>Shutdown\<close>

lemma abandon_marked: "marked s j \<Longrightarrow> marked (abandon p s) j"
  by (auto simp: abandon_def split: prod.splits)

lemma abandon_owns [simp]: "owns (abandon p s) j f = owns s j f"
  by (simp add: owns_def abandon_frame)

lemma fold_abandon_marked: "marked s j \<Longrightarrow> marked (fold abandon ps s) j"
  by (induction ps arbitrary: s) (auto intro: abandon_marked)

lemma abandon_future:
  "ws_futures (abandon (j, f) s) ! f' = ws_futures s ! f'" if "f' \<noteq> f \<or> ws_futures s ! f' \<noteq> Pending"
  using that by (auto simp: abandon_def set_future_nth)

text \<open>After the fold a job whose future was pending is still awaited, or it is marked; it is marked for
  certain when it was among the abandoned ones.\<close>

lemma fold_abandon_marks:
  assumes "\<And>j' f'. (j', f') \<in> set ps \<Longrightarrow> owns s j' f'" and "owns s j f" and "mutating j"
    and "ws_futures s ! f = Pending"
  shows "marked (fold abandon ps s) j \<or> (j, f) \<notin> set ps \<and> ws_futures (fold abandon ps s) ! f = Pending"
  using assms
proof (induction ps arbitrary: s)
  case (Cons p ps)
  obtain j' f' where p: "p = (j', f')" by (rule prod.exhaust)
  show ?case
  proof (cases "f' = f")
    case True
    with Cons.prems(1,2) p have "j' = j" by (fastforce simp: owns_def)
    with True p Cons.prems(3,4) have "marked (abandon p s) j" by (simp add: abandon_def)
    then show ?thesis by (simp add: fold_abandon_marked)
  next
    case False
    have "marked (fold abandon ps (abandon p s)) j \<or>
        (j, f) \<notin> set ps \<and> ws_futures (fold abandon ps (abandon p s)) ! f = Pending"
      using Cons.prems False p by (intro Cons.IH) (auto simp: abandon_future)
    with False p show ?thesis by auto
  qed
qed simp

lemma kept_stop_begin:
  assumes kept: "inv_kept s" and inv: "ws_inv C s"
  shows "inv_kept (stop_begin s)"
proof -
  let ?s = "stop_begin s" and ?ps = "dict_values (ws_inflight s) @ ws_queue s"
  let ?f = "fold abandon ?ps (s\<lparr>ws_queue := []\<rparr>)"
  have same: "ws_futures ?s = ws_futures ?f" "\<And>j. marked ?s j = marked ?f j" "ws_jobs ?s = ws_jobs s"
    "ws_accepted ?s = ws_accepted s" "ws_waiting ?s = ws_waiting s" "ws_succeeded ?s = ws_succeeded s"
    "length (ws_futures ?s) = length (ws_futures s)" "set (held ?s) \<subseteq> set (held s)"
    by (simp_all add: stop_begin_frame) (simp_all add: stop_begin_def marked_def held_def)
  have mono: "marked ?s j" if "marked s j" for j
    unfolding same(2) by (rule fold_abandon_marked) (use that in \<open>simp add: marked_def\<close>)
  have own: "owns s j f" if "(j, f) \<in> set ?ps" for j f
  proof -
    from that consider "(j, f) \<in> set (ws_queue s)" | k where "(k, j, f) \<in> set (ws_inflight s)" by auto
    then show ?thesis
    proof cases
      case 1
      then show ?thesis by (intro held_owns [OF inv]) (simp add: held_def)
    next
      case 2
      with ws_invD(1) [OF inv] have "dict_get (ws_inflight s) k = Some (j, f)"
        by (simp add: inv_own_def map_of_eq_Some_iff)
      with ws_invD(1) [OF inv] show ?thesis unfolding inv_own_def by blast
    qed
  qed
  have pending: "marked ?s j \<or> (j, f) \<notin> set ?ps \<and> awaited ?s j f"
    if "owns s j f" "awaited s j f" "mutating j" for j f
    using fold_abandon_marks [of ?ps "s\<lparr>ws_queue := []\<rparr>" j f] own that
    by (auto simp: same awaited_def owns_def)
  show ?thesis
  proof (rule kept_step [OF kept _ same(4) mono])
    show "owns ?s j f" if "owns s j f" for j f using that same(3,7) by (simp add: owns_def)
    show "owns s j f" if "(j, f) \<in> set (held s)" for j f by (rule held_owns [OF inv that])
    fix j f assume h: "(j, f) \<in> set (held s)" "mutating j"
    have "(wj_idempotency_key j, j, f) \<in> set (ws_inflight s)"
      by (rule map_of_SomeD [OF held_inflight [OF ws_invD(2) [OF inv] h(1)]])
    then have "(j, f) \<in> set ?ps" by force
    with pending [OF held_owns [OF inv h(1)] _ h(2)] mono h kept
    show "j \<in> set (ws_succeeded ?s) \<or> marked ?s j \<or> awaited ?s j f" unfolding inv_kept_def by blast
  next
    show "set (held ?s) \<subseteq> set (held s)" by (rule same(8))
    show "awaited ?s j f \<or> marked ?s j \<or> j \<in> set (ws_succeeded ?s) \<and> (j, f) \<notin> set (held ?s)"
      if "owns s j f" "awaited s j f" "mutating j" for j f using pending [OF that] by blast
  qed (simp_all only: same(6) order_refl)
qed

lemma kept_cancelled:
  assumes kept: "inv_kept s" and inv: "ws_inv C s"
  shows "inv_kept (worker_cancelled i x s)"
proof (cases "i < length (ws_active s) \<and> ws_stopping s")
  case True
  let ?s = "worker_cancelled i x s"
  have same: "ws_futures ?s = ws_futures s" "ws_jobs ?s = ws_jobs s" "ws_accepted ?s = ws_accepted s"
    "\<And>j. marked ?s j = marked s j" "ws_succeeded ?s = ws_succeeded s" "ws_waiting ?s = ws_waiting s"
    using True by (simp_all add: worker_cancelled_def leave_def marked_def)
  have held: "set (held ?s) \<subseteq> set (held s)"
    using True by (auto simp: worker_cancelled_def leave_def held_def dest: in_set_takeD in_set_dropD)
  show ?thesis
  proof (rule kept_step [OF kept _ same(3)])
    show "j \<in> set (ws_succeeded ?s) \<or> marked ?s j \<or> awaited ?s j f" if "(j, f) \<in> set (held s)" "mutating j" for j f
      using kept that unfolding inv_kept_def same awaited_def by blast
    show "owns s j f" if "(j, f) \<in> set (held s)" for j f by (rule held_owns [OF inv that])
  qed (use held in \<open>simp_all add: owns_def awaited_def same\<close>)
qed (use kept in \<open>auto simp: worker_cancelled_def\<close>)

lemma kept_act:
  assumes "inv_kept s" and "ws_inv C s" and "\<not> is_cancel ev"
  shows "inv_kept (ws_step C ev s)"
proof -
  note facts = kept_quiet [OF assms(1)] kept_enter [OF assms(1,2)] kept_finish [OF assms(1,2)]
    kept_stop_begin [OF assms(1,2)] kept_cancelled [OF assms(1,2)] kept_resume [OF assms(1,2)] kept_timeout [OF assms(1,2)]
  have "inv_kept (ws_act C ev s)"
  proof (cases ev)
    case (Resume f)
    show ?thesis unfolding Resume by (rule facts)
  next
    case (Timeout f)
    show ?thesis unfolding Timeout by (rule facts)
  qed (use assms(3) in \<open>simp_all add: facts(1-10)\<close>)
  then show ?thesis unfolding ws_step_def by (rule kept_quiet(4))
qed

lemma reachable_kept:
  "reachable C (\<lambda>ev. \<not> is_cancel ev) (WorkerService t r clock x) s \<Longrightarrow> inv_kept s"
proof (induction rule: reachable.induct)
  case reach_init
  then show ?case by (simp add: inv_kept_def WorkerService_def held_def)
next
  case (reach_step s ev)
  show ?case by (rule kept_act [OF reach_step.IH reachable_inv [OF reach_step.hyps(1)] reach_step.hyps(2)])
qed

section \<open>Signatures\<close>

abbreviation ascii :: "string \<Rightarrow> bool" where
  "ascii s \<equiv> list_all (\<lambda>c. (of_char c :: nat) < 128) s"

lemma hexdigest_ascii: "ascii (hexdigest bs)"
proof (induction bs)
  case (Cons c bs)
  have "(of_char c :: nat) < 256" by (rule nat_of_char_less_256)
  then have "(of_char c :: nat) div 16 < 16" by linarith
  moreover have "(of_char (hex_char n) :: nat) < 128" if "n < 16" for n
    using that by (simp add: hex_char_def)
  ultimately show ?case using Cons.IH by (simp add: hexdigest_def Let_def)
qed (simp add: hexdigest_def)

lemma sign_job_ascii: "ascii (sign_job tfmt j secret)"
  by (simp add: sign_job_def hmac_sha256_hex_def sha256_hex_def Let_def hexdigest_ascii)

lemma sign_job_token [simp]: "sign_job tfmt (j\<lparr>wj_auth_token := t\<rparr>) secret = sign_job tfmt j secret"
  by (simp add: sign_job_def canonical_job_payload_def job_values_def)

lemma authenticate_iff:
  "authenticate C j = Inr () \<longleftrightarrow> wj_auth_token j = sign_job (wc_tfmt C) j (wc_shared_secret C)"
  using sign_job_ascii [of "wc_tfmt C" j "wc_shared_secret C"]
  by (auto simp: authenticate_def compare_digest_def)

lemma json_sort_fields:
  assumes "distinct (dict_keys d)" "distinct (dict_keys d')" "json_sort (JObj d) = json_sort (JObj d')"
  shows "map_option json_sort (dict_get d k) = map_option json_sort (dict_get d' k)"
  using json_sort_get [OF assms(1), of k] json_sort_get [OF assms(2), of k] assms(3) by simp

lemma canonical_job_payload_inj:
  assumes wf: "json_wf frepr (JObj (wj_arguments j))" "json_wf frepr (JObj (wj_arguments j'))"
    and eq: "canonical_job_payload tfmt j = canonical_job_payload tfmt j'" and tfmt: "inj tfmt"
  shows "json_sort (JObj (wj_arguments j)) = json_sort (JObj (wj_arguments j'))"
    and "j\<lparr>wj_arguments := [], wj_auth_token := []\<rparr> = j'\<lparr>wj_arguments := [], wj_auth_token := []\<rparr>"
proof -
  have dist: "distinct (dict_keys (job_values tfmt i))" for i by (simp add: job_values_def)
  have jwf: "json_wf frepr (JObj (job_values tfmt i))" if "json_wf frepr (JObj (wj_arguments i))" for i
    using that by (simp add: job_values_def)
  have "json_sort (JObj (job_values tfmt j)) = json_sort (JObj (job_values tfmt j'))"
    by (rule json_dumps_compact_inj [OF jwf [OF wf(1)] jwf [OF wf(2)] eq [unfolded canonical_job_payload_def]])
  note fields = json_sort_fields [OF dist dist this]
  show "json_sort (JObj (wj_arguments j)) = json_sort (JObj (wj_arguments j'))"
    using fields [of "''arguments''"] by (simp add: job_values_def)
  have "wj_job_id j = wj_job_id j'" using fields [of "''job_id''"] by (simp add: job_values_def)
  moreover have "wj_call_id j = wj_call_id j'" using fields [of "''call_id''"] by (simp add: job_values_def)
  moreover have "wj_tenant_id j = wj_tenant_id j'" using fields [of "''tenant_id''"] by (simp add: job_values_def)
  moreover have "wj_tool_name j = wj_tool_name j'" using fields [of "''tool_name''"] by (simp add: job_values_def)
  moreover have "wj_risk_class j = wj_risk_class j'"
    using fields [of "''risk_class''"] by (cases "wj_risk_class j"; cases "wj_risk_class j'") (simp_all add: job_values_def)
  moreover have "wj_idempotency_key j = wj_idempotency_key j'"
    using fields [of "''idempotency_key''"] by (simp add: job_values_def)
  moreover have "wj_submitted_at j = wj_submitted_at j'"
    using fields [of "''submitted_at''"] tfmt by (simp add: job_values_def inj_eq)
  ultimately show "j\<lparr>wj_arguments := [], wj_auth_token := []\<rparr> = j'\<lparr>wj_arguments := [], wj_auth_token := []\<rparr>"
    by simp
qed

section \<open>A service for the examples\<close>

text \<open>One mutating tool that appends its arguments to the outside world; the queue has one place.\<close>

definition note_tool :: "risk_class \<Rightarrow> jdict list tool_definition" where
  "note_tool risk = \<lparr>td_name = ''note'', td_description = ''note'', td_risk_class = risk,
     td_input_model = Inr, td_output_model = Inr, td_handler = (\<lambda>a x. (Inr a, a # x)), td_idempotent = False,
     td_input_schema = [], td_output_schema = []\<rparr>"

definition note_config :: "risk_class \<Rightarrow> jdict list worker_config" where
  "note_config risk = \<lparr>wc_registry = [(''note'', note_tool risk)], wc_shared_secret = ''s'', wc_max_concurrency = 1,
     wc_queue_size = 1, wc_tfmt = str_of_int\<rparr>"

definition note_job :: "risk_class \<Rightarrow> worker_job" where
  "note_job risk = (let j = \<lparr>wj_job_id = ''j'', wj_call_id = ''c'', wj_tenant_id = ''local'', wj_tool_name = ''note'',
       wj_risk_class = risk, wj_arguments = [(''body'', JStr ''x'')], wj_idempotency_key = ''c:note'',
       wj_submitted_at = 0, wj_auth_token = []\<rparr>
     in j\<lparr>wj_auth_token := sign_job (wc_tfmt (note_config risk)) j ''s''\<rparr>)"

abbreviation note_service :: "jdict list worker_service" where
  "note_service \<equiv> WorkerService 3 30 int []"

definition ws_run :: "'x worker_config \<Rightarrow> 'x ws_event list \<Rightarrow> 'x worker_service \<Rightarrow> 'x worker_service" where
  "ws_run C evs s = fold (ws_step C) evs s"

lemma reachable_run: "reachable C allowed s0 s \<Longrightarrow> list_all allowed evs \<Longrightarrow> reachable C allowed s0 (ws_run C evs s)"
  by (induction evs arbitrary: s) (auto simp: ws_run_def intro: reach_step)

lemma note_authentic [simp]: "authenticate (note_config risk) (note_job risk) = Inr ()"
  unfolding authenticate_iff
  by (simp add: note_job_def Let_def note_config_def sign_job_def canonical_job_payload_def job_values_def)

lemma note_fields [simp]:
  "wj_idempotency_key (note_job risk) = ''c:note''" "wj_risk_class (note_job risk) = risk"
  "wj_job_id (note_job risk) = ''j''" "wj_tool_name (note_job risk) = ''note''"
  "wj_arguments (note_job risk) = [(''body'', JStr ''x'')]"
  by (simp_all add: note_job_def Let_def)

lemma note_queue [simp]: "queue_full (note_config risk) s = (1 \<le> length (ws_queue s))"
  by (auto simp: queue_full_def note_config_def)

lemma note_run [simp]: "run_job (note_config risk) (note_job risk) x = (Inr [(''body'', JStr ''x'')], [(''body'', JStr ''x'')] # x)"
  by (simp add: run_job_def io_defs registry_validate_def registry_get_def registry_execute_validated_def
      td_validate_def td_execute_validated_def note_config_def note_tool_def)

lemma note_concurrency [simp]: "wc_max_concurrency (note_config risk) = 1"
  by (simp add: note_config_def)

lemma note_reachable:
  "list_all allowed evs \<Longrightarrow> reachable (note_config risk) allowed note_service (ws_run (note_config risk) evs note_service)"
  by (rule reachable_run [OF reach_init])

lemmas note_eval = ws_run_def ws_step_def WorkerService_def submit_enter_def enqueue_def allow_def is_open_def
  CircuitBreaker_def start_def worker_take_def worker_finish_def leave_def set_future_def succeeded_result_def
  tick_def stop_begin_def worker_cancelled_def abandon_def mark_uncertain_def Let_def

lemma note_success: "ws_succeeded (ws_run (note_config risk) [Start, Enter (note_job risk), Take, Finish 0] note_service) =
    [note_job risk]"
  by (simp add: note_eval)

section \<open>Properties\<close>

text \<open>C8: a worker job succeeds at most once per idempotency key.  In every interleaving of submissions,
  workers, timeouts, cancellations, shutdowns and restarts, no two successful executions have the same
  key, and a job that comes with the key of a success is never queued again.\<close>

theorem worker_success_at_most_once:
  assumes "reachable C allowed (WorkerService t r clock x) s"
  shows "distinct (map wj_idempotency_key (ws_succeeded s)) \<and>
    (\<forall>j j' f. j \<in> set (ws_succeeded s) \<and> wj_idempotency_key j' = wj_idempotency_key j \<longrightarrow>
       fst (submit_enter C j' s) \<noteq> Owner f)"
proof -
  have once: "inv_once s" by (rule ws_invD(3) [OF reachable_inv [OF assms]])
  have "fst (submit_enter C j' s) \<noteq> Owner f"
    if "j \<in> set (ws_succeeded s)" "wj_idempotency_key j' = wj_idempotency_key j" for j j' f
  proof -
    have "dict_get (ws_results s) (wj_idempotency_key j') \<noteq> None"
      using once that unfolding inv_once_def by simp
    then show ?thesis by (auto simp: submit_enter_def Let_def split: prod.splits sum.splits option.splits)
  qed
  with once show ?thesis unfolding inv_once_def by blast
qed

theorem worker_success_at_most_once_witness:
  "let s = ws_run (note_config DESTRUCTIVE) [Start, Enter (note_job DESTRUCTIVE), Take, Finish 0] note_service
   in ws_succeeded s = [note_job DESTRUCTIVE] \<and>
     fst (submit_enter (note_config DESTRUCTIVE) (note_job DESTRUCTIVE) s) \<noteq> Owner 1"
  using worker_success_at_most_once [OF note_reachable [of "\<lambda>ev. True"
    "[Start, Enter (note_job DESTRUCTIVE), Take, Finish 0]" DESTRUCTIVE]]
  by (simp add: note_success)

text \<open>C7: a mutation is never lost without a trace.  As long as no submitter is cancelled from outside,
  every job of a mutating tool that was accepted into the queue has succeeded, or has a reconciliation
  record, or is still queued or running, or its submitter is still waiting: failures, timeouts and
  shutdowns of the service all leave a record for review.\<close>

theorem mutations_are_accounted_for:
  assumes "reachable C (\<lambda>ev. \<not> is_cancel ev) (WorkerService t r clock x) s"
    and "(j, f) \<in> set (ws_accepted s)" and "wj_risk_class j \<noteq> READ_ONLY"
  shows "j \<in> set (ws_succeeded s) \<or> dict_get (ws_reconciliation s) (wj_job_id j) \<noteq> None \<or>
    (j, f) \<in> set (ws_queue s @ ws_active s) \<or> dict_get (ws_waiting s) f = Some j \<and> ws_futures s ! f = Pending"
  using reachable_kept [OF assms(1)] assms(2,3)
  unfolding inv_kept_def accounted_def marked_def awaited_def held_def by blast

lemma note_accepted:
  "ws_accepted (ws_run (note_config DESTRUCTIVE) [Start, Enter (note_job DESTRUCTIVE), Take, StopBegin, WorkerCancelled 0 [], StopEnd] note_service) =
    [(note_job DESTRUCTIVE, 0)]"
  "ws_succeeded (ws_run (note_config DESTRUCTIVE) [Start, Enter (note_job DESTRUCTIVE), Take, StopBegin, WorkerCancelled 0 [], StopEnd] note_service) = []"
  "ws_queue (ws_run (note_config DESTRUCTIVE) [Start, Enter (note_job DESTRUCTIVE), Take, StopBegin, WorkerCancelled 0 [], StopEnd] note_service) = []"
  "ws_active (ws_run (note_config DESTRUCTIVE) [Start, Enter (note_job DESTRUCTIVE), Take, StopBegin, WorkerCancelled 0 [], StopEnd] note_service) = []"
  "ws_futures (ws_run (note_config DESTRUCTIVE) [Start, Enter (note_job DESTRUCTIVE), Take, StopBegin, WorkerCancelled 0 [], StopEnd] note_service) ! 0 \<noteq> Pending"
  by (simp_all add: note_eval stop_end_def)

theorem mutations_are_accounted_for_witness:
  "dict_get (ws_reconciliation (ws_run (note_config DESTRUCTIVE)
     [Start, Enter (note_job DESTRUCTIVE), Take, StopBegin, WorkerCancelled 0 [], StopEnd] note_service)) ''j'' \<noteq> None"
  using mutations_are_accounted_for [OF note_reachable [of "\<lambda>ev. \<not> is_cancel ev"
    "[Start, Enter (note_job DESTRUCTIVE), Take, StopBegin, WorkerCancelled 0 [], StopEnd]" DESTRUCTIVE],
    of "note_job DESTRUCTIVE" 0] note_accepted
  by simp

text \<open>C31: the service stays within its limits: at most \<open>queue_size\<close> jobs wait (unless that is not
  positive, which means no limit), at most \<open>max(1, max_concurrency)\<close> run, and no two queued or running
  jobs have the same idempotency key.\<close>

theorem worker_pool_bounded:
  assumes "reachable C allowed (WorkerService t r clock x) s"
  shows "(0 < wc_queue_size C \<longrightarrow> int (length (ws_queue s)) \<le> wc_queue_size C) \<and>
    int (length (ws_active s)) \<le> max 1 (wc_max_concurrency C) \<and>
    distinct (map (\<lambda>(j, f). wj_idempotency_key j) (ws_queue s @ ws_active s))"
proof -
  note inv = reachable_inv [OF assms]
  have "distinct (held s)"
    using ws_invD(2) [OF inv] unfolding inv_held_def by (simp add: distinct_map)
  moreover have "inj_on (\<lambda>(j, f). wj_idempotency_key j) (set (held s))"
    using held_same_key [OF ws_invD(2) [OF inv]] by (auto intro!: inj_onI)
  ultimately have "distinct (map (\<lambda>(j, f). wj_idempotency_key j) (ws_queue s @ ws_active s))"
    unfolding held_def distinct_map by blast
  then show ?thesis using ws_invD(4) [OF inv] by (auto simp: inv_size_def)
qed

theorem worker_pool_bounded_witness:
  "int (length (ws_active (ws_run (note_config READ_ONLY) [Start, Enter (note_job READ_ONLY), Take] note_service))) \<le>
   max 1 (wc_max_concurrency (note_config READ_ONLY))"
  using worker_pool_bounded [OF note_reachable [of "\<lambda>ev. True" "[Start, Enter (note_job READ_ONLY), Take]" READ_ONLY]]
  by simp


lemma inj_str_of_int: "inj str_of_int"
proof (rule injI)
  fix x y assume "str_of_int x = str_of_int y"
  then have "scan_number id (str_of_int x) = scan_number id (str_of_int y)" by simp
  then show "x = y" unfolding scan_number_int by simp
qed


text \<open>A read-only call that timed out cannot be retried while its job is queued or running.  The
  end of the wait cancels the future, and the job stays in the table of jobs in flight; the retry, which
  comes with the same key, joins the cancelled future and is answered with \<open>CancelledError\<close>, which the
  retry loop does not catch.\<close>

theorem retry_after_timeout_is_cancelled:
  assumes "reachable C allowed (WorkerService t r clock x) s"
    and "(j, f) \<in> set (ws_queue s @ ws_active s)" and "ws_futures s ! f = Pending"
    and "s' = snd (submit_timeout f j s)" and "ws_started s'" and "\<not> is_open (ws_now s') (ws_breaker s')"
    and "wj_idempotency_key j' = wj_idempotency_key j" and "authenticate C j' = Inr ()"
  shows "\<exists>s''. submit_enter C j' s' = (Joined f, s'') \<and> joined_resume f s'' = Some (Inl CancelledExn)"
proof -
  note inv = reachable_inv [OF assms(1)]
  have jf: "(j, f) \<in> set (held s)" using assms(2) by (simp add: held_def)
  have same: "ws_results s' = ws_results s" "ws_inflight s' = ws_inflight s"
    by (simp_all add: assms(4) submit_timeout_def Let_def)
  have "f < length (ws_futures s)" using held_owns [OF inv jf] by (simp add: owns_def)
  then have cancelled: "ws_futures s' ! f = Cancelled"
    using assms(3) by (simp add: assms(4) submit_timeout_def Let_def set_future_nth)
  have "dict_get (ws_results s) (wj_idempotency_key j) = None"
    using ws_invD(3) [OF inv] jf unfolding inv_once_def by blast
  moreover have "dict_get (ws_inflight s) (wj_idempotency_key j) = Some (j, f)"
    by (rule held_inflight [OF ws_invD(2) [OF inv] jf])
  ultimately show ?thesis
    using assms(5-8) cancelled by (auto simp: submit_enter_def allow_def Let_def same joined_resume_def)
qed

lemma note_timeout:
  defines "s \<equiv> ws_run (note_config READ_ONLY) [Start, Enter (note_job READ_ONLY), Take] note_service"
  shows "ws_active s = [(note_job READ_ONLY, 0)]" "ws_futures s = [Pending]"
    "ws_started (snd (submit_timeout 0 (note_job READ_ONLY) s))"
    "\<not> is_open (ws_now (snd (submit_timeout 0 (note_job READ_ONLY) s)))
       (ws_breaker (snd (submit_timeout 0 (note_job READ_ONLY) s)))"
  by (simp_all add: s_def note_eval submit_timeout_def record_failure_def)

theorem retry_after_timeout_is_cancelled_witness:
  "let s = ws_run (note_config READ_ONLY) [Start, Enter (note_job READ_ONLY), Take] note_service in
   \<exists>s''. submit_enter (note_config READ_ONLY) (note_job READ_ONLY) (snd (submit_timeout 0 (note_job READ_ONLY) s)) =
       (Joined 0, s'') \<and> joined_resume 0 s'' = Some (Inl CancelledExn)"
  unfolding Let_def
  by (rule retry_after_timeout_is_cancelled [OF note_reachable [of "\<lambda>ev. True"] _ _ refl])
    (simp_all add: note_timeout)

end
