(* ===== verification/Worker_Clients.thy ===== *)
theory Worker_Clients
  imports Worker_Safety "HOL-Library.Monad_Syntax"
begin

text \<open>
  The gateway's side of the worker service: a whole \<open>submit\<close> under a schedule of the other tasks, the
  in-process client (\<open>gateway/workers/service.py\<close>), the HTTP client (\<open>gateway/workers/remote.py\<close>), the
  worker's HTTP endpoint (\<open>gateway/workers/http_server.py\<close>) and the proxy registry.
\<close>

section \<open>A submission from start to end\<close>

text \<open>
  \<open>sched\<close> lists the events of the other tasks while the submitter waits; \<open>Timeout f\<close> on its own future
  is the end of \<open>wait_for\<close>.  The value \<open>None\<close> says that the submitter is still waiting at the end of
  the schedule.
\<close>

fun owner_wait :: "'x worker_config \<Rightarrow> nat \<Rightarrow> worker_job \<Rightarrow> 'x ws_event list \<Rightarrow> 'x worker_service \<Rightarrow>
    ((exn + worker_result) \<times> 'x worker_service) option" where
  "owner_wait C f j [] s = map_option (apsnd tick) (owner_resume f s)"
| "owner_wait C f j (ev # evs) s = (case ev of
       Timeout f' \<Rightarrow> if f' = f \<and> ws_futures s ! f = Pending
         then Some (map_prod Inl tick (submit_timeout f j s))
         else owner_wait C f j evs (ws_step C ev s)
     | _ \<Rightarrow> owner_wait C f j evs (ws_step C ev s))"

fun joined_wait :: "'x worker_config \<Rightarrow> nat \<Rightarrow> 'x ws_event list \<Rightarrow> 'x worker_service \<Rightarrow>
    ((exn + worker_result) \<times> 'x worker_service) option" where
  "joined_wait C f [] s = map_option (\<lambda>r. (r, tick s)) (joined_resume f s)"
| "joined_wait C f (ev # evs) s = joined_wait C f evs (ws_step C ev s)"

definition submit :: "'x worker_config \<Rightarrow> 'x ws_event list \<Rightarrow> worker_job \<Rightarrow> 'x worker_service \<Rightarrow>
    ((exn + worker_result) \<times> 'x worker_service) option" where
  "submit C sched j s = (case submit_enter C j s of
       (Refused x, s') \<Rightarrow> Some (Inl x, tick s')
     | (Completed r, s') \<Rightarrow> Some (Inr r, tick s')
     | (Owner f, s') \<Rightarrow> owner_wait C f j sched (tick s')
     | (Joined f, s') \<Rightarrow> joined_wait C f sched (tick s'))"

section \<open>Clients\<close>

text \<open>The arguments of \<open>WorkerClient.execute\<close>, and what the client adds to them: a fresh identifier
  and the time.\<close>

record worker_request =
  wq_tool_name :: string
  wq_arguments :: jdict
  wq_risk_class :: risk_class
  wq_call_id :: string
  wq_tenant_id :: string
  wq_idempotency_key :: "string option"

definition client_job :: "(timestamp \<Rightarrow> string) \<Rightarrow> string \<Rightarrow> string \<Rightarrow> timestamp \<Rightarrow> worker_request \<Rightarrow> worker_job" where
  "client_job tfmt secret job_id now q =
     (let j = \<lparr>wj_job_id = job_id, wj_call_id = wq_call_id q, wj_tenant_id = wq_tenant_id q,
         wj_tool_name = wq_tool_name q, wj_risk_class = wq_risk_class q, wj_arguments = wq_arguments q,
         wj_idempotency_key = or_text (wq_idempotency_key q) (wq_call_id q @ '':'' @ wq_tool_name q),
         wj_submitted_at = now, wj_auth_token = []\<rparr>
      in j\<lparr>wj_auth_token := sign_job tfmt j secret\<rparr>)"

definition job_output :: "worker_result \<Rightarrow> exn + jdict" where
  "job_output r = (case wr_output r of
       None \<Rightarrow> Inl (GatewayExn (ToolExecutionError
         (or_text (wr_error_message r) ''Execution worker returned no output'')))
     | Some output \<Rightarrow> Inr output)"

definition in_process_execute :: "'x worker_config \<Rightarrow> string \<Rightarrow> 'x ws_event list \<Rightarrow> string \<Rightarrow> timestamp \<Rightarrow>
    worker_request \<Rightarrow> 'x worker_service \<Rightarrow> ((exn + jdict) \<times> 'x worker_service) option" where
  "in_process_execute C secret sched job_id now q s =
     map_option (\<lambda>(r, s'). (case r of Inl x \<Rightarrow> Inl x | Inr res \<Rightarrow> job_output res, s'))
       (submit C sched (client_job (wc_tfmt C) secret job_id now q) s)"

section \<open>Messages\<close>

text \<open>
  \<open>model_dump(mode="json")\<close> and \<open>model_validate_json\<close> of the job and result models, which forbid other
  fields and do not convert types.  \<open>tparse\<close> reads a timestamp.
\<close>

definition text_field :: "jdict \<Rightarrow> string \<Rightarrow> string option" where
  "text_field d k = (case dict_get d k of Some (JStr s) \<Rightarrow> Some s | _ \<Rightarrow> None)"

definition optional_text :: "jdict \<Rightarrow> string \<Rightarrow> string option option" where
  "optional_text d k = (case dict_get d k of
       None \<Rightarrow> Some None | Some JNull \<Rightarrow> Some None | Some (JStr s) \<Rightarrow> Some (Some s) | _ \<Rightarrow> None)"

definition object_field :: "jdict \<Rightarrow> string \<Rightarrow> jdict option" where
  "object_field d k = (case dict_get d k of Some (JObj v) \<Rightarrow> Some v | _ \<Rightarrow> None)"

definition optional_object :: "jdict \<Rightarrow> string \<Rightarrow> jdict option option" where
  "optional_object d k = (case dict_get d k of
       None \<Rightarrow> Some None | Some JNull \<Rightarrow> Some None | Some (JObj v) \<Rightarrow> Some (Some v) | _ \<Rightarrow> None)"

definition only_fields :: "string list \<Rightarrow> jdict \<Rightarrow> bool" where
  "only_fields ks d = list_all (\<lambda>(k, v). k \<in> set ks) d"

definition risk_of_value :: "string \<Rightarrow> risk_class option" where
  "risk_of_value v = find (\<lambda>r. risk_value r = v) [READ_ONLY, MUTATING, DESTRUCTIVE]"

definition decode_job :: "(string \<Rightarrow> timestamp option) \<Rightarrow> jdict \<Rightarrow> worker_job option" where
  "decode_job tparse d =
     (if \<not> only_fields [''job_id'', ''call_id'', ''tenant_id'', ''tool_name'', ''risk_class'', ''arguments'',
           ''idempotency_key'', ''submitted_at'', ''auth_token''] d then None
      else do {
        i \<leftarrow> text_field d ''job_id''; c \<leftarrow> text_field d ''call_id''; t \<leftarrow> text_field d ''tenant_id'';
        n \<leftarrow> text_field d ''tool_name''; rv \<leftarrow> text_field d ''risk_class''; r \<leftarrow> risk_of_value rv;
        a \<leftarrow> object_field d ''arguments''; k \<leftarrow> text_field d ''idempotency_key'';
        stamp \<leftarrow> text_field d ''submitted_at''; time \<leftarrow> tparse stamp; token \<leftarrow> text_field d ''auth_token'';
        Some \<lparr>wj_job_id = i, wj_call_id = c, wj_tenant_id = t, wj_tool_name = n, wj_risk_class = r,
          wj_arguments = a, wj_idempotency_key = k, wj_submitted_at = time, wj_auth_token = token\<rparr> })"

definition decode_result :: "(string \<Rightarrow> timestamp option) \<Rightarrow> json option \<Rightarrow> worker_result option" where
  "decode_result tparse body = (case body of
       Some (JObj d) \<Rightarrow> if \<not> only_fields [''job_id'', ''outcome'', ''output'', ''error_code'', ''error_message'', ''completed_at''] d
         then None
         else do {
           i \<leftarrow> text_field d ''job_id''; out \<leftarrow> text_field d ''outcome''; v \<leftarrow> optional_object d ''output'';
           c \<leftarrow> optional_text d ''error_code''; m \<leftarrow> optional_text d ''error_message'';
           stamp \<leftarrow> text_field d ''completed_at''; time \<leftarrow> tparse stamp;
           Some \<lparr>wr_job_id = i, wr_outcome = out, wr_output = v, wr_error_code = c, wr_error_message = m,
             wr_completed_at = time\<rparr> }
     | _ \<Rightarrow> None)"

definition dump_job :: "(timestamp \<Rightarrow> string) \<Rightarrow> worker_job \<Rightarrow> jdict" where
  "dump_job tfmt j = job_values tfmt j @ [(''auth_token'', JStr (wj_auth_token j))]"

definition dump_result :: "(timestamp \<Rightarrow> string) \<Rightarrow> worker_result \<Rightarrow> jdict" where
  "dump_result tfmt r = [(''job_id'', JStr (wr_job_id r)), (''outcome'', JStr (wr_outcome r)),
     (''output'', case wr_output r of None \<Rightarrow> JNull | Some d \<Rightarrow> JObj d),
     (''error_code'', case wr_error_code r of None \<Rightarrow> JNull | Some c \<Rightarrow> JStr c),
     (''error_message'', case wr_error_message r of None \<Rightarrow> JNull | Some m \<Rightarrow> JStr m),
     (''completed_at'', JStr (tfmt (wr_completed_at r)))]"

text \<open>\<open>RemoteWorkerClient.execute\<close>\<close>

definition remote_result :: "(string \<Rightarrow> timestamp option) \<Rightarrow> risk_class \<Rightarrow> http_result \<Rightarrow> exn + jdict" where
  "remote_result tparse risk h = (case h of
       HttpError \<Rightarrow> Inl (GatewayExn (if risk \<noteq> READ_ONLY
         then NeedsReviewError ''Worker transport failed; mutation outcome requires review''
         else ToolExecutionError ''Execution worker is unavailable''))
     | HttpResponse status body \<Rightarrow>
         if 400 \<le> status
         then Inl (GatewayExn (ToolExecutionError (''Execution worker returned HTTP '' @ str_of_int status)))
         else (case decode_result tparse body of
             None \<Rightarrow> Inl (GatewayExn (ToolExecutionError ''Execution worker returned invalid JSON''))
           | Some r \<Rightarrow>
               if wr_outcome r \<noteq> ''succeeded''
               then Inl (GatewayExn (if wr_error_code r = Some ''needs_review''
                 then NeedsReviewError (or_text (wr_error_message r) ''Worker outcome requires review'')
                 else ToolExecutionError (or_text (wr_error_message r) ''Execution worker failed'')))
               else (case wr_output r of
                   None \<Rightarrow> Inl (GatewayExn (ToolExecutionError ''Execution worker returned no output''))
                 | Some output \<Rightarrow> Inr output)))"

definition remote_execute :: "(string \<Rightarrow> jdict \<Rightarrow> 'w \<Rightarrow> http_result \<times> 'w) \<Rightarrow> (string \<Rightarrow> timestamp option) \<Rightarrow>
    (timestamp \<Rightarrow> string) \<Rightarrow> string \<Rightarrow> string \<Rightarrow> string \<Rightarrow> timestamp \<Rightarrow> worker_request \<Rightarrow> ('w, jdict) aio" where
  "remote_execute post tparse tfmt base_url secret job_id now q w =
     (case post (rstrip_slash base_url @ ''/jobs'') (dump_job tfmt (client_job tfmt secret job_id now q)) w of
        (h, w') \<Rightarrow> (remote_result tparse (wq_risk_class q) h, w'))"

definition remote_healthcheck :: "(string \<Rightarrow> 'w \<Rightarrow> http_result \<times> 'w) \<Rightarrow> string \<Rightarrow> 'w \<Rightarrow> bool \<times> 'w" where
  "remote_healthcheck get base_url w = (case get (rstrip_slash base_url @ ''/readyz'') w of
       (HttpError, w') \<Rightarrow> (False, w')
     | (HttpResponse status body, w') \<Rightarrow> (status = 200, w'))"

section \<open>The worker's HTTP endpoint\<close>

definition health_payload :: "string \<Rightarrow> string \<Rightarrow> http_result" where
  "health_payload version status = HttpResponse (if status = ''ok'' then 200 else 503)
     (Some (JObj [(''status'', JStr status), (''version'', JStr version)]))"

definition readyz :: "string \<Rightarrow> 'x worker_service \<Rightarrow> http_result" where
  "readyz version s = health_payload version (if worker_healthcheck s then ''ok'' else ''unready'')"

definition gateway_error_result :: "(timestamp \<Rightarrow> string) \<Rightarrow> worker_job \<Rightarrow> gateway_error \<Rightarrow> timestamp \<Rightarrow> http_result" where
  "gateway_error_result tfmt j e now =
     HttpResponse (if error_message e = ''Worker authentication failed'' then 401 else 200)
       (Some (JObj (dump_result tfmt \<lparr>wr_job_id = wj_job_id j, wr_outcome = ''failed'', wr_output = None,
          wr_error_code = Some (error_code e), wr_error_message = Some (error_message e), wr_completed_at = now\<rparr>)))"

text \<open>An exception that is not a \<open>GatewayError\<close> leaves the handler.\<close>

definition submit_job :: "'x worker_config \<Rightarrow> (string \<Rightarrow> timestamp option) \<Rightarrow> 'x ws_event list \<Rightarrow> jdict \<Rightarrow>
    'x worker_service \<Rightarrow> ((exn + http_result) \<times> 'x worker_service) option" where
  "submit_job C tparse sched body s = (case decode_job tparse body of
       None \<Rightarrow> Some (Inr (HttpResponse 422 (Some (JObj [(''error'', JStr ''invalid worker job'')]))), s)
     | Some j \<Rightarrow> (case (case authenticate C j of Inl x \<Rightarrow> Some (Inl x, s) | Inr u \<Rightarrow> submit C sched j s) of
           None \<Rightarrow> None
         | Some (Inl (GatewayExn e), s') \<Rightarrow> Some (Inr (gateway_error_result (wc_tfmt C) j e (ws_now s')), s')
         | Some (Inl x, s') \<Rightarrow> Some (Inl x, s')
         | Some (Inr r, s') \<Rightarrow> Some (Inr (HttpResponse 200 (Some (JObj (dump_result (wc_tfmt C) r)))), s')))"

text \<open>The routes of \<open>create_worker_app\<close>.  What FastAPI itself answers to every other method and path
  (its documentation pages, 404, 405) is \<open>elsewhere\<close>.\<close>

definition livez :: "string \<Rightarrow> http_result" where
  "livez version = health_payload version ''ok''"

definition startupz :: "string \<Rightarrow> http_result" where
  "startupz version = health_payload version ''ok''"

definition worker_route :: "'x worker_config \<Rightarrow> (string \<Rightarrow> timestamp option) \<Rightarrow> string \<Rightarrow> (string \<Rightarrow> string \<Rightarrow> http_result) \<Rightarrow>
    'x ws_event list \<Rightarrow> string \<Rightarrow> string \<Rightarrow> jdict \<Rightarrow> 'x worker_service \<Rightarrow> ((exn + http_result) \<times> 'x worker_service) option" where
  "worker_route C tparse version elsewhere sched verb path body s =
     (if verb = ''GET'' \<and> path = ''/livez'' then Some (Inr (livez version), s)
      else if verb = ''GET'' \<and> path = ''/readyz'' then Some (Inr (readyz version s), s)
      else if verb = ''GET'' \<and> path = ''/startupz'' then Some (Inr (startupz version), s)
      else if verb = ''POST'' \<and> path = ''/jobs'' then submit_job C tparse sched body s
      else Some (Inr (elsewhere verb path), s))"

section \<open>The proxy registry\<close>

text \<open>\<open>context\<close> reads the worker context variable, \<open>fresh\<close> is \<open>uuid4().hex\<close>.\<close>

type_synonym 'x worker_client = "worker_request \<Rightarrow> ('x, jdict) aio"

definition proxy_handler :: "('x \<Rightarrow> (string \<times> string) option) \<Rightarrow> ('x, string) aio \<Rightarrow> 'x worker_client \<Rightarrow>
    string \<Rightarrow> risk_class \<Rightarrow> jdict \<Rightarrow> ('x, jdict) aio" where
  "proxy_handler worker_context fresh client name risk request =
     bind_io (gets_io worker_context) (\<lambda>ctx.
       case ctx of
         Some (call_id, tenant_id) \<Rightarrow> client \<lparr>wq_tool_name = name, wq_arguments = request,
           wq_risk_class = risk, wq_call_id = call_id, wq_tenant_id = tenant_id,
           wq_idempotency_key = Some (call_id @ '':'' @ name)\<rparr>
       | None \<Rightarrow> bind_io fresh (\<lambda>call_id. client \<lparr>wq_tool_name = name, wq_arguments = request,
           wq_risk_class = risk, wq_call_id = call_id, wq_tenant_id = ''worker-proxy'',
           wq_idempotency_key = Some (arguments_key name request)\<rparr>))"

definition proxy_definition :: "('x \<Rightarrow> (string \<times> string) option) \<Rightarrow> ('x, string) aio \<Rightarrow> 'x worker_client \<Rightarrow>
    'y tool_definition \<Rightarrow> 'x tool_definition" where
  "proxy_definition worker_context fresh client d = \<lparr>td_name = td_name d, td_description = td_description d,
     td_risk_class = td_risk_class d, td_input_model = td_input_model d, td_output_model = td_output_model d,
     td_handler = proxy_handler worker_context fresh client (td_name d) (td_risk_class d),
     td_idempotent = td_idempotent d, td_input_schema = td_input_schema d, td_output_schema = td_output_schema d\<rparr>"

fun register_all :: "'x tool_definition list \<Rightarrow> 'x tool_registry \<Rightarrow> exn + 'x tool_registry" where
  "register_all [] reg = Inr reg"
| "register_all (d # ds) reg = (case register d reg of Inl x \<Rightarrow> Inl x | Inr reg' \<Rightarrow> register_all ds reg')"

definition create_worker_proxy_registry :: "('x \<Rightarrow> (string \<times> string) option) \<Rightarrow> ('x, string) aio \<Rightarrow>
    'x worker_client \<Rightarrow> 'y tool_registry \<Rightarrow> exn + 'x tool_registry" where
  "create_worker_proxy_registry worker_context fresh client source =
     register_all (map (proxy_definition worker_context fresh client) (list_tools source)) empty_registry"

section \<open>The contract of a worker client\<close>

text \<open>What the gateway sees of the outcome of a job.\<close>

definition exn_code :: "exn \<Rightarrow> string" where
  "exn_code x = (case x of GatewayExn e \<Rightarrow> error_code e | _ \<Rightarrow> ''worker_error'')"

definition client_view :: "exn + jdict \<Rightarrow> exn + jdict" where
  "client_view r = (case r of
       Inr output \<Rightarrow> Inr output
     | Inl x \<Rightarrow> Inl (GatewayExn (if exn_code x = ''needs_review''
         then NeedsReviewError (or_text (Some (exn_str x)) ''Worker outcome requires review'')
         else ToolExecutionError (or_text (Some (exn_str x)) ''Execution worker failed''))))"

text \<open>
  \<open>execute\<close> runs a request on a worker that is \<open>ready\<close> for it exactly as the worker's own registry would
  run it: the same effect on the outside world, the same output, and its failures as gateway errors.
\<close>

locale worker_client =
  fixes execute :: "worker_request \<Rightarrow> 'w \<Rightarrow> ((exn + jdict) \<times> 'w) option"
    and ready :: "worker_request \<Rightarrow> 'w \<Rightarrow> bool"
    and outside :: "'w \<Rightarrow> 'x"
    and reg :: "'x tool_registry"
  assumes runs: "ready q w \<Longrightarrow> registry_execute reg (wq_tool_name q) (wq_arguments q) (outside w) = (r, x) \<Longrightarrow>
      r \<noteq> Inl CancelledExn \<Longrightarrow> \<exists>w'. execute q w = Some (client_view r, w') \<and> outside w' = x"
begin

lemma execute_returns:
  assumes "ready q w" and "fst (registry_execute reg (wq_tool_name q) (wq_arguments q) (outside w)) \<noteq> Inl CancelledExn"
  shows "map_option (map_prod id outside) (execute q w) =
    Some (map_prod client_view id (registry_execute reg (wq_tool_name q) (wq_arguments q) (outside w)))"
  using runs [OF assms(1), of "fst (registry_execute reg (wq_tool_name q) (wq_arguments q) (outside w))"] assms(2)
  by (cases "registry_execute reg (wq_tool_name q) (wq_arguments q) (outside w)") auto

lemma execute_error:
  assumes "ready q w" and "execute q w = Some (Inl x, w')"
    and "fst (registry_execute reg (wq_tool_name q) (wq_arguments q) (outside w)) \<noteq> Inl CancelledExn"
  shows "\<exists>m. m \<noteq> [] \<and> (x = GatewayExn (ToolExecutionError m) \<or> x = GatewayExn (NeedsReviewError m))"
  using execute_returns [OF assms(1,3)] assms(2)
  by (cases "registry_execute reg (wq_tool_name q) (wq_arguments q) (outside w)")
    (auto simp: client_view_def or_text_def split: sum.splits)

end

text \<open>An idle service: no job queued or running, and none with the key of this request known.\<close>

definition idle :: "worker_job \<Rightarrow> 'x worker_service \<Rightarrow> bool" where
  "idle j s = (ws_started s \<and> \<not> ws_stopping s \<and> \<not> is_open (ws_now s) (ws_breaker s) \<and> ws_queue s = [] \<and> ws_active s = [] \<and>
     0 < ws_workers s \<and> dict_get (ws_results s) (wj_idempotency_key j) = None \<and>
     dict_get (ws_inflight s) (wj_idempotency_key j) = None)"

lemma client_job_authentic [simp]: "authenticate C (client_job (wc_tfmt C) (wc_shared_secret C) i now q) = Inr ()"
  unfolding authenticate_iff by (simp add: client_job_def Let_def sign_job_def canonical_job_payload_def job_values_def)

lemma client_job_fields [simp]:
  "wj_tool_name (client_job tfmt secret i now q) = wq_tool_name q"
  "wj_arguments (client_job tfmt secret i now q) = wq_arguments q"
  "wj_risk_class (client_job tfmt secret i now q) = wq_risk_class q"
  by (simp_all add: client_job_def Let_def)

lemma run_job_execute: "run_job C j = registry_execute (wc_registry C) (wj_tool_name j) (wj_arguments j)"
  by (simp add: run_job_def registry_execute_split)

lemma idle_enter:
  assumes "idle j s" and "authenticate C j = Inr ()"
  obtains s' f where "submit_enter C j s = (Owner f, s')" "ws_queue s' = [(j, f)]" "ws_active s' = []"
    "0 < ws_workers s'" "ws_outside s' = ws_outside s" "\<not> ws_stopping s'" "f < length (ws_futures s')" "ws_futures s' ! f = Pending"
proof -
  obtain b where "allow (ws_now s) (ws_breaker s) = (Inr (), b)"
    using assms(1) by (cases "cb_opened_at (ws_breaker s)") (auto simp: idle_def allow_def)
  with assms have "submit_enter C j s = enqueue C j (s\<lparr>ws_breaker := b\<rparr>)"
    by (simp add: submit_enter_def idle_def Let_def)
  moreover have "\<not> queue_full C (s\<lparr>ws_breaker := b\<rparr>)" using assms(1) by (simp add: idle_def queue_full_def)
  ultimately have enter: "submit_enter C j s = (Owner (length (ws_futures s)), snd (enqueue C j (s\<lparr>ws_breaker := b\<rparr>)))"
    and "snd (enqueue C j (s\<lparr>ws_breaker := b\<rparr>)) = s\<lparr>ws_breaker := b, ws_futures := ws_futures s @ [Pending],
      ws_jobs := ws_jobs s @ [j], ws_inflight := dict_set (wj_idempotency_key j) (j, length (ws_futures s)) (ws_inflight s),
      ws_queue := ws_queue s @ [(j, length (ws_futures s))], ws_waiting := dict_set (length (ws_futures s)) j (ws_waiting s),
      ws_accepted := (j, length (ws_futures s)) # ws_accepted s\<rparr>"
    by (simp_all add: enqueue_def Let_def)
  then show thesis
    using assms(1) by (intro that [OF enter]) (simp_all add: idle_def)
qed

lemma owner_result_view:
  "wr_outcome r = ''succeeded'' \<Longrightarrow> fst (owner_result r s) = Inr r"
  "fst (owner_result (failed_result j x t) s) = Inl (projl (client_view (Inl x)))"
  "ws_outside (snd (owner_result r s)) = ws_outside s"
  by (simp_all add: owner_result_def failed_result_def client_view_def exn_code_def)

lemma alone_runs:
  assumes "idle j s" and "authenticate C j = Inr ()" and "run_job C j (ws_outside s) = (r, x)" and "r \<noteq> Inl CancelledExn"
  shows "\<exists>s' t. ws_outside s' = x \<and> submit C [Take, Finish 0] j s =
    Some (map_sum id (\<lambda>output. succeeded_result j output t) (client_view r), s')"
proof -
  from idle_enter [OF assms(1,2)] obtain s1 f where enter: "submit_enter C j s = (Owner f, s1)"
    and s1: "ws_queue s1 = [(j, f)]" "ws_active s1 = []" "0 < ws_workers s1" "ws_outside s1 = ws_outside s"
      "\<not> ws_stopping s1" "f < length (ws_futures s1)" "ws_futures s1 ! f = Pending" by metis
  let ?s2 = "ws_step C Take (tick s1)" and ?s3 = "ws_step C (Finish 0) (ws_step C Take (tick s1))"
  have s2: "ws_active ?s2 = [(j, f)]" "ws_outside ?s2 = ws_outside s" "ws_futures ?s2 = ws_futures s1" "\<not> ws_stopping ?s2"
    using s1 by (simp_all add: ws_step_def worker_take_def tick_def)
  define t where "t = ws_now ?s2"
  have "ws_outside ?s3 = x"
    using s2 s1 assms(3,4) by (cases r; cases "projl r") (auto simp: ws_step_def worker_finish_def tick_def leave_def Let_def)
  moreover have "ws_futures ?s3 ! f = Resolved (case r of Inr output \<Rightarrow> succeeded_result j output t | Inl e \<Rightarrow> failed_result j e t)"
    using s2 s1 assms(3,4) by (cases r; cases "projl r") (auto simp: ws_step_def worker_finish_def tick_def leave_def Let_def
        set_future_nth t_def)
  moreover define res where "res = (case r of Inr output \<Rightarrow> succeeded_result j output t | Inl e \<Rightarrow> failed_result j e t)"
  ultimately have "owner_resume f ?s3 = Some (owner_result res (?s3\<lparr>ws_waiting := dict_del f (ws_waiting ?s3)\<rparr>))"
    by (simp add: owner_resume_def Let_def)
  then have "submit C [Take, Finish 0] j s = Some (apsnd tick (owner_result res (?s3\<lparr>ws_waiting := dict_del f (ws_waiting ?s3)\<rparr>)))"
    using enter by (simp add: submit_def)
  moreover have "fst (owner_result res s0) = map_sum id (\<lambda>output. succeeded_result j output t) (client_view r)" for s0
    by (cases r) (simp_all add: res_def owner_result_view client_view_def succeeded_result_def)
  ultimately show ?thesis using \<open>ws_outside ?s3 = x\<close>
    by (intro exI [of _ "tick (snd (owner_result res (?s3\<lparr>ws_waiting := dict_del f (ws_waiting ?s3)\<rparr>)))"] exI [of _ t])
      (simp add: apsnd_def map_prod_def case_prod_unfold tick_def owner_result_view)
qed

section \<open>The clients keep the contract\<close>

text \<open>Each client with one worker that takes and finishes the job while the submitter waits.\<close>

definition idle_for :: "(timestamp \<Rightarrow> string) \<Rightarrow> string \<Rightarrow> worker_request \<Rightarrow> 'x worker_service \<Rightarrow> bool" where
  "idle_for tfmt secret q s = idle (client_job tfmt secret [] 0 q) s"

lemma idle_client_job: "idle_for tfmt secret q s \<Longrightarrow> idle (client_job tfmt secret i now q) s"
  by (simp add: idle_for_def idle_def client_job_def Let_def)

lemma idle_healthy: "idle_for tfmt secret q s \<Longrightarrow> worker_healthcheck s"
  by (simp add: idle_for_def idle_def worker_healthcheck_def)

interpretation in_process: worker_client "in_process_execute C (wc_shared_secret C) [Take, Finish 0] job_id now"
  "idle_for (wc_tfmt C) (wc_shared_secret C)" ws_outside "wc_registry C"
proof unfold_locales
  fix q w r x
  let ?j = "client_job (wc_tfmt C) (wc_shared_secret C) job_id now q"
  assume "idle_for (wc_tfmt C) (wc_shared_secret C) q w" and "r \<noteq> Inl CancelledExn"
    and "registry_execute (wc_registry C) (wq_tool_name q) (wq_arguments q) (ws_outside w) = (r, x)"
  then obtain s' t where "ws_outside s' = x" "submit C [Take, Finish 0] ?j w =
      Some (map_sum id (\<lambda>output. succeeded_result ?j output t) (client_view r), s')"
    using alone_runs [OF idle_client_job client_job_authentic, of C q w job_id now r x] by (auto simp: run_job_execute)
  then show "\<exists>w'. in_process_execute C (wc_shared_secret C) [Take, Finish 0] job_id now q w =
      Some (client_view r, w') \<and> ws_outside w' = x"
    by (cases "client_view r") (auto simp: in_process_execute_def job_output_def succeeded_result_def)
qed

text \<open>A transport that delivers to the worker's application.  Its answer is the application's; a submission
  that does not return, or an exception that leaves the handler, is a transport error.\<close>

definition direct_send :: "'x worker_config \<Rightarrow> (string \<Rightarrow> timestamp option) \<Rightarrow> string \<Rightarrow> (string \<Rightarrow> string \<Rightarrow> http_result) \<Rightarrow>
    string \<Rightarrow> 'x ws_event list \<Rightarrow> string \<Rightarrow> string \<Rightarrow> jdict \<Rightarrow> 'x worker_service \<Rightarrow> http_result \<times> 'x worker_service" where
  "direct_send C tparse version elsewhere base_url sched verb url body s =
     (case worker_route C tparse version elsewhere sched verb (drop (length (rstrip_slash base_url)) url) body s of
       Some (Inr h, s') \<Rightarrow> (h, s')
     | Some (Inl x, s') \<Rightarrow> (HttpError, s')
     | None \<Rightarrow> (HttpError, s))"

lemma direct_post_job:
  "direct_send C tparse version elsewhere base_url sched ''POST'' (rstrip_slash base_url @ ''/jobs'') body s =
     (case submit_job C tparse sched body s of
       Some (Inr h, s') \<Rightarrow> (h, s') | Some (Inl x, s') \<Rightarrow> (HttpError, s') | None \<Rightarrow> (HttpError, s))"
  by (simp add: direct_send_def worker_route_def)

text \<open>The gateway sees the worker as healthy exactly if the worker does.\<close>

lemma remote_health:
  "remote_healthcheck (\<lambda>url. direct_send C tparse version elsewhere base_url sched ''GET'' url []) base_url s =
     (worker_healthcheck s, s)"
  by (simp add: remote_healthcheck_def direct_send_def worker_route_def readyz_def health_payload_def)

lemma job_codec: "(\<And>t. tparse (tfmt t) = Some t) \<Longrightarrow> decode_job tparse (dump_job tfmt j) = Some j"
  by (cases "wj_risk_class j")
    (simp_all add: decode_job_def dump_job_def job_values_def only_fields_def text_field_def object_field_def risk_of_value_def)

lemma result_codec: "(\<And>t. tparse (tfmt t) = Some t) \<Longrightarrow> decode_result tparse (Some (JObj (dump_result tfmt r))) = Some r"
  by (auto simp: decode_result_def dump_result_def only_fields_def text_field_def optional_text_def optional_object_def
      split: option.splits)

lemma client_view_error:
  "client_view r = Inl x \<Longrightarrow> \<exists>m. m \<noteq> [] \<and> (x = GatewayExn (ToolExecutionError m) \<or> x = GatewayExn (NeedsReviewError m))"
  by (auto simp: client_view_def or_text_def split: sum.splits if_splits)

lemma remote_runs:
  assumes times: "\<And>t. tparse (wc_tfmt C t) = Some t"
    and ready: "idle_for (wc_tfmt C) (wc_shared_secret C) q w" and r: "r \<noteq> Inl CancelledExn"
    and run: "registry_execute (wc_registry C) (wq_tool_name q) (wq_arguments q) (ws_outside w) = (r, x)"
    and honest: "\<And>e. r = Inl e \<Longrightarrow> exn_str e \<noteq> ''Worker authentication failed''"
  shows "\<exists>w'. remote_execute (direct_send C tparse version elsewhere base_url [Take, Finish 0] ''POST'') tparse (wc_tfmt C) base_url
      (wc_shared_secret C) job_id now q w = (client_view r, w') \<and> ws_outside w' = x"
proof -
  let ?j = "client_job (wc_tfmt C) (wc_shared_secret C) job_id now q"
  obtain s' t where s': "ws_outside s' = x" and sub: "submit C [Take, Finish 0] ?j w =
      Some (map_sum id (\<lambda>output. succeeded_result ?j output t) (client_view r), s')"
    using alone_runs [OF idle_client_job client_job_authentic, of C q w job_id now r x] ready r run
    by (auto simp: run_job_execute)
  note codec = job_codec [of tparse "wc_tfmt C", OF times] result_codec [of tparse "wc_tfmt C", OF times]
  show ?thesis
  proof (cases r)
    case (Inr v)
    then show ?thesis using s' sub
      by (simp add: remote_execute_def direct_post_job submit_job_def remote_result_def client_view_def
          succeeded_result_def codec del: rstrip_slash.simps)
  next
    case (Inl e)
    then show ?thesis using s' sub honest
      by (auto simp: remote_execute_def direct_post_job submit_job_def remote_result_def client_view_def
          gateway_error_result_def or_text_def codec simp del: rstrip_slash.simps)
  qed
qed

text \<open>The endpoint reports a failed signature by its message, so a tool must not fail with that text.\<close>

definition remote_ready :: "'x worker_config \<Rightarrow> (string \<Rightarrow> timestamp option) \<Rightarrow> worker_request \<Rightarrow> 'x worker_service \<Rightarrow> bool" where
  "remote_ready C tparse q s = (idle_for (wc_tfmt C) (wc_shared_secret C) q s \<and> (\<forall>t. tparse (wc_tfmt C t) = Some t) \<and>
     (\<forall>e. fst (registry_execute (wc_registry C) (wq_tool_name q) (wq_arguments q) (ws_outside s)) = Inl e \<longrightarrow>
       exn_str e \<noteq> ''Worker authentication failed''))"

interpretation remote: worker_client "\<lambda>q s. Some (remote_execute (direct_send C tparse version elsewhere base_url [Take, Finish 0] ''POST'') tparse (wc_tfmt C)
    base_url (wc_shared_secret C) job_id now q s)" "remote_ready C tparse" ws_outside "wc_registry C"
proof unfold_locales
  fix q w r x
  assume "remote_ready C tparse q w" and r: "r \<noteq> Inl CancelledExn"
    and run: "registry_execute (wc_registry C) (wq_tool_name q) (wq_arguments q) (ws_outside w) = (r, x)"
  then have "idle_for (wc_tfmt C) (wc_shared_secret C) q w" "\<And>t. tparse (wc_tfmt C t) = Some t"
    "\<And>e. r = Inl e \<Longrightarrow> exn_str e \<noteq> ''Worker authentication failed''" by (simp_all add: remote_ready_def)
  from remote_runs [OF this(2,1) r run this(3)]
  show "\<exists>w'. Some (remote_execute (direct_send C tparse version elsewhere base_url [Take, Finish 0] ''POST'') tparse (wc_tfmt C) base_url
      (wc_shared_secret C) job_id now q w) = Some (client_view r, w') \<and> ws_outside w' = x" by simp
qed

section \<open>The proxy registry\<close>

lemma register_all_fresh:
  assumes "distinct (map td_name ds)" and "set (map td_name ds) \<inter> set (dict_keys reg) = {}"
  shows "register_all ds reg = Inr (reg @ map (\<lambda>d. (td_name d, d)) ds)"
  using assms
proof (induction ds arbitrary: reg)
  case (Cons d ds)
  then have "td_name d \<notin> set (dict_keys reg)" by simp
  then have "register d reg = Inr (reg @ [(td_name d, d)])"
    by (simp add: register_def dict_set_new map_of_eq_None_iff)
  moreover have "register_all ds (reg @ [(td_name d, d)]) = Inr ((reg @ [(td_name d, d)]) @ map (\<lambda>d. (td_name d, d)) ds)"
    using Cons.prems by (intro Cons.IH) auto
  ultimately show ?case by simp
qed simp

lemma registry_wf_names:
  assumes "registry_wf reg"
  shows "map td_name (list_tools reg) = dict_keys reg" and "map (\<lambda>d. (td_name d, f d)) (list_tools reg) = map (apsnd f) reg"
  using assms by (auto simp: registry_wf_def list_tools_def list_all_iff)

lemma proxy_fields [simp]:
  "td_name (proxy_definition ctx fresh client d) = td_name d"
  "td_risk_class (proxy_definition ctx fresh client d) = td_risk_class d"
  "td_input_model (proxy_definition ctx fresh client d) = td_input_model d"
  "td_output_model (proxy_definition ctx fresh client d) = td_output_model d"
  "mcp_tool (proxy_definition ctx fresh client d) = mcp_tool d"
  by (simp_all add: proxy_definition_def mcp_tool_def annotations_for_def)

lemma proxy_registry:
  assumes "registry_wf source"
  shows "create_worker_proxy_registry ctx fresh client source = Inr (map (apsnd (proxy_definition ctx fresh client)) source)"
proof -
  let ?ds = "map (proxy_definition ctx fresh client) (list_tools source)"
  have "map td_name ?ds = dict_keys source"
    using registry_wf_names(1) [OF assms] by (simp add: comp_def)
  moreover have "distinct (dict_keys source)" using assms by (simp add: registry_wf_def)
  moreover have "map (\<lambda>d. (td_name d, d)) ?ds = map (apsnd (proxy_definition ctx fresh client)) source"
    using registry_wf_names(2) [OF assms, of "proxy_definition ctx fresh client"] by (simp add: comp_def)
  ultimately show ?thesis
    unfolding create_worker_proxy_registry_def empty_registry_def by (subst register_all_fresh) simp_all
qed

lemma dict_get_apsnd: "dict_get (map (apsnd f) d) k = map_option f (dict_get d k)"
  by (induction d) auto

section \<open>Properties\<close>

text \<open>C9: a call that goes through the worker service has the effect and the output of a direct call of
  the worker's registry.  On an idle service both clients, in-process and over HTTP, return (they do not
  wait forever), change the outside world exactly as the registry does, return the same output, and turn
  every failure into a gateway error with its message; a failed call never looks like a success.  The remote
  worker is reached through the routes of its application, and its health check succeeds.\<close>

theorem workers_are_transparent:
  assumes "idle_for (wc_tfmt C) (wc_shared_secret C) q s" and "\<And>t. tparse (wc_tfmt C t) = Some t"
    and "registry_execute (wc_registry C) (wq_tool_name q) (wq_arguments q) (ws_outside s) = (r, x)"
    and "r \<noteq> Inl CancelledExn" and "\<And>e. r = Inl e \<Longrightarrow> exn_str e \<noteq> ''Worker authentication failed''"
  shows "map_option (map_prod id ws_outside)
      (in_process_execute C (wc_shared_secret C) [Take, Finish 0] job_id now q s) = Some (client_view r, x) \<and>
    map_prod id ws_outside (remote_execute (direct_send C tparse version elsewhere base_url [Take, Finish 0] ''POST'') tparse (wc_tfmt C) base_url
      (wc_shared_secret C) job_id now q s) = (client_view r, x) \<and>
    remote_healthcheck (\<lambda>url. direct_send C tparse version elsewhere base_url [] ''GET'' url []) base_url s = (True, s)"
  using in_process.execute_returns [OF assms(1)] remote.execute_returns [of C tparse q s] assms
  by (simp add: remote_ready_def remote_health idle_healthy)

definition note_request :: worker_request where
  "note_request = \<lparr>wq_tool_name = ''note'', wq_arguments = [(''body'', JStr ''x'')], wq_risk_class = DESTRUCTIVE,
     wq_call_id = ''c'', wq_tenant_id = ''local'', wq_idempotency_key = None\<rparr>"

definition read_int :: "string \<Rightarrow> int option" where
  "read_int s = (case scan_number id s of Some (JInt i, []) \<Rightarrow> Some i | _ \<Rightarrow> None)"

theorem workers_are_transparent_witness:
  "map_option (map_prod id ws_outside) (in_process_execute (note_config DESTRUCTIVE) ''s'' [Take, Finish 0] ''j'' 0
      note_request (ws_run (note_config DESTRUCTIVE) [Start] note_service)) =
    Some (Inr [(''body'', JStr ''x'')], [[(''body'', JStr ''x'')]]) \<and>
   map_prod id ws_outside (remote_execute (direct_send (note_config DESTRUCTIVE) read_int ''1'' (\<lambda>v p. HttpResponse 404 None) ''http://worker'' [Take, Finish 0] ''POST'') read_int str_of_int
      ''http://worker'' ''s'' ''j'' 0 note_request (ws_run (note_config DESTRUCTIVE) [Start] note_service)) =
    (Inr [(''body'', JStr ''x'')], [[(''body'', JStr ''x'')]])"
proof -
  let ?C = "note_config DESTRUCTIVE" and ?s = "ws_run (note_config DESTRUCTIVE) [Start] note_service"
  have C: "wc_tfmt ?C = str_of_int" "wc_shared_secret ?C = ''s''" by (simp_all add: note_config_def)
  have idle: "idle_for (wc_tfmt ?C) (wc_shared_secret ?C) note_request ?s"
    by (simp add: idle_for_def idle_def note_eval)
  have run: "registry_execute (wc_registry ?C) (wq_tool_name note_request) (wq_arguments note_request) (ws_outside ?s) =
      (Inr [(''body'', JStr ''x'')], [[(''body'', JStr ''x'')]])"
    using note_run [of DESTRUCTIVE "[]"] unfolding run_job_execute by (simp add: note_request_def note_eval)
  from workers_are_transparent [of ?C note_request ?s read_int, OF idle _ run]
  show ?thesis by (simp add: C read_int_def scan_number_int client_view_def)
qed

text \<open>C32: the proxy registry that the gateway uses in front of workers is the source registry with other
  handlers.  It is built without an error, discovery shows the same tools, validation accepts and rejects
  the same arguments with the same result, the risk classes that the policy sees are the same, and every
  attempt of one gateway call submits its job under the same idempotency key.\<close>

theorem proxy_registry_faithful:
  assumes "registry_wf source"
  shows "\<exists>proxy. create_worker_proxy_registry ctx fresh client source = Inr proxy \<and>
    mcp_list_tools proxy = mcp_list_tools source \<and>
    (\<forall>name a. registry_validate proxy name a = registry_validate source name a) \<and>
    (\<forall>name d request w call_id tenant_id. registry_get source name = Inr d \<and> ctx w = Some (call_id, tenant_id) \<longrightarrow>
       registry_execute_validated proxy name request w = bind_io (client \<lparr>wq_tool_name = name, wq_arguments = request,
         wq_risk_class = td_risk_class d, wq_call_id = call_id, wq_tenant_id = tenant_id,
         wq_idempotency_key = Some (call_id @ '':'' @ name)\<rparr>) (\<lambda>result. lift_res (td_output_model d result)) w)"
proof -
  let ?proxy = "map (apsnd (proxy_definition ctx fresh client)) source"
  have get: "registry_get ?proxy name = (case registry_get source name of
      Inl x \<Rightarrow> Inl x | Inr d \<Rightarrow> Inr (proxy_definition ctx fresh client d))" for name
    by (simp add: registry_get_def dict_get_apsnd split: option.split)
  have "mcp_list_tools ?proxy = mcp_list_tools source"
    by (simp add: mcp_list_tools_def list_tools_def)
  moreover have "registry_validate ?proxy name a = registry_validate source name a" for name a
    by (simp add: registry_validate_def get td_validate_def split: sum.split)
  moreover have "registry_execute_validated ?proxy name request w = bind_io (client \<lparr>wq_tool_name = name, wq_arguments = request,
         wq_risk_class = td_risk_class d, wq_call_id = call_id, wq_tenant_id = tenant_id,
         wq_idempotency_key = Some (call_id @ '':'' @ name)\<rparr>) (\<lambda>result. lift_res (td_output_model d result)) w"
    if d: "registry_get source name = Inr d" and ctx: "ctx w = Some (call_id, tenant_id)" for name d request w call_id tenant_id
    using registry_get_name [OF assms d] d ctx
    by (simp add: registry_execute_validated_def get td_execute_validated_def io_defs)
      (simp add: proxy_definition_def proxy_handler_def io_defs split: prod.split sum.split)
  ultimately show ?thesis using proxy_registry [OF assms, of ctx fresh client] by blast
qed

theorem proxy_registry_faithful_witness:
  "\<exists>proxy. create_worker_proxy_registry (\<lambda>w :: jdict list. None) (ret ''u'') (\<lambda>q. ret []) (wc_registry (note_config MUTATING)) = Inr proxy \<and>
    mcp_list_tools proxy = mcp_list_tools (wc_registry (note_config MUTATING))"
  using proxy_registry_faithful [of "wc_registry (note_config MUTATING)" "\<lambda>w :: jdict list. None" "ret ''u''" "\<lambda>q. ret []"]
  by (auto simp: registry_wf_def note_config_def note_tool_def)

end
