(* ===== verification/Tools.thy ===== *)
theory Tools
  imports Sandbox Worker_Clients
begin

text \<open>
  The tools of the gateway (\<open>gateway/tools\<close>) and the registry that \<open>create_registry\<close> builds from them
  (\<open>gateway/server.py\<close>): each tool runs in a sandbox when there is a runner; without one \<open>db_query\<close> runs
  directly and \<open>shell_exec\<close> is refused.
\<close>

section \<open>Definitions\<close>

text \<open>What the tools use of their host: SQLite, Docker, the text of floats, and pydantic's error reports and
  schemas by tool name.\<close>

record 'x tool_host =
  th_sqlite :: "'x sqlite"
  th_as_uri :: "string \<Rightarrow> string"
  th_docker :: "'x docker"
  th_frepr :: "string \<Rightarrow> string"
  th_report :: "string \<Rightarrow> jdict \<Rightarrow> pydantic_error list"
  th_schemas :: "string \<Rightarrow> jdict \<times> jdict"

definition validated :: "(jdict \<Rightarrow> jdict option) \<Rightarrow> jdict \<Rightarrow> exn + jdict" where
  "validated model d = (case model d of None \<Rightarrow> Inl (PyExn ''ValidationError'' ''validation error'') | Some v \<Rightarrow> Inr v)"

definition input_model :: "'x tool_host \<Rightarrow> string \<Rightarrow> (jdict \<Rightarrow> jdict option) \<Rightarrow> jdict \<Rightarrow> pydantic_error list + jdict" where
  "input_model H name model a = (case model a of None \<Rightarrow> Inl (th_report H name a) | Some r \<Rightarrow> Inr r)"

definition db_query_payload :: "jdict \<Rightarrow> jdict" where
  "db_query_payload request = [(''kind'', JStr ''db_query''), (''database_path'', JStr ''/data/gateway.sqlite''),
     (''request'', JObj request)]"

definition db_query_handler :: "'x tool_host \<Rightarrow> string \<Rightarrow> sandbox_runner option \<Rightarrow> jdict \<Rightarrow> ('x, jdict) aio" where
  "db_query_handler H database_path runner request = (case runner of
       Some R \<Rightarrow> bind_io (lift_res (profile_for_tool ''db_query'' ''.'')) (\<lambda>profile.
         bind_io (run_worker (th_frepr H) (th_docker H) R (db_query_payload request) profile
             [(database_path, ''/data/gateway.sqlite'', True)]) (\<lambda>result.
         lift_res (validated DbQueryOutput result)))
     | None \<Rightarrow> query_database (th_sqlite H) (th_as_uri H) database_path request)"

definition create_db_query_tool :: "'x tool_host \<Rightarrow> string \<Rightarrow> sandbox_runner option \<Rightarrow> 'x tool_definition" where
  "create_db_query_tool H database_path runner = \<lparr>td_name = ''db_query'',
     td_description = ''Run one read-only, parameterized query against synthetic orders'',
     td_risk_class = READ_ONLY, td_input_model = input_model H ''db_query'' DbQueryInput,
     td_output_model = validated DbQueryOutput, td_handler = db_query_handler H database_path runner,
     td_idempotent = True, td_input_schema = fst (th_schemas H ''db_query''),
     td_output_schema = snd (th_schemas H ''db_query'')\<rparr>"

definition ShellExecInput :: "jdict \<Rightarrow> jdict option" where
  "ShellExecInput a = (if \<not> allowed_fields [''command''] a then None
     else (case dict_get a ''command'' of
         Some v \<Rightarrow> if text_between 1 10000 v then Some [(''command'', v)] else None
       | None \<Rightarrow> None))"

definition ShellExecOutput :: "jdict \<Rightarrow> jdict option" where
  "ShellExecOutput a = (if \<not> allowed_fields [''exit_code'', ''stdout'', ''stderr''] a then None
     else (case (dict_get a ''exit_code'', dict_get a ''stdout'', dict_get a ''stderr'') of
         (Some (JInt c), Some (JStr out), Some (JStr err)) \<Rightarrow>
           Some [(''exit_code'', JInt c), (''stdout'', JStr out), (''stderr'', JStr err)]
       | _ \<Rightarrow> None))"

definition shell_exec_disabled :: "jdict \<Rightarrow> ('x, jdict) aio" where
  "shell_exec_disabled request = raise_io (GatewayExn (ToolNotEnabledError
     ''shell_exec is not enabled until Phase 4 sandboxing is implemented''))"

text \<open>\<open>int(text)\<close>: blanks around, a sign, groups of digits joined by underscores.\<close>

definition py_int :: "string \<Rightarrow> int option" where
  "py_int s = (let t = str_strip s;
       sign = (if take 1 t = ''-'' then - 1 else 1 :: int);
       ds = (case t of c # r \<Rightarrow> if c = CHR ''-'' \<or> c = CHR ''+'' then r else t | [] \<Rightarrow> []);
       digits = filter (\<lambda>c. c \<noteq> CHR ''_'') ds
     in if ds \<noteq> [] \<and> list_all (\<lambda>c. is_digit c \<or> c = CHR ''_'') ds \<and> hd ds \<noteq> CHR ''_'' \<and> last ds \<noteq> CHR ''_'' \<and>
           \<not> str_contains ds ''__''
        then Some (sign * int (digits_value digits)) else None)"

definition shell_output :: "jdict \<Rightarrow> exn + jdict" where
  "shell_output result = (case dict_get result ''exit_code'' of
       None \<Rightarrow> Inl (PyExn ''KeyError'' ''exit_code'')
     | Some c \<Rightarrow> (case py_int (py_str c) of
         None \<Rightarrow> Inl (PyExn ''ValueError'' (''invalid literal for int() with base 10: '' @ py_repr_str (py_str c)))
       | Some code \<Rightarrow> (case dict_get result ''stdout'' of
           None \<Rightarrow> Inl (PyExn ''KeyError'' ''stdout'')
         | Some out \<Rightarrow> (case dict_get result ''stderr'' of
             None \<Rightarrow> Inl (PyExn ''KeyError'' ''stderr'')
           | Some err \<Rightarrow> Inr [(''exit_code'', JInt code), (''stdout'', JStr (py_str out)), (''stderr'', JStr (py_str err))]))))"

definition shell_exec_payload :: "jdict \<Rightarrow> jdict" where
  "shell_exec_payload request = [(''kind'', JStr ''shell_exec''),
     (''command'', case dict_get request ''command'' of Some v \<Rightarrow> v | None \<Rightarrow> JNull)]"

definition shell_exec_handler :: "'x tool_host \<Rightarrow> sandbox_runner option \<Rightarrow> jdict \<Rightarrow> ('x, jdict) aio" where
  "shell_exec_handler H runner request = (case runner of
       None \<Rightarrow> shell_exec_disabled request
     | Some R \<Rightarrow> bind_io (lift_res (profile_for_tool ''shell_exec'' ''.'')) (\<lambda>profile.
         bind_io (run_worker (th_frepr H) (th_docker H) R (shell_exec_payload request) profile []) (\<lambda>result.
         lift_res (shell_output result))))"

definition create_shell_exec_tool :: "'x tool_host \<Rightarrow> sandbox_runner option \<Rightarrow> 'x tool_definition" where
  "create_shell_exec_tool H runner = \<lparr>td_name = ''shell_exec'',
     td_description = ''Run a shell command inside an isolated sandbox'', td_risk_class = DESTRUCTIVE,
     td_input_model = input_model H ''shell_exec'' ShellExecInput, td_output_model = validated ShellExecOutput,
     td_handler = shell_exec_handler H runner, td_idempotent = False,
     td_input_schema = fst (th_schemas H ''shell_exec''), td_output_schema = snd (th_schemas H ''shell_exec'')\<rparr>"

definition create_registry :: "'x tool_host \<Rightarrow> string \<Rightarrow> sandbox_runner option \<Rightarrow> exn + 'x tool_registry" where
  "create_registry H database_path runner =
     register_all [create_db_query_tool H database_path runner, create_shell_exec_tool H runner] empty_registry"

section \<open>Confinement\<close>

text \<open>The values of an option on a command line.\<close>

fun option_values :: "string \<Rightarrow> string list \<Rightarrow> string list" where
  "option_values k (a # b # rest) = (if a = k then b # option_values k rest else option_values k (b # rest))"
| "option_values k _ = []"

text \<open>A container with a read-only root, no capabilities, no network, bounded memory, processor and
  processes, and no host path but the database, which it can only read.\<close>

definition isolated :: "string \<Rightarrow> string list \<Rightarrow> bool" where
  "isolated host_db opts = (list_all (\<lambda>k. k \<in> set opts)
       [''--rm'', ''--read-only'', ''--cap-drop=ALL'', ''--security-opt=no-new-privileges'', ''--network=none''] \<and>
     list_all (\<lambda>k. k \<notin> set opts) [''--privileged'', ''--network=bridge'', ''--volume'', ''-v'', ''--cap-add''] \<and>
     list_all (\<lambda>k. option_values k opts \<noteq> []) [''--memory'', ''--cpus'', ''--pids-limit''] \<and>
     list_all (\<lambda>m. m = ''type=bind,src='' @ host_db @ '',dst=/data/gateway.sqlite,ro'') (option_values ''--mount'' opts))"

definition confined :: "sandbox_runner \<Rightarrow> string \<Rightarrow> string list \<Rightarrow> bool" where
  "confined R database_path argv = (take 2 argv = [''docker'', ''run''] \<and>
     drop (length argv - 4) argv = sr_image R # worker_command \<and>
     isolated (sr_resolve R database_path) (take (length argv - 6) (drop 2 argv)))"

text \<open>A Docker that refuses every other command.\<close>

definition confining :: "sandbox_runner \<Rightarrow> string \<Rightarrow> 'x docker \<Rightarrow> 'x docker" where
  "confining R database_path D = D\<lparr>dk_run := (\<lambda>argv stdin t x.
     if confined R database_path argv then dk_run D argv stdin t x else (NoExecutable, x))\<rparr>"

section \<open>Lemmas\<close>

lemma ShellExecInput_idem: "ShellExecInput a = Some r \<Longrightarrow> ShellExecInput r = Some r"
  by (auto simp: ShellExecInput_def allowed_fields_def split: if_splits option.splits)

lemma create_registry_eq:
  "create_registry H path runner = Inr [(''db_query'', create_db_query_tool H path runner),
     (''shell_exec'', create_shell_exec_tool H runner)]"
  by (simp add: create_registry_def register_def empty_registry_def create_db_query_tool_def create_shell_exec_tool_def)

lemma create_registry_wf: "create_registry H path runner = Inr reg \<Longrightarrow> registry_wf reg"
  unfolding create_registry_eq by (auto simp: registry_wf_def create_db_query_tool_def create_shell_exec_tool_def)

lemma input_model_Inr: "input_model H name model a = Inr r \<longleftrightarrow> model a = Some r"
  by (auto simp: input_model_def split: option.splits)

lemma create_registry_revalidates: "create_registry H path runner = Inr reg \<Longrightarrow> revalidates reg"
  unfolding create_registry_eq
  by (auto simp: revalidates_def create_db_query_tool_def create_shell_exec_tool_def input_model_Inr
      intro: DbQueryInput_idem ShellExecInput_idem)

lemma limits_text: "str_of_int 32 = ''32''" "str_of_int 16 = ''16''"
  by code_simp+

lemma isolated_options:
  assumes "profile_for_tool name w = Inr profile" and "mounts \<in> {[], [(path, ''/data/gateway.sqlite'', True)]}"
  shows "isolated (sr_resolve R path) (docker_options R profile mounts (''mcp-tool-'' @ uid))"
proof -
  consider "profile = \<lparr>sp_name = ''db_query'', sp_timeout_seconds = 10, sp_memory = ''256m'', sp_cpus = ''1.0'',
      sp_pids_limit = 32, sp_network = False, sp_workspace = w, sp_mounts = []\<rparr>"
  | "profile = \<lparr>sp_name = ''shell_exec'', sp_timeout_seconds = 5, sp_memory = ''128m'', sp_cpus = ''0.5'',
      sp_pids_limit = 16, sp_network = False, sp_workspace = w, sp_mounts = []\<rparr>"
    using assms(1) that unfolding profile_for_tool_def by (simp split: if_splits)
  then show ?thesis
  proof cases
    case P: 1
    show ?thesis
      unfolding P using assms(2)
      by (elim insertE emptyE; cases "sr_runtime R";
          simp add: isolated_def docker_options_def runtime_arguments_def mount_arguments_def limits_text)
  next
    case P: 2
    show ?thesis
      unfolding P using assms(2)
      by (elim insertE emptyE; cases "sr_runtime R";
          simp add: isolated_def docker_options_def runtime_arguments_def mount_arguments_def limits_text)
  qed
qed

lemma command_confined:
  assumes "profile_for_tool name w = Inr profile" and "mounts \<in> {[], [(path, ''/data/gateway.sqlite'', True)]}"
  shows "confined R path (docker_command R profile mounts (''mcp-tool-'' @ uid) worker_command)"
proof -
  let ?opts = "docker_options R profile mounts (''mcp-tool-'' @ uid)"
  have split: "docker_command R profile mounts (''mcp-tool-'' @ uid) worker_command =
      [''docker'', ''run''] @ ?opts @ (sr_image R # worker_command)" by (simp add: docker_command_def)
  have len: "length (sr_image R # worker_command) = 4" by (simp add: worker_command_def)
  show ?thesis
    using isolated_options [OF assms] unfolding confined_def split by (simp add: worker_command_def)
qed

lemma run_worker_confined:
  assumes "profile_for_tool name w = Inr profile" and "mounts \<in> {[], [(path, ''/data/gateway.sqlite'', True)]}"
  shows "run_worker frepr (confining R path D) R payload profile mounts = run_worker frepr D R payload profile mounts"
proof -
  have same: "dk_uuid (confining R path D) = dk_uuid D" "dk_kill (confining R path D) = dk_kill D"
    "dk_remove (confining R path D) = dk_remove D" "sandbox_outcome (confining R path D) = sandbox_outcome D"
    by (simp_all add: confining_def sandbox_outcome_def fun_eq_iff split: process_end.split)
  have "dk_run (confining R path D) (docker_command R profile mounts (''mcp-tool-'' @ uid) worker_command) =
      dk_run D (docker_command R profile mounts (''mcp-tool-'' @ uid) worker_command)" for uid
    using command_confined [OF assms, of R uid] by (simp add: confining_def fun_eq_iff)
  then have "sandbox_run (confining R path D) R worker_command profile mounts stdin =
      sandbox_run D R worker_command profile mounts stdin" for stdin
    unfolding sandbox_run_def same Let_def by simp
  then show ?thesis by (simp add: run_worker_def fun_eq_iff)
qed

lemma DbQueryOutput_idem: "DbQueryOutput a = Some r \<Longrightarrow> DbQueryOutput r = Some r"
  by (auto simp: DbQueryOutput_def allowed_fields_def split: if_splits option.splits json.splits)

lemma ShellExecOutput_idem: "ShellExecOutput a = Some r \<Longrightarrow> ShellExecOutput r = Some r"
  by (auto simp: ShellExecOutput_def allowed_fields_def split: if_splits option.splits json.splits)

text \<open>A call of a registry that returns went through both models of the tool.\<close>

lemma registry_execute_Inr:
  assumes "registry_execute reg name a x = (Inr v, x')"
  obtains d request result x1 where "registry_get reg name = Inr d" "td_input_model d a = Inr request"
    "td_handler d request x = (Inr result, x1)" "td_output_model d result = Inr v"
  using assms
  by (auto simp: registry_execute_def td_execute_def td_validate_def td_execute_validated_def io_defs
      split: sum.splits prod.splits)

text \<open>A Docker whose containers run the worker on their standard input; the mounted database appears under
  the container's path.\<close>

definition container_end :: "exn + string \<Rightarrow> process_end" where
  "container_end r = (case r of Inr out \<Rightarrow> Exited 0 out [] | Inl e \<Rightarrow> Exited 1 [] (exn_str e))"

definition runs_worker :: "(string \<Rightarrow> string) \<Rightarrow> 'x sqlite \<Rightarrow> (string \<Rightarrow> string) \<Rightarrow>
    (json \<Rightarrow> ('x, int \<times> string \<times> string) aio) \<Rightarrow> 'x docker \<Rightarrow> bool" where
  "runs_worker frepr E as_uri shell D = (\<forall>argv stdin t x. dk_run D argv (Some stdin) t x =
     (case worker_main frepr E as_uri shell stdin x of (r, x') \<Rightarrow> (container_end r, x')))"

lemma worker_answers_query:
  assumes "DbQueryInput a = Some r" and "json_wf frepr (JObj r)"
  shows "worker_main frepr E as_uri shell (json_text (JObj (db_query_payload r))) x =
    (case query_database E as_uri ''/data/gateway.sqlite'' r x of
       (Inl e, x') \<Rightarrow> (Inl e, x') | (Inr v, x') \<Rightarrow> (Inr (json_text (JObj v)), x'))"
proof -
  have "json_wf frepr (JObj (db_query_payload r))" using assms(2) by (simp add: db_query_payload_def)
  from json_loads_render [OF this standard_seps(1)] DbQueryInput_idem [OF assms(1)] show ?thesis
    unfolding worker_main_def json_text_def by (simp add: db_query_payload_def)
qed

lemma json_text_printable: "json_wf frepr v \<Longrightarrow> c \<in> set (json_text v) \<Longrightarrow> printable c"
  unfolding json_text_def by (rule render_printable) (auto simp: printable_def)

section \<open>Properties\<close>


text \<open>C29: the tools are typed.  In the registry of the gateway, every call that returns was of a registered
  tool with arguments that its input model accepts, and its output satisfies the output model; a call of
  \<open>shell_exec\<close> returns only when there is a sandbox.\<close>

theorem registry_outputs_typed:
  assumes "create_registry H path runner = Inr reg" and "registry_execute reg name a x = (Inr v, x')"
  shows "name = ''db_query'' \<and> (\<exists>r. DbQueryInput a = Some r) \<and> DbQueryOutput v = Some v \<or>
    name = ''shell_exec'' \<and> (\<exists>r. ShellExecInput a = Some r) \<and> ShellExecOutput v = Some v \<and> runner \<noteq> None"
  using assms(2)
proof (rule registry_execute_Inr)
  fix d request result x1
  assume get: "registry_get reg name = Inr d" and run: "td_input_model d a = Inr request"
    "td_handler d request x = (Inr result, x1)" "td_output_model d result = Inr v"
  consider "name = ''db_query''" "d = create_db_query_tool H path runner"
    | "name = ''shell_exec''" "d = create_shell_exec_tool H runner"
    using assms(1) get unfolding create_registry_eq by (auto simp: registry_get_def split: if_splits)
  then show ?thesis
    using run DbQueryOutput_idem [of result v] ShellExecOutput_idem [of result v]
    by cases (auto simp: create_db_query_tool_def create_shell_exec_tool_def input_model_Inr validated_def
        shell_exec_handler_def shell_exec_disabled_def raise_io_def split: option.splits)
qed


definition demo_host :: "nat tool_host" where
  "demo_host = \<lparr>th_sqlite = demo_sqlite, th_as_uri = (\<lambda>p. ''file:orders''),
     th_docker = \<lparr>dk_run = (\<lambda>argv stdin t x. case stdin of
         None \<Rightarrow> (NoExecutable, x)
       | Some s \<Rightarrow> (case worker_main id demo_sqlite (\<lambda>p. ''file:orders'') (\<lambda>c. ret (0, [], [])) s x of
           (r, x') \<Rightarrow> (container_end r, x'))),
       dk_kill = id, dk_remove = (\<lambda>name x. x + 1), dk_decode = id, dk_uuid = (\<lambda>x. (''u'', x)), dk_shlex = concat\<rparr>,
     th_frepr = id, th_report = (\<lambda>n a. []), th_schemas = (\<lambda>n. ([], []))\<rparr>"

definition demo_runner :: sandbox_runner where
  "demo_runner = \<lparr>sr_runtime = HARDENED_DOCKER, sr_image = ''image'', sr_output_limit = 1000, sr_seccomp = ''tool.json'',
     sr_resolve = id\<rparr>"


lemma direct_call:
  "registry_execute [(''db_query'', create_db_query_tool demo_host ''orders.sqlite'' None),
      (''shell_exec'', create_shell_exec_tool demo_host None)] ''db_query'' orders_request 0 =
   (Inr (query_output [''order_id''] [[(''order_id'', JInt 0)], [(''order_id'', JInt 1)]] True), 0)"
  by code_simp

theorem registry_outputs_typed_witness:
  "DbQueryOutput (query_output [''order_id''] [[(''order_id'', JInt 0)], [(''order_id'', JInt 1)]] True) =
     Some (query_output [''order_id''] [[(''order_id'', JInt 0)], [(''order_id'', JInt 1)]] True)"
  using registry_outputs_typed [OF create_registry_eq direct_call] by simp

end
