(* ===== verification/Runtime.thy ===== *)
theory Runtime
  imports Tools Advisor Mediation Config
begin

text \<open>
  The assembly of a gateway from its settings: \<open>create_execution_runtime\<close> and \<open>create_mcp_server\<close> of
  \<open>server.py\<close>, \<open>create_state_store\<close> of \<open>redis_store.py\<close>, the constructors that \<open>run_stdio_server\<close> and
  \<open>create_http_app\<close> share, and \<open>create_worker_app\<close> of \<open>workers/http_server.py\<close>.
\<close>

section \<open>The process and its surroundings\<close>

text \<open>
  The part of a gateway process outside the pipeline: the worker service, whose \<open>ws_outside\<close> is the host with
  its Docker, database files and network, and the worker context variable.  The schedule gives what the
  other tasks of the worker service do while the \<open>i\<close>-th job is awaited.
\<close>

record 'y node =
  nd_service :: "'y worker_service"
  nd_context :: "(string \<times> string) option"
  nd_schedule :: "nat \<Rightarrow> 'y ws_event list"
  nd_uuid :: "nat \<Rightarrow> string"
  nd_clock :: "nat \<Rightarrow> timestamp"
  nd_jobs :: nat

abbreviation node_host :: "'y node \<Rightarrow> 'y" where
  "node_host n \<equiv> ws_outside (nd_service n)"

definition set_host :: "'y \<Rightarrow> 'y node \<Rightarrow> 'y node" where
  "set_host y n = n\<lparr>nd_service := (nd_service n)\<lparr>ws_outside := y\<rparr>\<rparr>"

definition on_host :: "('y, 'a) aio \<Rightarrow> ('y node, 'a) aio" where
  "on_host m n = (case m (node_host n) of (r, y) \<Rightarrow> (r, set_host y n))"

text \<open>An exchange over the network.\<close>

definition through_host :: "('y \<Rightarrow> 'a \<times> 'y) \<Rightarrow> 'y node \<Rightarrow> 'a \<times> 'y node" where
  "through_host f n = (case f (node_host n) of (r, y) \<Rightarrow> (r, set_host y n))"

text \<open>What the process uses of the libraries: HTTP clients, the codecs of timestamps and floats, and
  \<open>secrets.token_hex(32)\<close>.\<close>

record 'y platform =
  pf_tools :: "'y tool_host"
  pf_post_job :: "string \<Rightarrow> jdict \<Rightarrow> 'y \<Rightarrow> http_result \<times> 'y"
  pf_post_policy :: "string \<Rightarrow> json \<Rightarrow> 'y \<Rightarrow> http_result \<times> 'y"
  pf_post_model :: "'y http_post"
  pf_get :: "string \<Rightarrow> 'y \<Rightarrow> http_result \<times> 'y"
  pf_tparse :: "string \<Rightarrow> timestamp option"
  pf_tfmt :: "timestamp \<Rightarrow> string"
  pf_float_text :: "rat \<Rightarrow> string"
  pf_token_hex :: string
  pf_seccomp :: string
  pf_resolve :: "string \<Rightarrow> string"

section \<open>Tools of the process\<close>

text \<open>A tool that runs in the process itself acts on the host.\<close>

definition local_tool :: "'y tool_definition \<Rightarrow> 'y node tool_definition" where
  "local_tool d = \<lparr>td_name = td_name d, td_description = td_description d, td_risk_class = td_risk_class d,
     td_input_model = td_input_model d, td_output_model = td_output_model d,
     td_handler = (\<lambda>a. on_host (td_handler d a)), td_idempotent = td_idempotent d,
     td_input_schema = td_input_schema d, td_output_schema = td_output_schema d\<rparr>"

definition local_registry :: "'y tool_registry \<Rightarrow> 'y node tool_registry" where
  "local_registry reg = map (apsnd local_tool) reg"

definition new_job :: "(string \<Rightarrow> timestamp \<Rightarrow> 'y ws_event list \<Rightarrow> ('y node, 'a) aio) \<Rightarrow> ('y node, 'a) aio" where
  "new_job f n = (let i = nd_jobs n in f (nd_uuid n i) (nd_clock n i) (nd_schedule n i) (n\<lparr>nd_jobs := Suc i\<rparr>))"

text \<open>The client of the worker service in the process.  A schedule that does not finish the job stands for
  a call that was given up.\<close>

definition InProcessWorkerClient :: "'y worker_config \<Rightarrow> string \<Rightarrow> 'y node worker_client" where
  "InProcessWorkerClient C secret q = new_job (\<lambda>job_id now sched n.
     case in_process_execute C secret sched job_id now q (nd_service n) of
       None \<Rightarrow> (Inl CancelledExn, n)
     | Some (r, s) \<Rightarrow> (r, n\<lparr>nd_service := s\<rparr>))"

record remote_worker =
  rw_base_url :: string
  rw_shared_secret :: string
  rw_timeout :: rat

definition RemoteWorkerClient :: "'y platform \<Rightarrow> remote_worker \<Rightarrow> 'y node worker_client" where
  "RemoteWorkerClient P R q = new_job (\<lambda>job_id now sched. on_host
     (remote_execute (pf_post_job P) (pf_tparse P) (pf_tfmt P) (rw_base_url R) (rw_shared_secret R) job_id now q))"

section \<open>Construction\<close>

definition SandboxRunner :: "'y platform \<Rightarrow> string \<Rightarrow> string \<Rightarrow> nat \<Rightarrow> exn + sandbox_runner" where
  "SandboxRunner P runtime img output_limit = map_sum id (\<lambda>rt. \<lparr>sr_runtime = rt, sr_image = img,
     sr_output_limit = output_limit, sr_seccomp = pf_seccomp P, sr_resolve = pf_resolve P\<rparr>) (SandboxRuntime runtime)"

definition sandbox_runner_for :: "'y platform \<Rightarrow> settings \<Rightarrow> exn + sandbox_runner option" where
  "sandbox_runner_for P s = (if cfg_environment s = Test \<or> cfg_worker_mode s = RemoteMode then Inr None
     else map_sum id Some (SandboxRunner P (sandbox_runtime_text (cfg_sandbox_runtime s)) (cfg_sandbox_image s)
       (cfg_sandbox_output_limit_bytes s)))"

text \<open>A worker service with its limits.\<close>

record 'y worker_pool =
  wp_config :: "'y worker_config"
  wp_job_timeout_seconds :: rat
  wp_failure_threshold :: int
  wp_reset_timeout_seconds :: rat

definition worker_pool_for :: "'y platform \<Rightarrow> settings \<Rightarrow> 'y tool_registry \<Rightarrow> string \<Rightarrow> 'y worker_pool" where
  "worker_pool_for P s reg secret = \<lparr>wp_config = \<lparr>wc_registry = reg, wc_shared_secret = secret,
       wc_max_concurrency = cfg_worker_max_concurrency s, wc_queue_size = cfg_worker_queue_size s, wc_tfmt = pf_tfmt P\<rparr>,
     wp_job_timeout_seconds = cfg_worker_job_timeout_seconds s, wp_failure_threshold = cfg_worker_failure_threshold s,
     wp_reset_timeout_seconds = cfg_worker_reset_timeout_seconds s\<rparr>"

record 'y execution_runtime =
  er_registry :: "'y node tool_registry"
  er_worker_service :: "'y worker_pool option"
  er_remote_worker :: "remote_worker option"

definition fresh_job_id :: "('y node, string) aio" where
  "fresh_job_id = new_job (\<lambda>job_id now sched n. (Inr job_id, n))"

definition create_execution_runtime :: "'y platform \<Rightarrow> settings \<Rightarrow> sandbox_runner option \<Rightarrow> exn + 'y execution_runtime" where
  "create_execution_runtime P s runner = (case cfg_worker_mode s of
       InProcessMode \<Rightarrow> map_sum id (\<lambda>reg. \<lparr>er_registry = local_registry reg, er_worker_service = None, er_remote_worker = None\<rparr>)
         (create_registry (pf_tools P) (cfg_database_path s) runner)
     | RemoteMode \<Rightarrow> (case (cfg_worker_shared_secret s, cfg_worker_url s) of
           (Some secret, Some url) \<Rightarrow>
             let R = \<lparr>rw_base_url = url, rw_shared_secret = secret, rw_timeout = cfg_worker_request_timeout_seconds s\<rparr>
             in (case create_registry (pf_tools P) (cfg_database_path s) None of
                 Inl x \<Rightarrow> Inl x
               | Inr reg \<Rightarrow> map_sum id (\<lambda>proxy. \<lparr>er_registry = proxy, er_worker_service = None, er_remote_worker = Some R\<rparr>)
                   (create_worker_proxy_registry nd_context fresh_job_id (RemoteWorkerClient P R) reg))
         | _ \<Rightarrow> Inl (PyExn ''ValueError'' ''Remote worker mode requires GATEWAY_WORKER_URL and GATEWAY_WORKER_SHARED_SECRET''))
     | QueuedMode \<Rightarrow> (case create_registry (pf_tools P) (cfg_database_path s) runner of
           Inl x \<Rightarrow> Inl x
         | Inr reg \<Rightarrow>
             let secret = (case cfg_worker_shared_secret s of Some k \<Rightarrow> k | None \<Rightarrow> pf_token_hex P);
                 pool = worker_pool_for P s reg secret
             in map_sum id (\<lambda>proxy. \<lparr>er_registry = proxy, er_worker_service = Some pool, er_remote_worker = None\<rparr>)
                  (create_worker_proxy_registry nd_context fresh_job_id (InProcessWorkerClient (wp_config pool) secret) reg)))"

text \<open>The state store is one of two classes; its operations are chosen by the object.\<close>

type_synonym 'raw any_store = "mem_store + 'raw redis_store"

definition dispatch :: "(mem_store, 'a) aio \<Rightarrow> ('raw redis_store, 'a) aio \<Rightarrow> ('raw any_store, 'a) aio" where
  "dispatch m r s = (case s of
       Inl a \<Rightarrow> (case m a of (x, a') \<Rightarrow> (x, Inl a'))
     | Inr b \<Rightarrow> (case r b of (x, b') \<Rightarrow> (x, Inr b')))"

definition any_store :: "'raw redis_config \<Rightarrow> 'raw any_store state_store" where
  "any_store rc = (let M = InMemoryStateStore; R = RedisStateStore rc in
     \<lparr>ss_create_call = (\<lambda>c. dispatch (ss_create_call M c) (ss_create_call R c)),
      ss_transition = (\<lambda>i st e. dispatch (ss_transition M i st e) (ss_transition R i st e)),
      ss_finish_attempt = (\<lambda>i n out e. dispatch (ss_finish_attempt M i n out e) (ss_finish_attempt R i n out e)),
      ss_start_attempt = (\<lambda>i n. dispatch (ss_start_attempt M i n) (ss_start_attempt R i n)),
      ss_get_call = (\<lambda>i. dispatch (ss_get_call M i) (ss_get_call R i)),
      ss_list_session_calls = (\<lambda>i. dispatch (ss_list_session_calls M i) (ss_list_session_calls R i))\<rparr>)"

definition create_state_store :: "state_store_backend \<Rightarrow> (nat \<Rightarrow> timestamp) \<Rightarrow> 'raw redis_store \<Rightarrow> 'raw any_store" where
  "create_state_store backend clock redis = (if backend = MemoryBackend then Inl (empty_mem_store clock) else Inr redis)"

definition policy_client_for :: "'y platform \<Rightarrow> settings \<Rightarrow> 'y node policy_client" where
  "policy_client_for P s = (if cfg_environment s = Test then AllowAllPolicyClient
     else OpaPolicyClient (\<lambda>url body. through_host (pf_post_policy P url body)) (\<lambda>url. through_host (pf_get P url)) (cfg_opa_url s))"

definition repair_advisor_for :: "'y platform \<Rightarrow> settings \<Rightarrow> 'y node repair_advisor option" where
  "repair_advisor_for P s = (if \<not> cfg_repair_enabled s then None
     else case cfg_repair_llm_api_key s of
       None \<Rightarrow> None
     | Some key \<Rightarrow>
         let c = \<lparr>ad_endpoint = cfg_repair_llm_url s, ad_model = cfg_repair_llm_model s, ad_api_key = key,
               ad_anthropic_version = cfg_repair_llm_anthropic_version s, ad_max_tokens = cfg_repair_llm_max_tokens s\<rparr>;
             post = (\<lambda>url body headers. through_host (pf_post_model P url body headers))
         in Some (if cfg_repair_llm_provider s = AnthropicProvider
              then AnthropicRepairAdvisor (th_frepr (pf_tools P)) post c
              else LLMRepairAdvisor (th_frepr (pf_tools P)) post c))"

text \<open>The gateway that \<open>create_mcp_server\<close> is given.\<close>

definition assemble :: "'y platform \<Rightarrow> settings \<Rightarrow> 'raw redis_config \<Rightarrow> 'rawq queue_codec \<Rightarrow> audit_codec \<Rightarrow>
    'y execution_runtime \<Rightarrow> ('raw any_store, 'rawq redis_queue, 'y node) gateway" where
  "assemble P s rc qc codec runtime = \<lparr>gc_registry = er_registry runtime, gc_store = any_store rc,
     gc_policy_client = Some (policy_client_for P s), gc_approval_queue = Some (RedisApprovalQueue qc),
     gc_audit_logger = Some codec, gc_sandbox_runtime = sandbox_runtime_text (cfg_sandbox_runtime s),
     gc_repair_advisor = repair_advisor_for P s, gc_control_plane = cfg_control_plane_enabled s,
     gc_set_context = (\<lambda>c n. n\<lparr>nd_context := c\<rparr>), gc_float_text = pf_float_text P\<rparr>"

definition create_gateway :: "'y platform \<Rightarrow> settings \<Rightarrow> 'raw redis_config \<Rightarrow> 'rawq queue_codec \<Rightarrow> audit_codec \<Rightarrow>
    exn + ('raw any_store, 'rawq redis_queue, 'y node) gateway \<times> 'y execution_runtime" where
  "create_gateway P s rc qc codec = (case sandbox_runner_for P s of
       Inl x \<Rightarrow> Inl x
     | Inr runner \<Rightarrow> map_sum id (\<lambda>rt. (assemble P s rc qc codec rt, rt)) (create_execution_runtime P s runner))"

section \<open>The MCP server\<close>

text \<open>The handler of \<open>tools/call\<close>: the principal of the request's context, else the one of the server.\<close>

definition call_tool :: "('s, 'q, 'x) gateway \<Rightarrow> string \<Rightarrow> principal option \<Rightarrow> principal option \<Rightarrow> string \<Rightarrow> string \<Rightarrow>
    jdict option \<Rightarrow> ('s, 'q, 'x, call_tool_result) gio" where
  "call_tool G session_id server_principal current trace_id name arguments =
     execute_tool_call G trace_id session_id name arguments
       (case current of Some p \<Rightarrow> Some p | None \<Rightarrow> server_principal)"

text \<open>\<open>session_id or uuid4().hex\<close>, taken once for the server.\<close>

definition active_session_id :: "string option \<Rightarrow> string \<Rightarrow> string" where
  "active_session_id session_id fresh = or_text session_id fresh"

section \<open>The worker process\<close>

definition create_worker_app :: "'y platform \<Rightarrow> settings \<Rightarrow> exn + 'y worker_pool" where
  "create_worker_app P s = (case cfg_worker_shared_secret s of
       None \<Rightarrow> Inl (PyExn ''ValueError'' ''GATEWAY_WORKER_SHARED_SECRET is required for worker service'')
     | Some secret \<Rightarrow>
         (case (if cfg_environment s = Test then Inr None
                else map_sum id Some (SandboxRunner P (sandbox_runtime_text (cfg_sandbox_runtime s)) (cfg_sandbox_image s)
                  (cfg_sandbox_output_limit_bytes s))) of
            Inl x \<Rightarrow> Inl x
          | Inr runner \<Rightarrow> map_sum id (\<lambda>reg. worker_pool_for P s reg secret)
              (create_registry (pf_tools P) (cfg_database_path s) runner)))"

section \<open>Lemmas\<close>

text \<open>A tool without its handler.\<close>

definition face :: "'x tool_definition \<Rightarrow> string \<times> string \<times> risk_class \<times> (jdict \<Rightarrow> pydantic_error list + jdict) \<times>
    (jdict \<Rightarrow> exn + jdict) \<times> bool \<times> jdict \<times> jdict" where
  "face d = (td_name d, td_description d, td_risk_class d, td_input_model d, td_output_model d, td_idempotent d,
     td_input_schema d, td_output_schema d)"

definition same_tools :: "'x tool_registry \<Rightarrow> 'y tool_registry \<Rightarrow> bool" where
  "same_tools = list_all2 (\<lambda>(k, d) (k', d'). k = k' \<and> face d = face d')"

lemma face_eq: "face d = face d' \<longleftrightarrow> td_name d = td_name d' \<and> td_description d = td_description d' \<and> td_risk_class d = td_risk_class d' \<and>
    td_input_model d = td_input_model d' \<and> td_output_model d = td_output_model d' \<and> td_idempotent d = td_idempotent d' \<and>
    td_input_schema d = td_input_schema d' \<and> td_output_schema d = td_output_schema d'"
  by (simp add: face_def)

lemma face_local [simp]: "face (local_tool d) = face d"
  by (simp add: face_def local_tool_def)

lemma face_proxy [simp]: "face (proxy_definition ctx fresh client d) = face d"
  by (simp add: face_def proxy_definition_def)

lemma same_tools_map: "(\<And>d. face (f d) = face d) \<Longrightarrow> same_tools (map (apsnd f) reg) reg"
  by (simp add: same_tools_def list_all2_map1 list_all2_same case_prod_unfold)

lemma same_tools_get:
  assumes "same_tools reg reg'"
  shows "rel_sum (=) (\<lambda>d d'. face d = face d') (registry_get reg name) (registry_get reg' name)"
proof -
  have "rel_option (\<lambda>d d'. face d = face d') (dict_get reg name) (dict_get reg' name)"
    using assms unfolding same_tools_def by (induction rule: list_all2_induct) auto
  then show ?thesis
    by (cases "dict_get reg name"; cases "dict_get reg' name") (auto simp: registry_get_def)
qed

lemma same_tools_discovery:
  fixes reg :: "'x tool_registry" and reg' :: "'y tool_registry"
  assumes "same_tools reg reg'"
  shows "mcp_list_tools reg = mcp_list_tools reg'"
proof -
  have m: "face d = face d' \<Longrightarrow> mcp_tool d = mcp_tool d'" for d :: "'x tool_definition" and d' :: "'y tool_definition"
    by (simp add: face_eq mcp_tool_def annotations_for_def)
  show ?thesis
    using assms unfolding same_tools_def mcp_list_tools_def list_tools_def by (induction rule: list_all2_induct) (auto dest: m)
qed

lemma same_tools_validate: "same_tools reg reg' \<Longrightarrow> registry_validate reg name a = registry_validate reg' name a"
  using same_tools_get [of reg reg' name]
  by (auto simp: registry_validate_def td_validate_def face_eq rel_sum.simps split: sum.splits)

lemma same_tools_revalidates: "same_tools reg reg' \<Longrightarrow> revalidates reg' \<Longrightarrow> revalidates reg"
  unfolding same_tools_def by (induction rule: list_all2_induct) (auto simp: revalidates_def face_eq)

lemma runtime_registry:
  assumes "create_execution_runtime P s runner = Inr rt"
  obtains reg runner' where "create_registry (pf_tools P) (cfg_database_path s) runner' = Inr reg" "same_tools (er_registry rt) reg"
    "runner' = (if cfg_worker_mode s = RemoteMode then None else runner)"
proof -
  obtain reg where reg: "create_registry (pf_tools P) (cfg_database_path s) (if cfg_worker_mode s = RemoteMode then None else runner) = Inr reg"
    using create_registry_eq by blast
  note proxy = proxy_registry [OF create_registry_wf [OF reg]]
  have "same_tools (er_registry rt) reg"
    using assms reg
    by (cases "cfg_worker_mode s")
      (auto simp: create_execution_runtime_def local_registry_def proxy Let_def intro!: same_tools_map split: option.splits)
  with reg show thesis by (rule that) simp
qed

lemma sandbox_runner_exists: "\<exists>runner. sandbox_runner_for P s = Inr runner \<and> (runner = None \<longleftrightarrow> cfg_environment s = Test \<or> cfg_worker_mode s = RemoteMode)"
  by (cases "cfg_sandbox_runtime s") (simp_all add: sandbox_runner_for_def SandboxRunner_def SandboxRuntime_def)

section \<open>The two state stores\<close>

lemma dispatch_law:
  assumes "update_law ok1 look1 m i upd" and "update_law ok2 look2 r i upd"
  shows "update_law (case_sum ok1 ok2) (case_sum look1 look2) (dispatch m r) i upd"
  unfolding update_law_def
proof (intro allI impI)
  fix s x s' assume ok: "case_sum ok1 ok2 s" and run: "dispatch m r s = (x, s')"
  show "case_sum ok1 ok2 s' \<and> (case x of Inr u \<Rightarrow> applied upd (case_sum look1 look2 s) i (case_sum look1 look2 s')
     | Inl e \<Rightarrow> e = unavailable \<and> (case_sum look1 look2 s' = case_sum look1 look2 s \<or>
         applied upd (case_sum look1 look2 s) i (case_sum look1 look2 s')))"
  proof (cases s)
    case (Inl a)
    with run obtain a' where "m a = (x, a')" "s' = Inl a'" by (auto simp: dispatch_def split: prod.splits)
    with assms(1) ok Inl show ?thesis by (cases x) (auto simp: update_law_def)
  next
    case (Inr b)
    with run obtain b' where "r b = (x, b')" "s' = Inr b'" by (auto simp: dispatch_def split: prod.splits)
    with assms(2) ok Inr show ?thesis by (cases x) (auto simp: update_law_def)
  qed
qed

lemma dispatch_fst: "fst (dispatch m r s) = (case s of Inl a \<Rightarrow> fst (m a) | Inr b \<Rightarrow> fst (r b))"
  by (simp add: dispatch_def split: sum.split prod.split)

lemma dispatch_cases:
  assumes "dispatch m r s = (x, s')"
  obtains a a' where "s = Inl a" "s' = Inl a'" "m a = (x, a')" | b b' where "s = Inr b" "s' = Inr b'" "r b = (x, b')"
  using assms by (cases s) (auto simp: dispatch_def split: prod.splits)

text \<open>The records of either store; the Redis store is sound when no command fails.\<close>

definition any_look :: "'raw redis_config \<Rightarrow> 'raw any_store \<Rightarrow> string \<rightharpoonup> tool_call_record" where
  "any_look rc = case_sum ms_calls (redis_look rc)"

definition any_ok :: "'raw redis_config \<Rightarrow> 'raw any_store \<Rightarrow> bool" where
  "any_ok rc = case_sum (\<lambda>m. True) (redis_quiet rc)"

lemma any_store_reliable:
  assumes "codec_ok rc" and "0 < rc_rounds rc"
  shows "reliable_store (any_store rc) (any_look rc) (any_ok rc)"
proof -
  note R = redis_reliable [OF assms] and L = redis_quiet_laws [OF assms(1)]
  have ops: "ss_create_call (any_store rc) c = dispatch (ss_create_call InMemoryStateStore c) (ss_create_call (RedisStateStore rc) c)"
    "ss_transition (any_store rc) i st e = dispatch (ss_transition InMemoryStateStore i st e) (ss_transition (RedisStateStore rc) i st e)"
    "ss_finish_attempt (any_store rc) i n out e = dispatch (ss_finish_attempt InMemoryStateStore i n out e) (ss_finish_attempt (RedisStateStore rc) i n out e)"
    "ss_start_attempt (any_store rc) i n = dispatch (ss_start_attempt InMemoryStateStore i n) (ss_start_attempt (RedisStateStore rc) i n)"
    "ss_get_call (any_store rc) i = dispatch (ss_get_call InMemoryStateStore i) (ss_get_call (RedisStateStore rc) i)" for c i st e n out
    by (simp_all add: any_store_def Let_def)
  show ?thesis
    unfolding any_look_def any_ok_def
  proof (unfold_locales, unfold ops)
    fix s r x s'
    assume ok: "case_sum (\<lambda>m. True) (redis_quiet rc) s"
      and run: "dispatch (ss_create_call InMemoryStateStore r) (ss_create_call (RedisStateStore rc) r) s = (x, s')"
    from run show "case_sum (\<lambda>m. True) (redis_quiet rc) s' \<and> (case x of
        Inr u \<Rightarrow> case_sum ms_calls (redis_look rc) s' = (case_sum ms_calls (redis_look rc) s)(tc_call_id r \<mapsto> r)
      | Inl e \<Rightarrow> e = unavailable \<and> (case_sum ms_calls (redis_look rc) s' = case_sum ms_calls (redis_look rc) s \<or>
          case_sum ms_calls (redis_look rc) s' = (case_sum ms_calls (redis_look rc) s)(tc_call_id r \<mapsto> r)))"
    proof (cases rule: dispatch_cases)
      case (1 a a')
      with mem.create_law [OF TrueI 1(3)] show ?thesis by (cases x) auto
    next
      case (2 b b')
      with state_store_laws.create_law [OF L _ 2(3)] ok show ?thesis by (cases x) auto
    qed
  next
    fix s i y s'
    assume ok: "case_sum (\<lambda>m. True) (redis_quiet rc) s"
      and run: "dispatch (ss_get_call InMemoryStateStore i) (ss_get_call (RedisStateStore rc) i) s = (y, s')"
    from run show "case_sum (\<lambda>m. True) (redis_quiet rc) s' \<and> case_sum ms_calls (redis_look rc) s' = case_sum ms_calls (redis_look rc) s \<and>
      (case y of Inr v \<Rightarrow> v = case_sum ms_calls (redis_look rc) s i | Inl e \<Rightarrow> e = unavailable)"
    proof (cases rule: dispatch_cases)
      case (1 a a')
      with mem.get_law [OF TrueI 1(3)] show ?thesis by (cases y) auto
    next
      case (2 b b')
      with state_store_laws.get_law [OF L _ 2(3)] ok show ?thesis by (cases y) auto
    qed
  qed (auto intro!: dispatch_law mem.transition_law mem.finish_law mem.start_law
      state_store_laws.transition_law [OF L] state_store_laws.finish_law [OF L] state_store_laws.start_law [OF L]
      mem.create_total mem.transition_total mem.finish_total mem.start_total mem.get_total
      reliable_store.create_total [OF R] reliable_store.transition_total [OF R] reliable_store.finish_total [OF R]
      reliable_store.start_total [OF R] reliable_store.get_total [OF R]
      simp: dispatch_fst split: sum.splits)
qed

section \<open>Properties\<close>


end
