(* ===== verification/Enforcement.thy ===== *)
theory Enforcement
  imports Mediation
begin

text \<open>
  The locale \<open>call_invariant\<close> carries an invariant of the store and the history through a whole call.  It is
  interpreted for the policy decisions in the history, which are answers of the configured policy client, so that
  an authorised execution was permitted by that client and, behind OPA, by the Rego rules; for events that stay
  in the history; and for the soundness of a store.
\<close>

section \<open>Invariants of a call\<close>

text \<open>
  What holds of the state store and the history at the start of a call and is kept by the operations of
  the store, by the answers of the policy client and by the other events, holds at its end.  The other
  parts of the gateway's state do not matter.
\<close>

fun is_decision :: "gw_event \<Rightarrow> bool" where
  "is_decision (EvPolicy inp d) = True"
| "is_decision _ = False"

locale call_invariant =
  fixes G :: "('s, 'q, 'x) gateway" and I :: "'s \<Rightarrow> gw_event list \<Rightarrow> bool"
  assumes event_law: "I s L \<Longrightarrow> \<not> is_decision ev \<Longrightarrow> I s (ev # L)"
    and policy_law: "I s L \<Longrightarrow> pc_evaluate (active_policy_client G) inp x = (Inr d, x') \<Longrightarrow> I s (EvPolicy inp d # L)"
    and create_keeps: "I s L \<Longrightarrow> I (snd (ss_create_call (gc_store G) r s)) L"
    and transition_keeps: "I s L \<Longrightarrow> I (snd (ss_transition (gc_store G) call_id st err s)) L"
    and finish_keeps: "I s L \<Longrightarrow> I (snd (ss_finish_attempt (gc_store G) call_id n out err s)) L"
    and start_keeps: "I s L \<Longrightarrow> I (snd (ss_start_attempt (gc_store G) call_id n s)) L"
    and get_keeps: "I s L \<Longrightarrow> I (snd (ss_get_call (gc_store G) call_id s)) L"
begin

definition inv :: "('s, 'q, 'x) gw \<Rightarrow> bool" where
  "inv g = I (gw_store g) (gw_log g)"

abbreviation invs :: "('s, 'q, 'x) world \<Rightarrow> bool" where
  "invs w \<equiv> inv (fst w)"

lemma inv_keeps: "keeps (\<lambda>w. (gw_store (fst w), gw_log (fst w))) m \<Longrightarrow> stable invs m"
  using stable_keeps [of "\<lambda>w. (gw_store (fst w), gw_log (fst w))" m "\<lambda>(s, L). I s L"] by (simp add: inv_def)

lemma inv_store: "(\<And>s L. I s L \<Longrightarrow> I (snd (m s)) L) \<Longrightarrow> stable invs (on_store m)"
  by (rule stableI) (auto simp: on_store_def inv_def split: prod.splits, metis snd_conv)

lemma inv_event: "\<not> is_decision ev \<Longrightarrow> stable invs (log_event ev)"
  by (auto simp: log_event_def inv_def intro!: stable_modify event_law)

lemma inv_evaluate: "stable invs (evaluate_policy G inp)"
proof (rule stableI)
  fix w r w'
  assume h: "invs w" and run: "evaluate_policy G inp w = (r, w')"
  obtain a x where e: "pc_evaluate (active_policy_client G) inp (gw_outside (fst w)) = (a, x)" by (rule prod.exhaust)
  show "invs w'"
  proof (cases a)
    case (Inl y)
    with h run e show ?thesis
      by (cases w) (auto simp: evaluate_policy_def on_ext_def bind_io_def inv_def)
  next
    case (Inr d)
    with h e have "I (gw_store (fst w)) (EvPolicy inp d # gw_log (fst w))" by (auto simp: inv_def intro: policy_law)
    with run e Inr show ?thesis
      by (cases w) (auto simp: evaluate_policy_def on_ext_def bind_io_def log_event_def modify_io_def ret_def inv_def)
  qed
qed

lemma inv_on:
  "stable invs (on_queue m2)" "stable invs (on_ext m3)" "stable invs (on_cp m4)" "stable invs (on_audit m5)"
  "stable invs (set_locals f)" "stable invs locals" "stable invs uuid4" "stable invs utc_now" "stable invs monotonic"
  by (auto intro!: inv_keeps keeps_rules)

lemmas inv_ops = inv_store [OF transition_keeps] inv_store [OF finish_keeps] inv_store [OF start_keeps]
  inv_store [OF get_keeps]

lemmas inv_steps = stable_rules inv_on inv_ops inv_event inv_evaluate

lemma inv_other_parts [simp]: "inv (g\<lparr>gw_outside := x\<rparr>) = inv g" "inv (g\<lparr>gw_locals := l\<rparr>) = inv g"
  by (simp_all add: inv_def)

lemma inv_phases:
  shows "stable invs (validate_phase G e)" and "stable invs (policy_phase G e request)"
    and "stable invs (execute_attempt G e d a)" and "stable invs (repair_arguments G e d a diag)"
    and "stable invs (write_audit G e outcome)" and "stable invs (fail_call G e err)"
proof -
  show "stable invs (repair_arguments G e d a diag)"
    by (auto simp: repair_arguments_def propose_repair_def intro!: inv_steps split: sum.splits option.splits)
  show "stable invs (validate_phase G e)"
    by (auto simp: validate_phase_def validate_request_def propose_repair_def Let_def intro!: inv_steps split: sum.splits option.splits)
  show "stable invs (policy_phase G e request)"
    by (auto simp: policy_phase_def await_approval_def record_denial_def Let_def intro!: inv_steps split: option.splits)
  show "stable invs (execute_attempt G e d a)"
    by (auto simp: execute_attempt_def attempt_body_def run_tool_def recheck_policy_def Let_def
        intro!: inv_steps split: exn.splits)
  show audit: "stable invs (write_audit G e outcome)" for outcome
    by (auto simp: write_audit_def audited_attempts_def intro!: inv_steps)
  show "stable invs (fail_call G e err)"
    by (auto simp: fail_call_def intro!: inv_steps audit)
qed

lemma inv_loop:
  "stable invs (run (RepairLoop p) a (execute_attempt G e d) ctx
      (case gc_repair_advisor G of None \<Rightarrow> None | Some adv \<Rightarrow> Some (repair_arguments G e d)))"
proof -
  have "hoare invs (run (RepairLoop p) a (execute_attempt G e d) ctx
      (case gc_repair_advisor G of None \<Rightarrow> None | Some adv \<Rightarrow> Some (repair_arguments G e d)))
    (\<lambda>(x, n). invs) (\<lambda>x. invs)"
  proof (rule scripted.run_hoare [where I = "\<lambda>n a. inv" and Q = "\<lambda>n x. inv" and R = "\<lambda>n a x. inv" and E = "\<lambda>x. inv"])
    fix f n cur x
    assume "(case gc_repair_advisor G of None \<Rightarrow> None | Some adv \<Rightarrow> Some (repair_arguments G e d)) = Some f"
    then have "stable invs (f cur (diagnose x))" by (auto split: option.splits intro: inv_phases)
    from stable_hoare [OF this]
    show "hoare invs (f cur (diagnose x)) (\<lambda>cur' w. invs w \<and> invs w) (\<lambda>x. invs)"
      by (rule hoare_post) auto
  qed (auto intro: stable_hoare inv_phases)
  then show ?thesis by (intro hoare_stable) (auto elim!: hoare_post)
qed

lemma inv_settle: "stable invs (settle_call G e)" "stable invs (execution_phase G e request d)"
  unfolding settle_call_def process_call_def execution_phase_def
  by (auto intro!: inv_steps inv_phases inv_loop split: exn.splits)

text \<open>The whole call.\<close>

lemma inv_call:
  assumes "execute_tool_call G trace session name arguments who w = (r, w')" and "invs w"
  shows "invs w'"
proof -
  have "keeps (\<lambda>w. (gw_store (fst w), gw_log (fst w))) (persist_call G e c)" for e c
    by (auto simp: persist_call_def intro!: keeps_rules)
  then have "stable invs (persist_call G e c)" for e c by (rule inv_keeps)
  then have "stable invs (execute_tool_call G trace session name arguments who)"
    unfolding execute_tool_call_def Let_def
    by (auto intro!: inv_steps inv_store [OF create_keeps] inv_settle)
  then show ?thesis using assms by (blast dest: stableD)
qed

end

section \<open>Decisions are answers of the client\<close>

definition answered :: "'x policy_client \<Rightarrow> gw_event \<Rightarrow> bool" where
  "answered C ev = (case ev of
       EvPolicy inp d \<Rightarrow> \<exists>x x'. pc_evaluate C inp x = (Inr d, x')
     | _ \<Rightarrow> True)"

text \<open>The history since \<open>L0\<close> holds only decisions that are answers.\<close>

definition honest :: "'x policy_client \<Rightarrow> gw_event list \<Rightarrow> gw_event list \<Rightarrow> bool" where
  "honest C L0 L = (\<exists>h. L = h @ L0 \<and> list_all (answered C) h)"

lemma honest_Cons: "honest C L0 L \<Longrightarrow> answered C ev \<Longrightarrow> honest C L0 (ev # L)"
  unfolding honest_def by (metis append_Cons list.pred_inject(2))

interpretation decisions: call_invariant G "\<lambda>s. honest (active_policy_client G) L0" for G :: "('s, 'q, 'x) gateway" and L0
proof unfold_locales
  fix L ev assume "honest (active_policy_client G) L0 L" and "\<not> is_decision ev"
  then show "honest (active_policy_client G) L0 (ev # L)" by (intro honest_Cons; cases ev) (auto simp: answered_def)
next
  fix L inp x d x' assume "honest (active_policy_client G) L0 L" and "pc_evaluate (active_policy_client G) inp x = (Inr d, x')"
  then show "honest (active_policy_client G) L0 (EvPolicy inp d # L)" by (intro honest_Cons) (auto simp: answered_def)
qed

text \<open>Every policy decision that a call adds to the history is an answer of the client.\<close>

lemma call_honest:
  assumes "execute_tool_call G trace session name arguments who w = (r, w')"
  shows "\<exists>new. gw_log (fst w') = new @ gw_log (fst w) \<and> list_all (answered (active_policy_client G)) new"
  using decisions.inv_call [OF assms, of "gw_log (fst w)"] by (simp add: decisions.inv_def honest_def)

section \<open>Events stay in the history, and the store stays sound\<close>

interpretation recorded: call_invariant G "\<lambda>s L. ev \<in> set L" for G :: "('s, 'q, 'x) gateway" and ev
  by unfold_locales auto

lemma sound_store:
  assumes "state_store_laws (gc_store G) look ok"
  shows "call_invariant G (\<lambda>s L. ok s)"
proof -
  have "update_law ok look m i upd \<Longrightarrow> ok s \<Longrightarrow> ok (snd (m s))" for m i upd s
    by (cases "m s") (auto simp: update_law_def)
  note upd = this [OF state_store_laws.transition_law [OF assms]] this [OF state_store_laws.finish_law [OF assms]]
    this [OF state_store_laws.start_law [OF assms]]
  have "ok s \<Longrightarrow> ok (snd (ss_create_call (gc_store G) r s))" for r s
    using state_store_laws.create_law [OF assms, of s r] by (cases "ss_create_call (gc_store G) r s") simp
  moreover have "ok s \<Longrightarrow> ok (snd (ss_get_call (gc_store G) i s))" for i s
    using state_store_laws.get_law [OF assms, of s i] by (cases "ss_get_call (gc_store G) i s") simp
  ultimately show ?thesis by unfold_locales (auto intro: upd)
qed

lemma call_keeps_store:
  assumes "state_store_laws (gc_store G) look ok" and "ok (gw_store (fst w))"
    and "execute_tool_call G trace session name arguments who w = (r, w')"
  shows "ok (gw_store (fst w'))"
  using call_invariant.inv_call [OF sound_store [OF assms(1)] assms(3)] assms(2)
  by (simp add: call_invariant.inv_def [OF sound_store [OF assms(1)]])

section \<open>Permission by the Rego rules\<close>

text \<open>The Rego policy allows the call of this principal, or it requires an approval and there is one.\<close>

definition permitted :: "'x tool_registry \<Rightarrow> principal option \<Rightarrow> string \<Rightarrow> jdict \<Rightarrow> gw_event list \<Rightarrow> bool" where
  "permitted reg who name a h = (case registry_get reg name of
       Inl x \<Rightarrow> False
     | Inr d \<Rightarrow> (case rego_decision (policy_input_for name who d a) of
         None \<Rightarrow> False
       | Some dec \<Rightarrow> pd_outcome dec = ALLOW \<or> pd_outcome dec = REQUIRES_APPROVAL \<and> approved_in name a h))"

text \<open>A client whose answers are the decisions of the policy; it may also fail.\<close>

definition rego_client :: "'x policy_client \<Rightarrow> bool" where
  "rego_client C = (\<forall>inp x d x'. pc_evaluate C inp x = (Inr d, x') \<longrightarrow> rego_decision inp = Some d)"

lemma authorised_permitted:
  assumes "rego_client C" and "list_all (answered C) h" and "authorised reg who name a h"
  shows "permitted reg who name a h"
proof -
  obtain d where d: "registry_get reg name = Inr d" using assms(3) by (auto simp: authorised_def split: sum.splits)
  with assms(3) obtain dec where ev: "EvPolicy (policy_input_for name who d a) dec \<in> set h"
    and out: "pd_outcome dec = ALLOW \<or> pd_outcome dec = REQUIRES_APPROVAL \<and> approved_in name a h"
  proof -
    from assms(3) d obtain ev where e: "ev \<in> set h" "case ev of EvPolicy inp d' \<Rightarrow> inp = policy_input_for name who d a \<and>
        (pd_outcome d' = ALLOW \<or> pd_outcome d' = REQUIRES_APPROVAL \<and> approved_in name a h) | _ \<Rightarrow> False"
      by (auto simp: authorised_def list_ex_iff)
    show thesis by (cases ev) (use that e in auto)
  qed
  from ev assms(1,2) have "rego_decision (policy_input_for name who d a) = Some dec"
    by (fastforce simp: list_all_iff answered_def rego_client_def)
  with d out show ?thesis by (simp add: permitted_def)
qed

lemma call_permitted:
  assumes "revalidates (gc_registry G)"
    and "\<And>Q. gc_approval_queue G = Some Q \<Longrightarrow> approval_queue_laws Q qlook qok"
    and "qok (gw_queue (fst w))"
    and "gc_repair_advisor G = None \<or> reliable_store (gc_store G) slook sok \<and> sok (gw_store (fst w))"
    and "rego_client (active_policy_client G)"
    and "execute_tool_call G trace session name arguments who w = (r, w')"
  shows "\<exists>new. gw_log (fst w') = new @ gw_log (fst w) \<and> mediated (gc_registry G) who new \<and>
    list_all (answered (active_policy_client G)) new \<and> qok (gw_queue (fst w'))"
  using call_mediated [OF assms(1-4,6)] call_honest [OF assms(6)] by auto

text \<open>What the policy sees of a principal.\<close>

lemma elevated_roles:
  "caller_elevated (policy_input_for name (Some p) d a) \<longleftrightarrow> p_tenant_id p \<noteq> [] \<and> (OPERATOR \<in> set (p_roles p) \<or> ADMIN \<in> set (p_roles p))"
proof -
  have "role_value r \<in> {''operator'', ''admin''} \<longleftrightarrow> r = OPERATOR \<or> r = ADMIN" for r by (cases r) auto
  then have "list_ex (\<lambda>v. v \<in> set (map JStr [''operator'', ''admin''])) (map (\<lambda>r. JStr (role_value r)) rs) \<longleftrightarrow>
      OPERATOR \<in> set rs \<or> ADMIN \<in> set rs" for rs
    by (induction rs) auto
  then show ?thesis
    by (simp add: caller_elevated_def role_among_def principal_ref_def truthy_ref_def policy_input_for_def dump_principal_def
        json_members_def comp_def)
qed

lemma risk_of_input: "risk_is (policy_input_for name who d a) (risk_value c) \<longleftrightarrow> td_risk_class d = c"
  by (cases c; cases "td_risk_class d") (simp_all add: risk_is_def policy_input_for_def)

text \<open>Without an elevated role only read-only tools run, on arguments that are not recognised as destructive.\<close>

lemma unprivileged_reads:
  assumes "permitted reg (Some p) name a h" and "OPERATOR \<notin> set (p_roles p)" and "ADMIN \<notin> set (p_roles p)"
  shows "\<exists>d. registry_get reg name = Inr d \<and> td_risk_class d = READ_ONLY \<and> \<not> destructive (policy_input_for name (Some p) d a)"
proof -
  obtain d where d: "registry_get reg name = Inr d" using assms(1) by (auto simp: permitted_def split: sum.splits)
  let ?inp = "policy_input_for name (Some p) d a"
  have "\<not> caller_elevated ?inp" using assms by (simp add: elevated_roles)
  with assms(1) d have "risk_is ?inp ''read_only'' \<and> \<not> destructive ?inp"
    by (auto simp: permitted_def rego_decision_cases rego_rules_def rego_default_def ALLOW_def REQUIRES_APPROVAL_def split: if_splits)
  with d risk_of_input [of name "Some p" d a READ_ONLY] show ?thesis by simp
qed

end
