(* ===== verification/Delivery.thy ===== *)
theory Delivery
  imports Lifecycle Enforcement
begin

text \<open>
  Calls that come through.  The mediation and lifecycle theorems say what a call may not do; here a
  call that the policy permits and whose handler returns is followed to its end: it is answered with
  the handler's output.  The triples are total (no exception is allowed), on a reliable store and
  without a control plane, whose database may refuse a call.
\<close>

section \<open>Audit records are no obstacle\<close>

lemma audit_append_raises: "hoare (\<lambda>s. True) (audit_append C f) (\<lambda>r s. True) (\<lambda>x s. is_exception x)"
  by (auto simp: hoare_def audit_append_def append_sync_def Let_def split: write_fate.splits option.splits)

lemma bind_io_ret_right: "bind_io m ret = m"
  by (auto simp: bind_io_def ret_def fun_eq_iff split: prod.splits sum.splits)

lemma hoare_value: "hoare P (f v) Q E \<Longrightarrow> hoare (\<lambda>w. r = v \<and> P w) (f r) Q E"
  by (auto simp: hoare_def)

lemma hoare_snd: "hoare P m (\<lambda>r. Q) (\<lambda>z. Q) \<Longrightarrow> P w \<Longrightarrow> Q (snd (m w))"
  by (cases "m w"; cases "fst (m w)") (auto simp: hoare_def)

section \<open>An attempt that succeeds is the only one\<close>

lemma run_first:
  fixes P :: "'g \<times> loop_env \<Rightarrow> bool"
  assumes "hoare P (ex a) Q (\<lambda>x w. False)" and "\<And>g t n. P (g, t) \<Longrightarrow> P (g, t\<lparr>le_ticks := n\<rparr>)"
  shows "hoare P (run (RepairLoop p) a ex ctx rep) (\<lambda>v. Q (fst v)) E"
proof -
  have "\<exists>r w1. run (RepairLoop p) a ex ctx rep w = (Inr (r, 1), w1) \<and> Q r w1" if P: "P w" for w
  proof -
    obtain g t where w: "w = (g, t)" by (rule prod.exhaust)
    from P w assms(2) have "P (g, t\<lparr>le_ticks := Suc (le_ticks t)\<rparr>)" by blast
    with assms(1) show ?thesis
    proof (cases rule: hoare_cases)
      case (ret r w1)
      then show ?thesis
        by (simp add: w run_def RepairLoop_def run_from.simps)
    qed simp
  qed
  then show ?thesis by (fastforce simp: hoare_def)
qed

context lifecycle_call
begin

text \<open>The record of the call is in one of the states \<open>X\<close>, nothing has been attempted, and the history,
  the approval queue and the outside world are these.\<close>

definition site :: "tool_call_state set \<Rightarrow> gw_event list \<Rightarrow> 'q \<Rightarrow> 'x \<Rightarrow> ('s, 'q, 'x) world \<Rightarrow> bool" where
  "site X L q x w = (stands X {} w \<and> gw_log (fst w) = L \<and> gw_queue (fst w) = q \<and> gw_outside (fst w) = x \<and>
     latest (fst w) = 1)"

lemma site_quiet:
  assumes "hoare (stands X {}) m (\<lambda>v. stands Y {}) (\<lambda>y w. False)"
    and "keeps (\<lambda>w. (gw_log (fst w), gw_queue (fst w), gw_outside (fst w), latest (fst w))) m"
  shows "hoare (site X L q x) m (\<lambda>v. site Y L q x) E"
  by (rule hoare_weaken [OF hoare_frame [OF assms, where F = "\<lambda>(l, p, y, n). l = L \<and> p = q \<and> y = x \<and> n = 1"]])
    (auto simp: site_def)

lemma site_transition:
  "(\<And>c. c \<in> X \<Longrightarrow> may_follow c s) \<Longrightarrow>
   hoare (site X L q x) (on_store (ss_transition (gc_store G) (ce_call_id e) s err)) (\<lambda>u. site {s} L q x) E"
  by (rule site_quiet [OF transition_stands]) (auto intro!: keeps_rules)

lemma site_locals:
  "(\<And>l. cl_last_finished_attempt (f l) = cl_last_finished_attempt l \<and> cl_latest_attempt (f l) = cl_latest_attempt l) \<Longrightarrow>
   hoare (site X L q x) (set_locals f) (\<lambda>u. site X L q x) E"
  by (rule site_quiet [OF set_locals_stands]) (auto intro!: keeps_rules)

lemma site_log: "hoare (site X L q x) (log_event ev) (\<lambda>u. site X (ev # L) q x) E"
  by (auto simp: log_event_def site_def stand_def intro!: hoare_modify)

lemma site_ext: "m x = (Inr v, y) \<Longrightarrow> hoare (site X L q x) (on_ext m) (\<lambda>r w. r = v \<and> site X L q y w) E"
  by (auto simp: hoare_def on_ext_def site_def stand_def)

lemma site_queue: "m q = (Inr v, p) \<Longrightarrow> hoare (site X L q x) (on_queue m) (\<lambda>r w. r = v \<and> site X L p x w) E"
  by (auto simp: hoare_def on_queue_def site_def stand_def)

subsection \<open>The phases\<close>

lemma validate_delivers:
  "registry_validate (gc_registry G) (ce_tool_name e) (call_arguments e) = Inr request \<Longrightarrow>
   hoare (site {RECEIVED} L q x) (validate_phase G e) (\<lambda>r w. r = request \<and> site {VALIDATED} L q x w) E"
  unfolding validate_phase_def validate_request_def
  by (auto intro!: hoare_bind [OF site_transition] hoare_ret)

text \<open>The identifier and the time the next approval request gets.\<close>

abbreviation fresh :: "('s, 'q, 'x) world \<Rightarrow> string \<times> timestamp" where
  "fresh w \<equiv> (gw_uid (fst w) (gw_uids (fst w)), gw_clock (fst w) (gw_ticks (fst w)))"

text \<open>The steps of \<open>await_approval\<close> up to the wait: the request is submitted.\<close>

lemma await_submits:
  assumes Q: "gc_approval_queue G = Some Q" and cp: "\<not> gc_control_plane G"
    and appr: "appr = create_approval_request uid now (ce_call_id e) (ce_tool_name e) request inp (pd_matched_rule dec)"
    and submit: "aq_submit Q appr q = (Inr (), q1)"
    and rest: "hoare (site {AWAITING_APPROVAL} (EvSubmitted appr # L) q1 x)
      (bind_io (catch_io (on_queue (aq_wait Q uid)) (\<lambda>z. if approval_refused z
          then bind_io (record_denial G e (pd_reason dec)) (\<lambda>u. raise_io z) else raise_io z)) (\<lambda>resolved.
       bind_io (log_event (EvReleased uid resolved)) (\<lambda>u.
       set_locals (\<lambda>l. l\<lparr>cl_approver_identity := ap_approver resolved\<rparr>)))) P E"
  shows "hoare (\<lambda>w. site {POLICY_CHECKED} L q x w \<and> fresh w = (uid, now)) (await_approval G e request inp dec) P E"
proof -
  have clocks: "hoare (\<lambda>w. site X L q x w \<and> fresh w = (uid, now)) uuid4
      (\<lambda>u w. u = uid \<and> (site X L q x w \<and> gw_clock (fst w) (gw_ticks (fst w)) = now)) E"
    "hoare (\<lambda>w. site X L q x w \<and> gw_clock (fst w) (gw_ticks (fst w)) = now) utc_now
      (\<lambda>t w. t = now \<and> site X L q x w) E" for X L q x E
    by (auto simp: hoare_def uuid4_def utc_now_def site_def stand_def)
  show ?thesis
    unfolding await_approval_def Q option.case Let_def
    apply (rule hoare_bind [OF clocks(1)], rule hoare_fact, erule conjunct1, simp)
    apply (rule hoare_bind [OF clocks(2)], rule hoare_fact, erule conjunct1, simp add: cp when_io_def flip: appr)
    apply (rule hoare_bind [OF site_transition], simp)
    apply (rule hoare_bind [OF site_queue [of "aq_submit Q appr", OF submit]], simp)
    apply (rule hoare_bind [OF site_log])
    apply (simp only: bind_io_ret_right rest)
    done
qed

lemma await_delivers:
  assumes "gc_approval_queue G = Some Q" "\<not> gc_control_plane G"
    "appr = create_approval_request uid now (ce_call_id e) (ce_tool_name e) request inp (pd_matched_rule dec)"
    "aq_submit Q appr q = (Inr (), q1)" and wait: "aq_wait Q uid q1 = (Inr res, q2)"
  shows "hoare (\<lambda>w. site {POLICY_CHECKED} L q x w \<and> fresh w = (uid, now)) (await_approval G e request inp dec)
    (\<lambda>u. site {AWAITING_APPROVAL} (EvReleased uid res # EvSubmitted appr # L) q2 x) E"
proof (rule await_submits [OF assms(1-4)])
  have waited: "hoare (site X L q1 x) (catch_io (on_queue (aq_wait Q uid)) h) (\<lambda>r w. r = res \<and> site X L q2 x w) E"
    for X L x h E
    by (rule hoare_catch [OF site_queue [of "aq_wait Q uid", OF wait, where E = "\<lambda>x w. False"]]) (simp add: hoare_def)
  show "hoare (site {AWAITING_APPROVAL} (EvSubmitted appr # L) q1 x)
      (bind_io (catch_io (on_queue (aq_wait Q uid)) (\<lambda>z. if approval_refused z
          then bind_io (record_denial G e (pd_reason dec)) (\<lambda>u. raise_io z) else raise_io z)) (\<lambda>resolved.
       bind_io (log_event (EvReleased uid resolved)) (\<lambda>u.
       set_locals (\<lambda>l. l\<lparr>cl_approver_identity := ap_approver resolved\<rparr>))))
      (\<lambda>u. site {AWAITING_APPROVAL} (EvReleased uid res # EvSubmitted appr # L) q2 x) E"
    by (rule hoare_bind [OF waited], rule hoare_value, rule hoare_bind [OF site_log], rule site_locals) simp
qed

lemma denial_site:
  "X \<subseteq> {POLICY_CHECKED, AWAITING_APPROVAL} \<Longrightarrow>
   hoare (site X L q x) (bind_io (record_denial G e reason) (\<lambda>u. raise_io z)) Q
     (\<lambda>y w. y = z \<and> site {DENIED} L q x w)"
  by (rule hoare_bind [OF site_quiet [OF denial_stands]])
    (auto simp: record_denial_def intro!: keeps_rules hoare_raise)

lemma await_refuses:
  assumes "gc_approval_queue G = Some Q" "\<not> gc_control_plane G"
    "appr = create_approval_request uid now (ce_call_id e) (ce_tool_name e) request inp (pd_matched_rule dec)"
    "aq_submit Q appr q = (Inr (), q1)" and wait: "aq_wait Q uid q1 = (Inl z, q2)" and z: "approval_refused z"
  shows "hoare (\<lambda>w. site {POLICY_CHECKED} L q x w \<and> fresh w = (uid, now)) (await_approval G e request inp dec)
    (\<lambda>u w. False) (\<lambda>y w. y = z \<and> site {DENIED} (EvSubmitted appr # L) q2 x w)"
proof (rule await_submits [OF assms(1-4)])
  have raised: "hoare (site X L q1 x) (on_queue (aq_wait Q uid)) (\<lambda>r w. False) (\<lambda>y w. y = z \<and> site X L q2 x w)" for X L x
    using wait by (auto simp: hoare_def on_queue_def site_def stand_def)
  show "hoare (site {AWAITING_APPROVAL} (EvSubmitted appr # L) q1 x)
      (bind_io (catch_io (on_queue (aq_wait Q uid)) (\<lambda>z. if approval_refused z
          then bind_io (record_denial G e (pd_reason dec)) (\<lambda>u. raise_io z) else raise_io z)) (\<lambda>resolved.
       bind_io (log_event (EvReleased uid resolved)) (\<lambda>u.
       set_locals (\<lambda>l. l\<lparr>cl_approver_identity := ap_approver resolved\<rparr>))))
      (\<lambda>u w. False) (\<lambda>y w. y = z \<and> site {DENIED} (EvSubmitted appr # L) q2 x w)"
    apply (rule hoare_bind [where R = "\<lambda>r w. False"])
     apply (rule hoare_catch [OF raised], rule hoare_value, simp only: z if_True)
     apply (rule denial_site, simp)
    apply (simp add: hoare_def)
    done
qed

text \<open>The steps of \<open>policy_phase\<close> up to the evaluation, which may also fail.\<close>

lemma fresh_frame:
  assumes "hoare P m R (\<lambda>z w. False)" "keeps fresh m"
  shows "hoare (\<lambda>w. P w \<and> fresh w = f) m (\<lambda>v w. R v w \<and> fresh w = f) E"
  by (rule hoare_post [OF hoare_frame [OF assms, where F = "\<lambda>v. v = f"]]) auto

lemma policy_evaluates:
  assumes d: "registry_get (gc_registry G) (ce_tool_name e) = Inr d"
    and inp: "inp = policy_input_for (ce_tool_name e) (ce_principal e) d request"
    and eval: "hoare (\<lambda>w. site {VALIDATED} L q x w \<and> fresh w = f) (evaluate_policy G inp)
      (\<lambda>r w. r = dec \<and> (site {VALIDATED} L' q y w \<and> fresh w = f)) E"
    and decide: "hoare (\<lambda>w. site {POLICY_CHECKED} L' q y w \<and> fresh w = f)
     (if pd_outcome dec = REQUIRES_APPROVAL then await_approval G e request inp dec
      else if pd_outcome dec \<noteq> ALLOW
      then bind_io (record_denial G e (pd_reason dec)) (\<lambda>u. raise_io (GatewayExn (PolicyDeniedError (pd_reason dec))))
      else ret ()) (\<lambda>u. Q) E"
  shows "hoare (\<lambda>w. site {VALIDATED} L q x w \<and> fresh w = f) (policy_phase G e request) (\<lambda>r w. r = d \<and> Q w) E"
proof -
  have get: "lift_res (registry_get (gc_registry G) (ce_tool_name e)) = ret d"
    by (simp add: d lift_res_def ret_def)
  show ?thesis
    unfolding policy_phase_def Let_def get bind_io_ret inp [symmetric]
    apply (rule hoare_bind [OF fresh_frame [OF site_locals]], simp, (auto intro!: keeps_rules)[1])
    apply (rule hoare_bind [OF eval], rule hoare_value)
    apply (rule hoare_bind [OF fresh_frame [OF site_locals]], simp, (auto intro!: keeps_rules)[1])
    apply (rule hoare_bind [OF fresh_frame [OF site_transition]], simp, (auto intro!: keeps_rules)[1])
    apply (rule hoare_bind [OF decide])
    apply (auto intro: hoare_ret)
    done
qed

lemma policy_answers:
  assumes policy: "pc_evaluate (active_policy_client G) inp x = (Inr dec, y)"
  shows "hoare (\<lambda>w. site X L q x w \<and> fresh w = f) (evaluate_policy G inp)
    (\<lambda>r w. r = dec \<and> (site X (EvPolicy inp dec # L) q y w \<and> fresh w = f)) E"
proof -
  have "hoare (site X L q x) (evaluate_policy G inp) (\<lambda>r w. r = dec \<and> site X (EvPolicy inp dec # L) q y w) (\<lambda>z w. False)"
    unfolding evaluate_policy_def
    by (rule hoare_bind [OF site_ext [of "pc_evaluate (active_policy_client G) inp", OF policy]],
        rule hoare_value, rule hoare_bind [OF site_log]) (auto intro: hoare_ret)
  then show ?thesis
    by (rule hoare_post [OF fresh_frame]) (auto simp: evaluate_policy_def intro!: keeps_rules)
qed

lemmas policy_delivers = policy_evaluates [OF _ _ policy_answers]

lemma policy_fails:
  assumes "registry_get (gc_registry G) (ce_tool_name e) = Inr d"
    "inp = policy_input_for (ce_tool_name e) (ce_principal e) d request"
    and policy: "pc_evaluate (active_policy_client G) inp x = (Inl z, y)"
  shows "hoare (\<lambda>w. site {VALIDATED} L q x w \<and> fresh w = f) (policy_phase G e request) (\<lambda>r w. False)
    (\<lambda>v w. v = z \<and> site {VALIDATED} L q y w)"
proof -
  have raised: "hoare (\<lambda>w. site {VALIDATED} L q x w \<and> fresh w = f) (evaluate_policy G inp)
      (\<lambda>r w. False) (\<lambda>v w. v = z \<and> site {VALIDATED} L q y w)"
    using policy by (auto simp: evaluate_policy_def bind_io_def hoare_def on_ext_def site_def stand_def)
  have get: "lift_res (registry_get (gc_registry G) (ce_tool_name e)) = ret d"
    by (simp add: assms(1) lift_res_def ret_def)
  show ?thesis
    unfolding policy_phase_def Let_def get bind_io_ret assms(2) [symmetric]
    apply (rule hoare_bind [OF fresh_frame [OF site_locals]], simp, (auto intro!: keeps_rules)[1])
    apply (rule hoare_bind [OF raised], simp add: hoare_def)
    done
qed

subsection \<open>The execution\<close>

abbreviation call_context :: "(string \<times> string) option" where
  "call_context \<equiv> Some (ce_call_id e, case ce_principal e of Some p \<Rightarrow> p_tenant_id p | None \<Rightarrow> ''local'')"

text \<open>What the handler's success leaves behind.\<close>

definition served :: "tool_call_state \<Rightarrow> gw_event list \<Rightarrow> 'q \<Rightarrow> 'x \<Rightarrow> ('s, 'q, 'x) world \<Rightarrow> bool" where
  "served st L q x w = (stands {st} {} w \<and> gw_log (fst w) = L \<and> gw_queue (fst w) = q \<and> gw_outside (fst w) = x)"

lemma site_served: "site {st} L q x w \<Longrightarrow> served st L q x w"
  by (simp add: site_def served_def)

lemma served_quiet:
  assumes "hoare (stands {st} {}) m (\<lambda>v. stands {st'} {}) (\<lambda>y w. False)"
    and "keeps (\<lambda>w. (gw_log (fst w), gw_queue (fst w), gw_outside (fst w))) m"
  shows "hoare (served st L q x) m (\<lambda>v. served st' L q x) E"
  by (rule hoare_weaken [OF hoare_frame [OF assms, where F = "\<lambda>(l, p, y). l = L \<and> p = q \<and> y = x"]])
    (auto simp: served_def)

lemma attempt_delivers:
  assumes valid: "registry_validate (gc_registry G) (ce_tool_name e) a = Inr validated"
    and handler: "registry_execute_validated (gc_registry G) (ce_tool_name e) validated (gc_set_context G call_context x)
      = (Inr out, y)"
    and X: "X \<subseteq> {POLICY_CHECKED, AWAITING_APPROVAL}"
  shows "hoare (site X L q x) (execute_attempt G e d a)
    (\<lambda>r w. r = out \<and> served EXECUTING (EvExecuted (ce_tool_name e) validated # L) q (gc_set_context G None y) w) E"
proof -
  have lift: "lift_res (registry_validate (gc_registry G) (ce_tool_name e) a) = ret validated"
    by (simp add: valid lift_res_def ret_def)
  have tool: "hoare (site {EXECUTING} L q x) (run_tool G e a)
      (\<lambda>r w. r = out \<and> site {EXECUTING} (EvExecuted (ce_tool_name e) validated # L) q (gc_set_context G None y) w) E" for E
    unfolding run_tool_def lift bind_io_ret
    apply (rule hoare_bind [OF site_log])
    apply (rule hoare_bind [where R = "\<lambda>u. site {EXECUTING} (EvExecuted (ce_tool_name e) validated # L) q (gc_set_context G call_context x)"])
     apply (auto simp: site_def stand_def intro!: hoare_modify)[1]
    apply (rule hoare_finally)
    apply (rule hoare_weaken [OF site_ext [of "registry_execute_validated (gc_registry G) (ce_tool_name e) validated", OF handler]])
       apply (auto simp: site_def stand_def)
    done
  have body: "hoare (site {EXECUTING} L q x) (attempt_body G e d 1 a)
      (\<lambda>r w. r = out \<and> site {EXECUTING} (EvExecuted (ce_tool_name e) validated # L) q (gc_set_context G None y) w) E" for E
    unfolding attempt_body_def
    apply (rule hoare_catch [where R = "\<lambda>x w. False"])
     apply (simp add: when_io_def)
     apply (rule hoare_bind [OF tool], rule hoare_value)
     apply (rule hoare_bind [OF site_quiet [OF finish_stands]])
       apply (auto intro!: keeps_rules)[2]
     apply (rule hoare_ret, simp)
    apply (simp add: hoare_def)
    done
  show ?thesis
    unfolding execute_attempt_def Let_def
    apply (rule hoare_bind [where R = "\<lambda>l w. cl_latest_attempt l = 1 \<and> site X L q x w"])
     apply (auto simp: locals_def site_def intro!: hoare_gets)[1]
    apply (rule hoare_fact, erule conjunct1, simp add: when_io_def)
    apply (rule hoare_bind [OF site_transition])
    subgoal using X by auto
    apply (rule hoare_finally, rule hoare_weaken [OF body [unfolded One_nat_def]])
       apply (auto simp: site_def served_def stand_def fit_def elim!: holds_mono)
    done
qed

lemma audit_delivers:
  assumes "\<not> gc_control_plane G"
  shows "hoare (served st L q x) (write_audit G e out) (\<lambda>u. served st L q x) E"
proof (rule served_quiet)
  have attempts: "hoare (stands {st} {}) (audited_attempts G e) (\<lambda>v. stands {st} {}) (\<lambda>y w. False)"
    unfolding audited_attempts_def
    apply (rule hoare_catch [where R = "\<lambda>y w. False"])
     apply (rule hoare_bind [OF get_stands])
     apply (auto simp: assms when_io_def intro!: hoare_ret split: option.split)[1]
    apply (simp add: hoare_def)
    done
  have append: "hoare (stands {st} {}) (except_exception (bind_io (on_audit (audit_append codec f)) (\<lambda>r. ret ())) (ret ()))
      (\<lambda>v. stands {st} {}) (\<lambda>y w. False)" for codec f
    unfolding except_exception_def
    apply (rule hoare_catch [where R = "\<lambda>y w. is_exception y \<and> stands {st} {} w"])
     apply (rule hoare_bind [where R = "\<lambda>v. stands {st} {}"])
      apply (use audit_append_raises [of codec f] in \<open>auto simp: hoare_def on_audit_def stand_def split: prod.splits sum.splits\<close>)[1]
     apply (rule hoare_ret, assumption)
    apply (rule hoare_fact, erule conjunct1, simp)
    apply (rule hoare_ret, simp)
    done
  show "hoare (stands {st} {}) (write_audit G e out) (\<lambda>v. stands {st} {}) (\<lambda>y w. False)"
    unfolding write_audit_def
    by (auto intro!: hoare_ret hoare_bind [OF attempts] hoare_bind [OF quiet_stands(1)] hoare_bind [OF quiet_stands(2)] append
        split: option.split)
qed (auto intro!: keeps_rules)

lemma execution_delivers:
  assumes "registry_validate (gc_registry G) (ce_tool_name e) request = Inr validated"
    and "registry_execute_validated (gc_registry G) (ce_tool_name e) validated (gc_set_context G call_context x) = (Inr out, y)"
    and "X \<subseteq> {POLICY_CHECKED, AWAITING_APPROVAL}" and cp: "\<not> gc_control_plane G"
  shows "hoare (site X L q x) (execution_phase G e request d)
    (\<lambda>r w. r = tool_result out False \<and>
       served SUCCEEDED (EvExecuted (ce_tool_name e) validated # L) q (gc_set_context G None y) w) E"
  unfolding execution_phase_def
  apply (rule hoare_bind [OF run_first [where ex = "execute_attempt G e d" and a = request,
      OF attempt_delivers [OF assms(1-3)]]])
   apply (simp add: site_def)
  subgoal for v
    apply (rule hoare_fact, erule conjunct1)
    apply (simp add: case_prod_unfold)
    apply (rule hoare_bind [OF served_quiet [OF transition_stands]], simp)
     apply (auto intro!: keeps_rules)[1]
    apply (rule hoare_bind [OF audit_delivers [OF cp]])
    apply (rule hoare_ret, simp)
    done
  done

subsection \<open>Errors\<close>

lemma fail_delivers:
  assumes X: "\<And>c. c \<in> X \<Longrightarrow> may_follow c (terminal_state err)" and cp: "\<not> gc_control_plane G"
  shows "hoare (site X L q x) (fail_call G e err)
    (\<lambda>r w. r = tool_result (dump_error err) True \<and> served (terminal_state err) L q x w) E"
  unfolding fail_call_def
  apply (rule hoare_bind [where R = "\<lambda>b w. b \<and> served (terminal_state err) L q x w"])
   apply (rule hoare_weaken [OF hoare_frame [OF failure_stored [OF X],
        where v = "\<lambda>w. (gw_log (fst w), gw_queue (fst w), gw_outside (fst w))"
        and F = "\<lambda>(l, p, y). l = L \<and> p = q \<and> y = x"]], assumption)
      apply (auto simp: site_def served_def intro!: keeps_rules)[4]
  apply (rule hoare_fact, erule conjunct1, simp)
  apply (rule hoare_bind [OF audit_delivers [OF cp]])
  apply (rule hoare_ret, simp)
  done

lemma validation_refuses:
  assumes "registry_validate (gc_registry G) (ce_tool_name e) (call_arguments e) = Inl y" "gc_repair_advisor G = None"
  shows "hoare (site {RECEIVED} L q x) (validate_phase G e) Q (\<lambda>z w. z = y \<and> site {RECEIVED} L q x w)"
  unfolding validate_phase_def validate_request_def assms sum.case option.case Let_def
  by (rule hoare_bind [where R = "\<lambda>r w. False"], rule hoare_raise) (simp_all add: hoare_def)

lemma settle_raises:
  assumes "hoare P (process_call G e) (\<lambda>r w. False) (\<lambda>z w. z = GatewayExn err \<and> site X L q x w)"
    and "\<And>c. c \<in> X \<Longrightarrow> may_follow c (terminal_state err)" and "\<not> gc_control_plane G"
  shows "hoare P (settle_call G e) (\<lambda>r w. r = tool_result (dump_error err) True \<and> served (terminal_state err) L q x w) E"
  unfolding settle_call_def
  apply (rule hoare_catch [OF hoare_post [OF assms(1)]], simp, assumption)
  apply (rule hoare_fact, erule conjunct1, simp)
  apply (rule hoare_pre [OF fail_delivers [OF assms(2,3)]], assumption, simp)
  done

lemma settle_returns:
  "hoare P (process_call G e) Q (\<lambda>z w. False) \<Longrightarrow> hoare P (settle_call G e) Q E"
  unfolding settle_call_def by (erule hoare_catch) (simp add: hoare_def)

end

section \<open>The start of a call without a control plane\<close>

text \<open>The variables that a call fixes and the state in which its phases start.\<close>

definition started_env :: "string \<Rightarrow> string \<Rightarrow> string \<Rightarrow> jdict option \<Rightarrow> principal option \<Rightarrow>
    ('s, 'q, 'x) world \<Rightarrow> call_env" where
  "started_env trace session name arguments who w =
     \<lparr>ce_call_id = gw_uid (fst w) (gw_uids (fst w)), ce_trace_id = trace, ce_session_id = session,
      ce_tool_name = name, ce_arguments = arguments, ce_principal = who,
      ce_started = le_clock (snd w) (le_ticks (snd w))\<rparr>"

lemma execute_plain:
  assumes "reliable_store (gc_store G) look ok" and "ok (gw_store (fst w))" and "\<not> gc_control_plane G"
  obtains w1 where "execute_tool_call G trace session name arguments who w =
      settle_call G (started_env trace session name arguments who w) w1"
    and "lifecycle_call.site look ok (started_env trace session name arguments who w) {RECEIVED}
      (gw_log (fst w)) (gw_queue (fst w)) (gw_outside (fst w)) w1"
    and "gw_uid (fst w1) (gw_uids (fst w1)) = gw_uid (fst w) (Suc (gw_uids (fst w)))"
    and "gw_clock (fst w1) (gw_ticks (fst w1)) = gw_clock (fst w) (Suc (gw_ticks (fst w)))"
proof -
  obtain g t where w: "w = (g, t)" by (rule prod.exhaust)
  let ?e = "started_env trace session name arguments who w"
  let ?r = "new_record ?e (case registry_get (gc_registry G) name of Inl x \<Rightarrow> None
     | Inr d \<Rightarrow> Some (td_risk_class d)) (gw_clock g (gw_ticks g))"
  obtain s where c: "ss_create_call (gc_store G) ?r (gw_store g) = (Inr (), s)"
    using reliable_store.create_total [OF assms(1), of "gw_store g" ?r] assms(2) w by (metis fst_conv prod.collapse)
  let ?w1 = "(g\<lparr>gw_uids := Suc (gw_uids g), gw_ticks := Suc (gw_ticks g), gw_store := s, gw_locals := initial_locals\<rparr>,
     t\<lparr>le_ticks := Suc (le_ticks t)\<rparr>)"
  have laws: "state_store_laws (gc_store G) look ok" using assms(1) by (simp add: reliable_store_def)
  have life: "lifecycle_call (gc_store G) look ok G"
    using assms(1) by (simp add: lifecycle_call_def lifecycle_call_axioms_def)
  show thesis
  proof (rule that [of ?w1])
    show "execute_tool_call G trace session name arguments who w = settle_call G ?e ?w1"
      using c assms(3)
      by (simp add: w started_env_def execute_tool_call_def uuid4_def monotonic_def utc_now_def Let_def bind_io_def
          catch_io_def on_store_def ret_def persist_call_def except_exception_def when_io_def set_locals_def
          modify_io_def del: bind_io_ret)
    show "lifecycle_call.site look ok ?e {RECEIVED} (gw_log (fst w)) (gw_queue (fst w)) (gw_outside (fst w)) ?w1"
      using state_store_laws.create_law [OF laws _ c] assms(2) new_record_lifecycle
      by (simp add: w lifecycle_call.site_def [OF life] lifecycle_call.stand_def [OF life] lifecycle_call.fit_def [OF life]
          state_store_laws.holds_def [OF laws] initial_locals_def numbers_def)
        (simp add: new_record_def started_env_def)
  qed (simp_all add: w)
qed

section \<open>Calls that pass\<close>

text \<open>The decision lets the call pass: it allows it, or an approver releases the request that the call
  submits.  \<open>evs\<close> are the events this adds to the history.\<close>

definition passes :: "('s, 'q, 'x) gateway \<Rightarrow> policy_decision \<Rightarrow> approval_request \<Rightarrow> 'q \<Rightarrow> gw_event list \<Rightarrow> bool" where
  "passes G dec appr q evs = (if pd_outcome dec = REQUIRES_APPROVAL
     then (case gc_approval_queue G of None \<Rightarrow> False | Some Q \<Rightarrow>
       (case aq_submit Q appr q of (Inl z, q1) \<Rightarrow> False | (Inr u, q1) \<Rightarrow>
         (case aq_wait Q (ap_approval_id appr) q1 of (Inl z, q2) \<Rightarrow> False | (Inr res, q2) \<Rightarrow>
           evs = [EvReleased (ap_approval_id appr) res, EvSubmitted appr])))
     else pd_outcome dec = ALLOW \<and> evs = [])"

context lifecycle_call
begin

lemma decision_passes:
  assumes "passes G dec appr q evs" and cp: "\<not> gc_control_plane G"
    and appr: "appr = create_approval_request uid now (ce_call_id e) (ce_tool_name e) request inp (pd_matched_rule dec)"
  shows "\<exists>p. hoare (\<lambda>w. site {POLICY_CHECKED} L q x w \<and> fresh w = (uid, now))
     (if pd_outcome dec = REQUIRES_APPROVAL then await_approval G e request inp dec
      else if pd_outcome dec \<noteq> ALLOW
      then bind_io (record_denial G e (pd_reason dec)) (\<lambda>u. raise_io (GatewayExn (PolicyDeniedError (pd_reason dec))))
      else ret ()) (\<lambda>u. site {POLICY_CHECKED, AWAITING_APPROVAL} (evs @ L) p x) (\<lambda>z w. False)"
proof (cases "pd_outcome dec = REQUIRES_APPROVAL")
  case True
  with assms(1) obtain Q q1 res q2 where q: "gc_approval_queue G = Some Q" "aq_submit Q appr q = (Inr (), q1)"
    "aq_wait Q uid q1 = (Inr res, q2)" "evs = [EvReleased uid res, EvSubmitted appr]"
    by (fastforce simp: passes_def appr create_approval_request_def split: option.splits prod.splits sum.splits)
  have "hoare (\<lambda>w. site {POLICY_CHECKED} L q x w \<and> fresh w = (uid, now)) (await_approval G e request inp dec)
     (\<lambda>u. site {POLICY_CHECKED, AWAITING_APPROVAL} (evs @ L) q2 x) (\<lambda>z w. False)"
    by (rule hoare_post [OF await_delivers [OF q(1) cp appr q(2,3)]]) (auto simp: q(4) site_def elim: stands_mono)
  with True show ?thesis by auto
next
  case False
  with assms(1) show ?thesis
    by (intro exI [of _ q]) (auto simp: passes_def site_def intro!: hoare_ret elim: stands_mono)
qed

lemma validate_fresh:
  assumes "registry_validate (gc_registry G) (ce_tool_name e) (call_arguments e) = Inr request"
  shows "hoare (\<lambda>w. site {RECEIVED} L q x w \<and> fresh w = f) (validate_phase G e)
      (\<lambda>r w. r = request \<and> (site {VALIDATED} L q x w \<and> fresh w = f)) E"
  by (rule hoare_post [OF fresh_frame [OF validate_delivers [OF assms]]])
    (auto simp: validate_phase_def validate_request_def assms intro!: keeps_rules)

lemma process_delivers:
  assumes "registry_get (gc_registry G) (ce_tool_name e) = Inr d"
    and valid: "registry_validate (gc_registry G) (ce_tool_name e) (call_arguments e) = Inr request"
      "registry_validate (gc_registry G) (ce_tool_name e) request = Inr validated"
    and "inp = policy_input_for (ce_tool_name e) (ce_principal e) d request"
    and "pc_evaluate (active_policy_client G) inp x = (Inr dec, y)"
    and appr: "appr = create_approval_request uid now (ce_call_id e) (ce_tool_name e) request inp (pd_matched_rule dec)"
    and "passes G dec appr q evs" and cp: "\<not> gc_control_plane G"
    and "registry_execute_validated (gc_registry G) (ce_tool_name e) validated (gc_set_context G call_context y) = (Inr out, z)"
  shows "\<exists>p. hoare (\<lambda>w. site {RECEIVED} L q x w \<and> fresh w = (uid, now)) (process_call G e)
    (\<lambda>r w. r = tool_result out False \<and>
       served SUCCEEDED (EvExecuted (ce_tool_name e) validated # evs @ EvPolicy inp dec # L) p (gc_set_context G None z) w)
    (\<lambda>z w. False)"
proof -
  obtain p where "hoare (\<lambda>w. site {VALIDATED} L q x w \<and> fresh w = (uid, now)) (policy_phase G e request)
      (\<lambda>r w. r = d \<and> site {POLICY_CHECKED, AWAITING_APPROVAL} (evs @ EvPolicy inp dec # L) p y w) (\<lambda>z w. False)"
    using policy_delivers [OF assms(1,4,5)] decision_passes [OF assms(7) cp appr] by blast
  note policy = this
  show ?thesis
    unfolding process_call_def
    apply (rule exI [of _ p])
    apply (rule hoare_bind [OF validate_fresh [OF valid(1)]], rule hoare_value)
    apply (rule hoare_bind [OF policy], rule hoare_value)
    apply (rule execution_delivers [OF valid(2) assms(9) _ cp], simp)
    done
qed

abbreviation has :: "gw_event \<Rightarrow> ('s, 'q, 'x) world \<Rightarrow> bool" where
  "has ev w \<equiv> ev \<in> set (gw_log (fst w))"

lemma has_stable: "stable (recorded.invs ev) m \<Longrightarrow> hoare (has ev) m (\<lambda>r. has ev) (\<lambda>z. has ev)"
  using stable_hoare [of "recorded.invs ev" m] by (simp add: recorded.inv_def)

lemma attempt_executes:
  assumes valid: "registry_validate (gc_registry G) (ce_tool_name e) a = Inr validated"
    and X: "X \<subseteq> {POLICY_CHECKED, AWAITING_APPROVAL}"
  shows "hoare (site X L q x) (execute_attempt G e d a) (\<lambda>r. has (EvExecuted (ce_tool_name e) validated))
    (\<lambda>z. has (EvExecuted (ce_tool_name e) validated))"
proof -
  let ?ev = "EvExecuted (ce_tool_name e) validated"
  have lift: "lift_res (registry_validate (gc_registry G) (ce_tool_name e) a) = ret validated"
    by (simp add: valid lift_res_def ret_def)
  have tool: "hoare (\<lambda>w. True) (run_tool G e a) (\<lambda>r. has ?ev) (\<lambda>z. has ?ev)"
    unfolding run_tool_def lift bind_io_ret
    apply (rule hoare_bind [where R = "\<lambda>u. has ?ev"])
     apply (auto simp: log_event_def intro!: hoare_modify)[1]
    apply (rule has_stable)
    apply (auto intro!: recorded.inv_steps)
    done
  have body: "hoare (\<lambda>w. True) (attempt_body G e d 1 a) (\<lambda>r. has ?ev) (\<lambda>z. has ?ev)"
    unfolding attempt_body_def
    apply (rule hoare_catch [where R = "\<lambda>z. has ?ev"])
     apply (simp add: when_io_def)
     apply (rule hoare_bind [OF tool])
     apply (rule has_stable, (auto intro!: recorded.inv_steps)[1])
    apply (rule has_stable, (auto intro!: recorded.inv_steps split: exn.splits)[1])
    done
  show ?thesis
    unfolding execute_attempt_def Let_def
    apply (rule hoare_bind [where R = "\<lambda>l w. cl_latest_attempt l = 1 \<and> site X L q x w"])
     apply (auto simp: locals_def site_def intro!: hoare_gets)[1]
    apply (rule hoare_fact, erule conjunct1, simp add: when_io_def)
    apply (rule hoare_bind [OF site_transition])
    subgoal using X by auto
    apply (rule hoare_finally, rule hoare_weaken [OF body [unfolded One_nat_def]])
       apply (auto split: prod.splits)
    done
qed

lemma execution_executes:
  assumes valid: "registry_validate (gc_registry G) (ce_tool_name e) request = Inr validated"
    and X: "X \<subseteq> {POLICY_CHECKED, AWAITING_APPROVAL}"
  shows "hoare (site X L q x) (execution_phase G e request d) (\<lambda>r. has (EvExecuted (ce_tool_name e) validated))
    (\<lambda>z. has (EvExecuted (ce_tool_name e) validated))"
proof -
  let ?ev = "EvExecuted (ce_tool_name e) validated"
  let ?rep = "case gc_repair_advisor G of None \<Rightarrow> None | Some adv \<Rightarrow> Some (repair_arguments G e d)"
  let ?in = "\<lambda>g. ?ev \<in> set (gw_log g)"
  let ?I = "\<lambda>n a g. (n = (1::nat) \<and> a = request \<and> (\<exists>t. site X L q x (g, t))) \<or> (n > 1 \<and> ?in g)"
  have "hoare (\<lambda>w. ?I 1 request (fst w)) (run (RepairLoop default_backoff) request (execute_attempt G e d) (repair_context_for e d) ?rep)
    (\<lambda>(r, n) w. ?in (fst w)) (\<lambda>z w. ?in (fst w))"
  proof (rule scripted.run_hoare [where I = ?I and Q = "\<lambda>n r. ?in" and R = "\<lambda>n a z g. 1 \<le> n \<and> ?in g" and E = "\<lambda>z. ?in"])
    fix n a
    have first: "hoare (\<lambda>w. \<exists>t. site X L q x (fst w, t)) (execute_attempt G e d request) (\<lambda>r. has ?ev) (\<lambda>z. has ?ev)"
      by (rule hoare_pre [OF attempt_executes [OF valid X, of L q x]]) (auto simp: site_def)
    have later: "hoare (has ?ev) (execute_attempt G e d a) (\<lambda>r. has ?ev) (\<lambda>z. has ?ev)"
      by (rule has_stable [OF recorded.inv_phases(3)])
    show "hoare (\<lambda>w. ?I n a (fst w)) (execute_attempt G e d a) (\<lambda>r w. ?in (fst w)) (\<lambda>z w. 1 \<le> n \<and> ?in (fst w))"
    proof (cases "n = 1 \<and> a = request")
      case True
      then have a: "a = request" by simp
      show ?thesis unfolding a by (rule hoare_weaken [OF first]) (use True in auto)
    next
      case False
      show ?thesis
        by (rule hoare_fact [where F = "1 < n"]) (use False in \<open>auto intro: hoare_weaken [OF later]\<close>)
    qed
  next
    fix f n a z
    assume "?rep = Some f"
    then have "stable (recorded.invs ?ev) (f a (diagnose z))" by (auto split: option.splits intro: recorded.inv_phases)
    note step = has_stable [OF this]
    show "hoare (\<lambda>w. 1 \<le> n \<and> ?in (fst w)) (f a (diagnose z)) (\<lambda>a' w. ?I (Suc n) a' (fst w) \<and> ?in (fst w)) (\<lambda>z w. ?in (fst w))"
      by (rule hoare_fact [where F = "1 \<le> n"], simp, rule hoare_weaken [OF step]) auto
  qed auto
  then have "hoare (site X L q x) (run (RepairLoop default_backoff) request (execute_attempt G e d) (repair_context_for e d) ?rep)
    (\<lambda>v. has ?ev) (\<lambda>z. has ?ev)"
    by (rule hoare_weaken) auto
  then show ?thesis
    unfolding execution_phase_def
    by (rule hoare_bind) (rule has_stable, auto intro!: recorded.inv_steps recorded.inv_phases)
qed

lemma settle_executes:
  assumes "registry_get (gc_registry G) (ce_tool_name e) = Inr d"
    and valid: "registry_validate (gc_registry G) (ce_tool_name e) (call_arguments e) = Inr request"
      "registry_validate (gc_registry G) (ce_tool_name e) request = Inr validated"
    and "inp = policy_input_for (ce_tool_name e) (ce_principal e) d request"
    and "pc_evaluate (active_policy_client G) inp x = (Inr dec, y)"
    and appr: "appr = create_approval_request uid now (ce_call_id e) (ce_tool_name e) request inp (pd_matched_rule dec)"
    and "passes G dec appr q evs" and cp: "\<not> gc_control_plane G"
  shows "hoare (\<lambda>w. site {RECEIVED} L q x w \<and> fresh w = (uid, now)) (settle_call G e)
    (\<lambda>r. has (EvExecuted (ce_tool_name e) validated)) (\<lambda>z. has (EvExecuted (ce_tool_name e) validated))"
proof -
  let ?has = "has (EvExecuted (ce_tool_name e) validated)"
  obtain p where policy: "hoare (\<lambda>w. site {VALIDATED} L q x w \<and> fresh w = (uid, now)) (policy_phase G e request)
      (\<lambda>r w. r = d \<and> site {POLICY_CHECKED, AWAITING_APPROVAL} (evs @ EvPolicy inp dec # L) p y w) (\<lambda>z w. False)"
    using policy_delivers [OF assms(1,4,5)] decision_passes [OF assms(7) cp appr] by blast
  have "hoare (\<lambda>w. site {RECEIVED} L q x w \<and> fresh w = (uid, now)) (process_call G e) (\<lambda>r. ?has) (\<lambda>z. ?has)"
    unfolding process_call_def
    apply (rule hoare_bind [OF validate_fresh [OF valid(1)]], rule hoare_value)
    apply (rule hoare_bind [OF hoare_sure [OF policy]], rule hoare_value)
    apply (rule execution_executes [OF valid(2)], simp)
    done
  then show ?thesis
    unfolding settle_call_def
    by (rule hoare_catch) (rule has_stable, auto intro!: recorded.inv_steps recorded.inv_phases split: exn.splits)
qed

end

text \<open>The ways in which a call is refused before it executes: the arguments do not validate and there
  is no advisor, the policy client fails, the policy denies, or the approval is rejected or times out.
  \<open>err\<close> is the error, \<open>evs\<close> what the history gains and \<open>x\<close> the outside world that is left.\<close>

inductive refusal :: "('s, 'q, 'x) gateway \<Rightarrow> string \<Rightarrow> jdict option \<Rightarrow> principal option \<Rightarrow> ('s, 'q, 'x) world \<Rightarrow>
    gateway_error \<Rightarrow> gw_event list \<Rightarrow> 'x \<Rightarrow> bool"
  for G name arguments who w where
  refuse_invalid: "registry_validate (gc_registry G) name (case arguments of None \<Rightarrow> [] | Some a \<Rightarrow> a) = Inl (GatewayExn err) \<Longrightarrow>
    gc_repair_advisor G = None \<Longrightarrow>
    refusal G name arguments who w err [] (gw_outside (fst w))"
| refuse_unevaluated: "registry_get (gc_registry G) name = Inr d \<Longrightarrow>
    registry_validate (gc_registry G) name (case arguments of None \<Rightarrow> [] | Some a \<Rightarrow> a) = Inr request \<Longrightarrow>
    pc_evaluate (active_policy_client G) (policy_input_for name who d request) (gw_outside (fst w)) = (Inl (GatewayExn err), x) \<Longrightarrow>
    refusal G name arguments who w err [] x"
| refuse_denied: "registry_get (gc_registry G) name = Inr d \<Longrightarrow>
    registry_validate (gc_registry G) name (case arguments of None \<Rightarrow> [] | Some a \<Rightarrow> a) = Inr request \<Longrightarrow>
    pc_evaluate (active_policy_client G) (policy_input_for name who d request) (gw_outside (fst w)) = (Inr dec, x) \<Longrightarrow>
    pd_outcome dec \<noteq> ALLOW \<Longrightarrow> pd_outcome dec \<noteq> REQUIRES_APPROVAL \<Longrightarrow>
    refusal G name arguments who w (PolicyDeniedError (pd_reason dec)) [EvPolicy (policy_input_for name who d request) dec] x"
| refuse_unapproved: "registry_get (gc_registry G) name = Inr d \<Longrightarrow>
    registry_validate (gc_registry G) name (case arguments of None \<Rightarrow> [] | Some a \<Rightarrow> a) = Inr request \<Longrightarrow>
    pc_evaluate (active_policy_client G) (policy_input_for name who d request) (gw_outside (fst w)) = (Inr dec, x) \<Longrightarrow>
    pd_outcome dec = REQUIRES_APPROVAL \<Longrightarrow> gc_approval_queue G = Some Q \<Longrightarrow>
    appr = create_approval_request (gw_uid (fst w) (Suc (gw_uids (fst w)))) (gw_clock (fst w) (Suc (gw_ticks (fst w))))
      (gw_uid (fst w) (gw_uids (fst w))) name request (policy_input_for name who d request) (pd_matched_rule dec) \<Longrightarrow>
    aq_submit Q appr (gw_queue (fst w)) = (Inr (), q1) \<Longrightarrow>
    aq_wait Q (ap_approval_id appr) q1 = (Inl (GatewayExn err), q2) \<Longrightarrow> approval_refused (GatewayExn err) \<Longrightarrow>
    refusal G name arguments who w err [EvSubmitted appr, EvPolicy (policy_input_for name who d request) dec] x"

context lifecycle_call
begin

lemma process_invalid:
  assumes "registry_validate (gc_registry G) (ce_tool_name e) (call_arguments e) = Inl y" "gc_repair_advisor G = None"
  shows "hoare (\<lambda>w. site {RECEIVED} L q x w \<and> fresh w = f) (process_call G e) (\<lambda>r w. False) (\<lambda>z w. z = y \<and> site {RECEIVED} L q x w)"
  unfolding process_call_def
  by (rule hoare_bind [where R = "\<lambda>r w. False"], rule hoare_pre [OF validation_refuses [OF assms]]) (auto simp: hoare_def)

lemma process_refused:
  assumes valid: "registry_validate (gc_registry G) (ce_tool_name e) (call_arguments e) = Inr request"
    and policy: "hoare (\<lambda>w. site {VALIDATED} L q x w \<and> fresh w = f) (policy_phase G e request) (\<lambda>r w. False) E"
  shows "hoare (\<lambda>w. site {RECEIVED} L q x w \<and> fresh w = f) (process_call G e) (\<lambda>r w. False) E"
  unfolding process_call_def
  apply (rule hoare_bind [OF validate_fresh [OF valid]], rule hoare_value)
  apply (rule hoare_bind [OF policy], simp add: hoare_def)
  done

lemma policy_denies:
  assumes "registry_get (gc_registry G) (ce_tool_name e) = Inr d"
    and "inp = policy_input_for (ce_tool_name e) (ce_principal e) d request"
    and "pc_evaluate (active_policy_client G) inp x = (Inr dec, y)"
    and other: "pd_outcome dec \<noteq> ALLOW" "pd_outcome dec \<noteq> REQUIRES_APPROVAL"
  shows "hoare (\<lambda>v. site {VALIDATED} L q x v \<and> fresh v = f) (policy_phase G e request) (\<lambda>r w. False)
    (\<lambda>z v. z = GatewayExn (PolicyDeniedError (pd_reason dec)) \<and> site {DENIED} (EvPolicy inp dec # L) q y v)"
proof -
  have "hoare (\<lambda>v. site {POLICY_CHECKED} (EvPolicy inp dec # L) q y v \<and> fresh v = f)
      (bind_io (record_denial G e (pd_reason dec)) (\<lambda>u. raise_io (GatewayExn (PolicyDeniedError (pd_reason dec)))))
      (\<lambda>u w. False) (\<lambda>z v. z = GatewayExn (PolicyDeniedError (pd_reason dec)) \<and> site {DENIED} (EvPolicy inp dec # L) q y v)"
    by (rule hoare_pre [OF denial_site [of "{POLICY_CHECKED}"]]) auto
  with policy_delivers [OF assms(1-3), where Q = "\<lambda>w. False"] other show ?thesis by simp
qed

lemma policy_unapproved:
  assumes "registry_get (gc_registry G) (ce_tool_name e) = Inr d"
    and "inp = policy_input_for (ce_tool_name e) (ce_principal e) d request"
    and "pc_evaluate (active_policy_client G) inp x = (Inr dec, y)" and out: "pd_outcome dec = REQUIRES_APPROVAL"
    and await: "hoare (\<lambda>v. site {POLICY_CHECKED} (EvPolicy inp dec # L) q y v \<and> fresh v = f) (await_approval G e request inp dec)
      (\<lambda>r w. False) E"
  shows "hoare (\<lambda>v. site {VALIDATED} L q x v \<and> fresh v = f) (policy_phase G e request) (\<lambda>r w. False) E"
  using policy_delivers [OF assms(1-3), where Q = "\<lambda>w. False"] await by (simp add: out)

lemma process_refuses:
  assumes "refusal G (ce_tool_name e) (ce_arguments e) (ce_principal e) w err evs x" and cp: "\<not> gc_control_plane G"
    and id: "ce_call_id e = gw_uid (fst w) (gw_uids (fst w))"
  shows "\<exists>X p. (\<forall>c \<in> X. may_follow c (terminal_state err)) \<and>
    hoare (\<lambda>v. site {RECEIVED} L (gw_queue (fst w)) (gw_outside (fst w)) v \<and>
        fresh v = (gw_uid (fst w) (Suc (gw_uids (fst w))), gw_clock (fst w) (Suc (gw_ticks (fst w)))))
      (process_call G e) (\<lambda>r v. False) (\<lambda>z v. z = GatewayExn err \<and> site X (evs @ L) p x v)"
  using assms(1)
proof cases
  case refuse_invalid
  then show ?thesis
    using process_invalid [OF refuse_invalid(3,4)]
    by (intro exI [of _ "{RECEIVED}"] exI [of _ "gw_queue (fst w)"]) (auto simp: terminal_state_def)
next
  case (refuse_unevaluated d request)
  then show ?thesis
    using process_refused [OF refuse_unevaluated(3) policy_fails [OF refuse_unevaluated(2) refl refuse_unevaluated(4)]]
    by (intro exI [of _ "{VALIDATED}"] exI [of _ "gw_queue (fst w)"]) (auto simp: terminal_state_def)
next
  case (refuse_denied d request dec)
  from policy_denies [OF refuse_denied(3) refl refuse_denied(5-7)]
  have "hoare (\<lambda>v. site {VALIDATED} L (gw_queue (fst w)) (gw_outside (fst w)) v \<and> fresh v = f) (policy_phase G e request)
    (\<lambda>r w. False) (\<lambda>z v. z = GatewayExn err \<and> site {DENIED} (evs @ L) (gw_queue (fst w)) x v)" for f
    using refuse_denied(1,2) by simp
  from process_refused [OF refuse_denied(4) this] show ?thesis
    using refuse_denied(1)
    by (intro exI [of _ "{DENIED}"] exI [of _ "gw_queue (fst w)"]) (auto simp: terminal_state_def denial_codes_def)
next
  case (refuse_unapproved d request dec Q appr q1 q2)
  have uid: "ap_approval_id appr = gw_uid (fst w) (Suc (gw_uids (fst w)))"
    using refuse_unapproved(7) by (simp add: create_approval_request_def)
  note waits = await_refuses [OF refuse_unapproved(6) cp refuse_unapproved(7) [folded id] refuse_unapproved(8)
      refuse_unapproved(9) [unfolded uid] refuse_unapproved(10)]
  from policy_unapproved [OF refuse_unapproved(2) refl refuse_unapproved(4,5) waits, of L]
  have "hoare (\<lambda>v. site {VALIDATED} L (gw_queue (fst w)) (gw_outside (fst w)) v \<and>
      fresh v = (gw_uid (fst w) (Suc (gw_uids (fst w))), gw_clock (fst w) (Suc (gw_ticks (fst w))))) (policy_phase G e request)
    (\<lambda>r w. False) (\<lambda>z v. z = GatewayExn err \<and> site {DENIED} (evs @ L) q2 x v)"
    by (simp only: refuse_unapproved(1) append_Cons append_Nil)
  from process_refused [OF refuse_unapproved(3) this] show ?thesis
    using approval_refused_denial [OF refuse_unapproved(10)]
    by (intro exI [of _ "{DENIED}"] exI [of _ q2]) (auto simp: terminal_state_def)
qed

end

text \<open>What the triples of the settled call say of the call itself.\<close>

lemma call_settles:
  assumes "reliable_store (gc_store G) look ok" and "ok (gw_store (fst w))" and "\<not> gc_control_plane G"
    and "hoare (\<lambda>v. lifecycle_call.site look ok (started_env trace session name arguments who w) {RECEIVED}
        (gw_log (fst w)) (gw_queue (fst w)) (gw_outside (fst w)) v \<and>
      (gw_uid (fst v) (gw_uids (fst v)), gw_clock (fst v) (gw_ticks (fst v))) =
        (gw_uid (fst w) (Suc (gw_uids (fst w))), gw_clock (fst w) (Suc (gw_ticks (fst w)))))
      (settle_call G (started_env trace session name arguments who w)) Q E"
  shows "case execute_tool_call G trace session name arguments who w of (Inr r, w') \<Rightarrow> Q r w' | (Inl z, w') \<Rightarrow> E z w'"
proof -
  obtain w1 where run: "execute_tool_call G trace session name arguments who w =
      settle_call G (started_env trace session name arguments who w) w1"
    and site: "lifecycle_call.site look ok (started_env trace session name arguments who w) {RECEIVED}
      (gw_log (fst w)) (gw_queue (fst w)) (gw_outside (fst w)) w1"
    and fresh: "gw_uid (fst w1) (gw_uids (fst w1)) = gw_uid (fst w) (Suc (gw_uids (fst w)))"
      "gw_clock (fst w1) (gw_ticks (fst w1)) = gw_clock (fst w) (Suc (gw_ticks (fst w)))"
    by (rule execute_plain [OF assms(1-3)])
  from assms(4) [unfolded hoare_def, rule_format, of w1] site fresh show ?thesis by (simp only: run prod.inject simp_thms)
qed

lemma call_served:
  assumes "reliable_store (gc_store G) look ok" and "ok (gw_store (fst w))" and "\<not> gc_control_plane G"
    and "hoare (\<lambda>v. lifecycle_call.site look ok (started_env trace session name arguments who w) {RECEIVED}
        (gw_log (fst w)) (gw_queue (fst w)) (gw_outside (fst w)) v \<and>
      (gw_uid (fst v) (gw_uids (fst v)), gw_clock (fst v) (gw_ticks (fst v))) =
        (gw_uid (fst w) (Suc (gw_uids (fst w))), gw_clock (fst w) (Suc (gw_ticks (fst w)))))
      (settle_call G (started_env trace session name arguments who w))
      (\<lambda>r v. r = res \<and> lifecycle_call.served look ok (started_env trace session name arguments who w) st L p x v) (\<lambda>z v. False)"
  shows "\<exists>w' rec. execute_tool_call G trace session name arguments who w = (Inr res, w') \<and> gw_log (fst w') = L \<and>
    gw_outside (fst w') = x \<and> look (gw_store (fst w')) (gw_uid (fst w) (gw_uids (fst w))) = Some rec \<and> tc_current_state rec = st"
proof -
  have laws: "state_store_laws (gc_store G) look ok" using assms(1) by (simp add: reliable_store_def)
  have life: "lifecycle_call (gc_store G) look ok G"
    using assms(1) by (simp add: lifecycle_call_def lifecycle_call_axioms_def)
  show ?thesis
    using call_settles [OF assms]
    by (cases "execute_tool_call G trace session name arguments who w"; cases "fst (execute_tool_call G trace session name arguments who w)")
      (auto simp: lifecycle_call.served_def [OF life] lifecycle_call.stand_def [OF life] lifecycle_call.fit_def [OF life]
        state_store_laws.holds_def [OF laws] started_env_def)
qed

lemma started_simps:
  "ce_tool_name (started_env trace session name arguments who w) = name"
  "ce_arguments (started_env trace session name arguments who w) = arguments"
  "ce_principal (started_env trace session name arguments who w) = who"
  "ce_call_id (started_env trace session name arguments who w) = gw_uid (fst w) (gw_uids (fst w))"
  by (simp_all add: started_env_def)

text \<open>A permitted call executes its tool, whatever the handler does.\<close>

lemma call_executes:
  assumes "reliable_store (gc_store G) look ok" and "ok (gw_store (fst w))" and "\<not> gc_control_plane G"
    and "registry_get (gc_registry G) name = Inr d"
    and "registry_validate (gc_registry G) name (case arguments of None \<Rightarrow> [] | Some a \<Rightarrow> a) = Inr request"
    and "registry_validate (gc_registry G) name request = Inr validated"
    and "pc_evaluate (active_policy_client G) (policy_input_for name who d request) (gw_outside (fst w)) = (Inr dec, x1)"
    and "passes G dec (create_approval_request (gw_uid (fst w) (Suc (gw_uids (fst w)))) (gw_clock (fst w) (Suc (gw_ticks (fst w))))
      (gw_uid (fst w) (gw_uids (fst w))) name request (policy_input_for name who d request) (pd_matched_rule dec))
      (gw_queue (fst w)) evs"
  shows "EvExecuted name validated \<in> set (gw_log (fst (snd (execute_tool_call G trace session name arguments who w))))"
proof -
  let ?e = "started_env trace session name arguments who w"
  have life: "lifecycle_call (gc_store G) look ok G"
    using assms(1) by (simp add: lifecycle_call_def lifecycle_call_axioms_def)
  from call_settles [OF assms(1-3) lifecycle_call.settle_executes [OF life,
        where e = ?e, unfolded started_simps, OF assms(4-6) refl assms(7) refl assms(8,3)]]
  show ?thesis
    by (cases "execute_tool_call G trace session name arguments who w";
        cases "fst (execute_tool_call G trace session name arguments who w)") (auto simp: started_simps)
qed

section \<open>Properties\<close>





end
