(* ===== verification/Auth.thy ===== *)
theory Auth
  imports Policy
begin

text \<open>
  OIDC authentication (\<open>gateway/auth.py\<close>) and the HTTP middleware in front of the gateway
  (\<open>AuthenticationMiddleware\<close> in \<open>gateway/http_server.py\<close>) with the health responses.  PyJWT and the JWKS
  endpoint are parameters.  Exceptions of \<open>httpx\<close>, \<open>jwt\<close> and Python carry the class that the handlers
  name (\<open>HTTPError\<close>, \<open>PyJWTError\<close>, \<open>TypeError\<close>, \<open>ValueError\<close>).
\<close>

section \<open>Principals from claims\<close>

text \<open>\<open>jl_decode\<close> is \<open>RSAAlgorithm.from_jwk\<close> with \<open>jwt.decode\<close>: key, token, audience and issuer.\<close>

record jwt_library =
  jl_header :: "string \<Rightarrow> exn + jdict"
  jl_decode :: "jdict \<Rightarrow> string \<Rightarrow> string \<Rightarrow> string \<Rightarrow> exn + jdict"

abbreviation auth_error :: "string \<Rightarrow> exn" where
  "auth_error m \<equiv> GatewayExn (AuthenticationError m)"

definition role_of_value :: "string \<Rightarrow> role option" where
  "role_of_value v = find (\<lambda>r. role_value r = v) [USER, OPERATOR, ADMIN]"

definition claimed_tenant :: "jdict \<Rightarrow> json option" where
  "claimed_tenant claims = (case dict_get claims ''tenant_id'' of Some v \<Rightarrow> Some v | None \<Rightarrow> dict_get claims ''tenant'')"

definition claimed_roles :: "jdict \<Rightarrow> json option" where
  "claimed_roles claims = (case dict_get claims ''roles'' of
       None \<Rightarrow> (case dict_get claims ''realm_access'' of Some (JObj d) \<Rightarrow> dict_get d ''roles'' | _ \<Rightarrow> None)
     | Some JNull \<Rightarrow> (case dict_get claims ''realm_access'' of Some (JObj d) \<Rightarrow> dict_get d ''roles'' | _ \<Rightarrow> None)
     | Some v \<Rightarrow> Some v)"

definition parsed_roles :: "json list \<Rightarrow> role list" where
  "parsed_roles roles = List.map_filter (\<lambda>r. role_of_value (py_str r)) roles"

definition principal_from_claims :: "jdict \<Rightarrow> exn + principal" where
  "principal_from_claims claims = (case (dict_get claims ''sub'', claimed_tenant claims) of
       (Some (JStr subject), Some (JStr tenant_id)) \<Rightarrow>
         (case claimed_roles claims of
            Some (JList roles) \<Rightarrow>
              if roles = [] then Inl (auth_error ''Token requires at least one role'')
              else if parsed_roles roles = [] then Inl (auth_error ''Token contains an unsupported role'')
              else mk_principal subject tenant_id (parsed_roles roles)
                (Some (case dict_get claims ''iss'' of None \<Rightarrow> ''None'' | Some v \<Rightarrow> py_str v))
                (case dict_get claims ''agent_id'' of None \<Rightarrow> None | Some JNull \<Rightarrow> None | Some v \<Rightarrow> Some (py_str v))
          | _ \<Rightarrow> Inl (auth_error ''Token requires at least one role''))
     | _ \<Rightarrow> Inl (auth_error ''Token requires sub and tenant_id claims''))"

definition principal_from_static_token :: principal where
  "principal_from_static_token = \<lparr>p_subject = ''static-local-user'', p_tenant_id = ''local'', p_roles = [ADMIN],
     p_issuer = Some ''local-static-token'', p_agent_id = None\<rparr>"

section \<open>The authenticator\<close>

record oidc =
  oi_issuer_url :: string
  oi_audience :: string
  oi_jwks_url :: string
  oi_keys :: "(string, jdict) dict"

definition OIDCAuthenticator :: "string \<Rightarrow> string \<Rightarrow> string \<Rightarrow> (string, jdict) dict \<Rightarrow> oidc" where
  "OIDCAuthenticator issuer_url audience jwks_url initial_keys = \<lparr>oi_issuer_url = rstrip_slash issuer_url,
     oi_audience = audience, oi_jwks_url = jwks_url, oi_keys = initial_keys\<rparr>"

text \<open>The state of a request: the context variable, the authenticator and the rest of the world.\<close>

record 'x http_world =
  hw_principal :: "principal option"
  hw_oidc :: oidc
  hw_outside :: 'x

definition add_jwk :: "json \<Rightarrow> (string, jdict) dict \<Rightarrow> (string, jdict) dict" where
  "add_jwk item keys = (case item of
       JObj d \<Rightarrow> (case dict_get d ''kid'' of Some (JStr kid) \<Rightarrow> dict_set kid d keys | _ \<Rightarrow> keys)
     | _ \<Rightarrow> keys)"

definition jwks_keys :: "json list \<Rightarrow> (string, jdict) dict" where
  "jwks_keys items = fold add_jwk items []"

definition fetch_jwks :: "(string \<Rightarrow> 'x \<Rightarrow> http_result \<times> 'x) \<Rightarrow> ('x http_world, json) aio" where
  "fetch_jwks get w = (case get (oi_jwks_url (hw_oidc w)) (hw_outside w) of (h, x) \<Rightarrow>
     (case h of
        HttpError \<Rightarrow> Inl (PyExn ''HTTPError'' ''request failed'')
      | HttpResponse status body \<Rightarrow>
          if \<not> is_success status then Inl (PyExn ''HTTPError'' ''status error'')
          else (case body of None \<Rightarrow> Inl (PyExn ''ValueError'' ''JSONDecodeError'') | Some document \<Rightarrow> Inr document),
      w\<lparr>hw_outside := x\<rparr>))"

definition get_key :: "(string \<Rightarrow> 'x \<Rightarrow> http_result \<times> 'x) \<Rightarrow> string \<Rightarrow> ('x http_world, jdict) aio" where
  "get_key get kid w = (case dict_get (oi_keys (hw_oidc w)) kid of
       Some key \<Rightarrow> (Inr key, w)
     | None \<Rightarrow> bind_io (fetch_jwks get) (\<lambda>document. case jfield document ''keys'' of
         Some (JList items) \<Rightarrow> (\<lambda>w'.
           (case dict_get (jwks_keys items) kid of
              None \<Rightarrow> Inl (auth_error ''Token signing key was not found'')
            | Some key \<Rightarrow> Inr key,
            w'\<lparr>hw_oidc := (hw_oidc w')\<lparr>oi_keys := jwks_keys items\<rparr>\<rparr>))
       | _ \<Rightarrow> raise_io (auth_error ''OIDC JWKS response is invalid'')) w)"

definition verify_token :: "jwt_library \<Rightarrow> (string \<Rightarrow> 'x \<Rightarrow> http_result \<times> 'x) \<Rightarrow> string \<Rightarrow> ('x http_world, jdict) aio" where
  "verify_token J get token = bind_io (lift_res (jl_header J token)) (\<lambda>header.
     case dict_get header ''kid'' of
       Some (JStr kid) \<Rightarrow>
         if dict_get header ''alg'' \<noteq> Some (JStr ''RS256'')
         then raise_io (auth_error ''Token must use an RS256 key with kid'')
         else bind_io (get_key get kid) (\<lambda>jwk.
           bind_io (gets_io hw_oidc) (\<lambda>a. lift_res (jl_decode J jwk token (oi_audience a) (oi_issuer_url a))))
     | _ \<Rightarrow> raise_io (auth_error ''Token must use an RS256 key with kid''))"

definition token_failure :: "exn \<Rightarrow> bool" where
  "token_failure e = (case e of PyExn c m \<Rightarrow> c \<in> {''HTTPError'', ''PyJWTError'', ''TypeError'', ''ValueError''} | _ \<Rightarrow> False)"

definition oidc_authenticate :: "jwt_library \<Rightarrow> (string \<Rightarrow> 'x \<Rightarrow> http_result \<times> 'x) \<Rightarrow> string \<Rightarrow>
    ('x http_world, principal) aio" where
  "oidc_authenticate J get token =
     bind_io (catch_io (verify_token J get token)
       (\<lambda>e. raise_io (if token_failure e then auth_error ''Token validation failed'' else e)))
     (\<lambda>claims. lift_res (principal_from_claims claims))"

section \<open>The middleware\<close>

record http_scope =
  sc_type :: string
  sc_path :: "string option"
  sc_headers :: "(string \<times> string) list"

type_synonym 'x asgi_app = "http_scope \<Rightarrow> ('x http_world, http_result) aio"

definition unauthorized :: http_result where
  "unauthorized = HttpResponse 401 (Some (JObj [(''error'', JStr ''unauthorized'')]))"

definition exempt :: "string \<Rightarrow> http_scope \<Rightarrow> bool" where
  "exempt mode sc = (sc_type sc \<noteq> ''http'' \<or> sc_path sc \<in> {Some ''/livez'', Some ''/readyz'', Some ''/startupz''} \<or> mode = ''none'')"

text \<open>The headers become a dictionary by their lower-case names, so the last one of a name counts.\<close>

definition authorization :: "http_scope \<Rightarrow> string" where
  "authorization sc = (let headers = fold (\<lambda>(k, v). dict_set (str_lower k) v) (sc_headers sc) []
     in case dict_get headers ''authorization'' of None \<Rightarrow> [] | Some v \<Rightarrow> v)"

text \<open>\<open>authorization.partition(" ")\<close>\<close>

definition bearer :: "http_scope \<Rightarrow> string option" where
  "bearer sc = (let scheme = takeWhile (\<lambda>c. c \<noteq> CHR '' '') (authorization sc);
       credential = drop 1 (dropWhile (\<lambda>c. c \<noteq> CHR '' '') (authorization sc))
     in if str_lower scheme \<noteq> ''bearer'' \<or> credential = [] then None else Some credential)"

text \<open>\<open>oidc\<close> says whether an authenticator is configured.\<close>

definition identify :: "jwt_library \<Rightarrow> (string \<Rightarrow> 'x \<Rightarrow> http_result \<times> 'x) \<Rightarrow> string \<Rightarrow> string option \<Rightarrow> bool \<Rightarrow>
    string \<Rightarrow> ('x http_world, principal) aio" where
  "identify J get mode token oidc credential =
     (if mode = ''static_token''
      then (if token = None \<or> token \<noteq> Some credential then raise_io (auth_error ''Bearer token is invalid'')
            else ret principal_from_static_token)
      else if mode = ''oidc''
      then (if \<not> oidc then raise_io (auth_error ''OIDC authentication is not configured'')
            else oidc_authenticate J get credential)
      else raise_io (auth_error ''HTTP authentication mode is invalid''))"

definition AuthenticationMiddleware :: "jwt_library \<Rightarrow> (string \<Rightarrow> 'x \<Rightarrow> http_result \<times> 'x) \<Rightarrow> string \<Rightarrow> string option \<Rightarrow>
    bool \<Rightarrow> 'x asgi_app \<Rightarrow> 'x asgi_app" where
  "AuthenticationMiddleware J get mode token oidc app sc w =
     (if exempt mode sc then app sc w
      else case bearer sc of
        None \<Rightarrow> (Inr unauthorized, w)
      | Some credential \<Rightarrow> (case identify J get mode token oidc credential w of
          (Inl (GatewayExn (AuthenticationError m)), w') \<Rightarrow> (Inr unauthorized, w')
        | (Inl e, w') \<Rightarrow> (Inl e, w')
        | (Inr who, w') \<Rightarrow>
            finally_io (app sc) (\<lambda>v. v\<lparr>hw_principal := hw_principal w'\<rparr>) (w'\<lparr>hw_principal := Some who\<rparr>)))"

section \<open>Health\<close>

definition health_response :: "string \<Rightarrow> string \<Rightarrow> (string \<times> bool) list option \<Rightarrow> http_result" where
  "health_response version status checks = HttpResponse (if status = ''ok'' then 200 else 503)
     (Some (JObj ([(''status'', JStr status), (''version'', JStr version)] @
       (case checks of None \<Rightarrow> [] | Some cs \<Rightarrow> [(''checks'', JObj (map (\<lambda>(k, b). (k, JBool b)) cs))]))))"

text \<open>\<open>readyz\<close> from the results of the health checks; a component without one counts as ready.\<close>

definition gateway_readyz :: "string \<Rightarrow> bool option \<Rightarrow> bool option \<Rightarrow> bool option \<Rightarrow> bool option \<Rightarrow> http_result" where
  "gateway_readyz version state_store policy control_plane worker =
     (let ready = (\<lambda>c. case c of None \<Rightarrow> True | Some b \<Rightarrow> b);
          checks = [(''state_store'', ready state_store), (''policy'', ready policy),
            (''control_plane'', ready control_plane), (''worker'', ready worker)]
      in health_response version (if list_all snd checks then ''ok'' else ''unready'') (Some checks))"

section \<open>Lemmas\<close>

lemma role_of_value_Some: "role_of_value v = Some r \<longleftrightarrow> v = role_value r"
  by (cases r) (auto simp: role_of_value_def)

lemma parsed_roles_set: "r \<in> set (parsed_roles roles) \<longleftrightarrow> (\<exists>v \<in> set roles. py_str v = role_value r)"
proof -
  have "r \<in> set (parsed_roles roles) \<longleftrightarrow> (\<exists>v \<in> set roles. role_of_value (py_str v) = Some r)"
    by (induction roles) (auto simp: parsed_roles_def map_filter_simps split: option.splits)
  then show ?thesis by (simp add: role_of_value_Some)
qed

lemma principal_from_claims_Inr:
  assumes "principal_from_claims claims = Inr p"
  shows "principal_ok p" and "dict_get claims ''sub'' = Some (JStr (p_subject p))"
    and "claimed_tenant claims = Some (JStr (p_tenant_id p))"
    and "\<exists>roles. claimed_roles claims = Some (JList roles) \<and> p_roles p = parsed_roles roles"
  using assms
  by (auto simp: principal_from_claims_def mk_principal_def Let_def split: option.splits json.splits if_splits)

lemma add_jwk_kid:
  "dict_get (add_jwk item keys) k = Some d \<Longrightarrow> dict_get keys k = Some d \<or> dict_get d ''kid'' = Some (JStr k)"
  by (auto simp: add_jwk_def split: json.splits option.splits if_splits)

lemma jwks_keys_kid: "dict_get (jwks_keys items) kid = Some key \<Longrightarrow> dict_get key ''kid'' = Some (JStr kid)"
proof -
  have "\<forall>k d. dict_get (fold add_jwk items []) k = Some d \<longrightarrow> dict_get d ''kid'' = Some (JStr k)"
    by (rule fold_invariant [where Q = "\<lambda>_. True"]) (auto dest: add_jwk_kid)
  then show "dict_get (jwks_keys items) kid = Some key \<Longrightarrow> dict_get key ''kid'' = Some (JStr kid)"
    by (simp add: jwks_keys_def)
qed

text \<open>The configuration and the context variable are not touched; a key comes from the cache.\<close>

definition same_request :: "'x http_world \<Rightarrow> 'x http_world \<Rightarrow> bool" where
  "same_request w w' = (hw_principal w' = hw_principal w \<and> (hw_oidc w')\<lparr>oi_keys := []\<rparr> = (hw_oidc w)\<lparr>oi_keys := []\<rparr>)"

lemma get_key_result:
  assumes "get_key get kid w = (r, w')"
  shows "same_request w w'" and "r = Inr key \<Longrightarrow> dict_get (oi_keys (hw_oidc w')) kid = Some key"
  using assms
  by (auto simp: get_key_def fetch_jwks_def bind_io_def raise_io_def same_request_def
      split: option.splits prod.splits http_result.splits json.splits if_splits)

lemma verify_token_result:
  assumes "verify_token J get token w = (r, w')"
  shows "same_request w w'"
    and "r = Inr claims \<Longrightarrow> \<exists>header kid key. jl_header J token = Inr header \<and> dict_get header ''kid'' = Some (JStr kid) \<and>
      dict_get header ''alg'' = Some (JStr ''RS256'') \<and> dict_get (oi_keys (hw_oidc w')) kid = Some key \<and>
      jl_decode J key token (oi_audience (hw_oidc w)) (oi_issuer_url (hw_oidc w)) = Inr claims"
proof -
  have refl: "same_request w w" by (simp add: same_request_def)
  consider (failed) e where "r = Inl e" "w' = w"
  | (key) header kid r' where "jl_header J token = Inr header" "dict_get header ''kid'' = Some (JStr kid)"
      "dict_get header ''alg'' = Some (JStr ''RS256'')" "get_key get kid w = (r', w')"
      "r = (case r' of Inl e \<Rightarrow> Inl e | Inr key \<Rightarrow> jl_decode J key token (oi_audience (hw_oidc w')) (oi_issuer_url (hw_oidc w')))"
  proof (cases "jl_header J token")
    case (Inl e)
    with assms have "r = Inl e" "w' = w" by (simp_all add: verify_token_def bind_io_def lift_res_def)
    then show thesis by (rule that(1))
  next
    case (Inr header)
    then show thesis using assms that
      by (auto simp: verify_token_def bind_io_def raise_io_def lift_res_def gets_io_def
          split: sum.splits option.splits json.splits if_splits prod.splits)
  qed
  note cases = this
  show "same_request w w'"
    by (rule cases) (auto simp: refl dest: get_key_result(1))
  show "\<exists>header kid key. jl_header J token = Inr header \<and> dict_get header ''kid'' = Some (JStr kid) \<and>
      dict_get header ''alg'' = Some (JStr ''RS256'') \<and> dict_get (oi_keys (hw_oidc w')) kid = Some key \<and>
      jl_decode J key token (oi_audience (hw_oidc w)) (oi_issuer_url (hw_oidc w)) = Inr claims" if ok: "r = Inr claims"
  proof (rule cases)
    fix header kid r'
    assume k: "jl_header J token = Inr header" "dict_get header ''kid'' = Some (JStr kid)"
      "dict_get header ''alg'' = Some (JStr ''RS256'')" "get_key get kid w = (r', w')"
      "r = (case r' of Inl e \<Rightarrow> Inl e | Inr key \<Rightarrow> jl_decode J key token (oi_audience (hw_oidc w')) (oi_issuer_url (hw_oidc w')))"
    then obtain key where key: "r' = Inr key" using ok by (cases r') auto
    have "oi_audience (hw_oidc w') = oi_audience (hw_oidc w)" "oi_issuer_url (hw_oidc w') = oi_issuer_url (hw_oidc w)"
      using get_key_result(1) [OF k(4)] by (cases "hw_oidc w"; cases "hw_oidc w'"; simp add: same_request_def)+
    with k key ok get_key_result(2) [OF k(4) key] show ?thesis by auto
  qed (use ok in simp)
qed

lemma oidc_authenticate_Inr:
  assumes "oidc_authenticate J get token w = (Inr p, w')"
  obtains claims where "verify_token J get token w = (Inr claims, w')" "principal_from_claims claims = Inr p"
  using assms by (auto simp: oidc_authenticate_def bind_io_def catch_io_def raise_io_def lift_res_def
      split: prod.splits sum.splits)

lemma identify_same: "identify J get mode token oidc credential w = (r, w') \<Longrightarrow> same_request w w'"
  by (auto simp: identify_def oidc_authenticate_def bind_io_def catch_io_def raise_io_def ret_def lift_res_def same_request_def
      split: if_splits prod.splits sum.splits dest!: verify_token_result(1))

section \<open>Properties\<close>

text \<open>C15: an OIDC principal is a verified one.  When \<open>OIDCAuthenticator.authenticate\<close> returns a principal, the
  token names the algorithm RS256 and a key, PyJWT accepted the token with exactly that key of the JWKS for
  the configured audience and issuer, the subject and the tenant are the token's, and the roles are
  gateway roles that the token claims, at least one.\<close>

theorem oidc_principal_is_verified:
  assumes "oidc_authenticate J get token w = (Inr p, w')"
  shows "\<exists>header kid key claims roles.
    jl_header J token = Inr header \<and> dict_get header ''kid'' = Some (JStr kid) \<and>
    dict_get header ''alg'' = Some (JStr ''RS256'') \<and> dict_get (oi_keys (hw_oidc w')) kid = Some key \<and>
    jl_decode J key token (oi_audience (hw_oidc w)) (oi_issuer_url (hw_oidc w)) = Inr claims \<and>
    dict_get claims ''sub'' = Some (JStr (p_subject p)) \<and> claimed_tenant claims = Some (JStr (p_tenant_id p)) \<and>
    claimed_roles claims = Some (JList roles) \<and> p_roles p \<noteq> [] \<and>
    (\<forall>r \<in> set (p_roles p). \<exists>v \<in> set roles. py_str v = role_value r)"
proof -
  obtain claims where v: "verify_token J get token w = (Inr claims, w')" and p: "principal_from_claims claims = Inr p"
    by (rule oidc_authenticate_Inr [OF assms])
  from verify_token_result(2) [OF v refl] principal_from_claims_Inr [OF p] show ?thesis
    by (auto simp: principal_ok_def parsed_roles_set)
qed

definition demo_jwt :: jwt_library where
  "demo_jwt = \<lparr>jl_header = (\<lambda>t. Inr [(''kid'', JStr ''k1''), (''alg'', JStr ''RS256'')]),
     jl_decode = (\<lambda>key t aud iss. if t = ''good'' \<and> dict_get key ''n'' = Some (JStr ''7'')
       then Inr [(''sub'', JStr ''ann''), (''tenant'', JStr ''acme''), (''iss'', JStr iss),
         (''roles'', JList [JStr ''user'', JStr ''root''])]
       else Inl (PyExn ''PyJWTError'' ''signature''))\<rparr>"

definition demo_jwks :: "string \<Rightarrow> unit \<Rightarrow> http_result \<times> unit" where
  "demo_jwks url x = (HttpResponse 200 (Some (JObj [(''keys'', JList [JObj [(''kid'', JStr ''k1''), (''n'', JStr ''7'')]])])), x)"

definition demo_http :: "unit http_world" where
  "demo_http = \<lparr>hw_principal = None, hw_oidc = OIDCAuthenticator ''https://issuer/'' ''gw'' ''https://issuer/jwks'' [],
     hw_outside = ()\<rparr>"

definition ann :: principal where
  "ann = \<lparr>p_subject = ''ann'', p_tenant_id = ''acme'', p_roles = [USER], p_issuer = Some ''https://issuer'', p_agent_id = None\<rparr>"

lemma demo_login: "oidc_authenticate demo_jwt demo_jwks ''good'' demo_http = (Inr ann, snd (oidc_authenticate demo_jwt demo_jwks ''good'' demo_http))"
  by code_simp

theorem oidc_principal_is_verified_witness:
  "fst (oidc_authenticate demo_jwt demo_jwks ''good'' demo_http) = Inr ann \<and>
   (\<exists>key claims. jl_decode demo_jwt key ''good'' ''gw'' ''https://issuer'' = Inr claims \<and>
      dict_get claims ''sub'' = Some (JStr ''ann''))"
proof -
  have o: "oi_audience (hw_oidc demo_http) = ''gw''" "oi_issuer_url (hw_oidc demo_http) = ''https://issuer''" "p_subject ann = ''ann''"
    by code_simp+
  from oidc_principal_is_verified [OF demo_login] show ?thesis
    using demo_login unfolding o by (metis fst_conv)
qed

text \<open>C13: the middleware guards the application.  A request that is not exempt reaches the application only
  with a bearer credential that was identified, and the application then runs with that principal in its
  context: the local administrator for the configured static token, or the principal that the OIDC
  authenticator returned.  Every other request is answered with 401 or ends in an exception, whatever the
  application is.  The context variable has its former value afterwards when the application keeps it.\<close>

theorem middleware_guards_application:
  assumes "\<not> exempt mode sc" and "AuthenticationMiddleware J get mode token oidc app sc w = (r, w')"
  shows "(\<exists>credential who w1. bearer sc = Some credential \<and> same_request w w1 \<and>
      (mode = ''static_token'' \<and> token = Some credential \<and> who = principal_from_static_token \<and> w1 = w \<or>
       mode = ''oidc'' \<and> oidc \<and> oidc_authenticate J get credential w = (Inr who, w1)) \<and>
      r = fst (app sc (w1\<lparr>hw_principal := Some who\<rparr>)) \<and>
      w' = (snd (app sc (w1\<lparr>hw_principal := Some who\<rparr>)))\<lparr>hw_principal := hw_principal w\<rparr>) \<or>
    (same_request w w' \<and> (r = Inr unauthorized \<or> (\<exists>e. r = Inl e)) \<and>
      (\<forall>app'. AuthenticationMiddleware J get mode token oidc app' sc w = (r, w')))"
proof (cases "bearer sc")
  case None
  with assms show ?thesis by (auto simp: AuthenticationMiddleware_def same_request_def)
next
  case (Some credential)
  obtain i w1 where i: "identify J get mode token oidc credential w = (i, w1)" by (rule prod.exhaust)
  have same: "same_request w w1" by (rule identify_same [OF i])
  show ?thesis
  proof (cases i)
    case (Inl e)
    have mw: "AuthenticationMiddleware J get mode token oidc app' sc w =
        (case e of GatewayExn (AuthenticationError m) \<Rightarrow> (Inr unauthorized, w1) | _ \<Rightarrow> (Inl e, w1))" for app'
      using assms(1) Some i Inl by (simp add: AuthenticationMiddleware_def split: exn.split gateway_error.split)
    then have "w' = w1" "r = Inr unauthorized \<or> (\<exists>e. r = Inl e)"
      using assms(2) by (auto split: exn.splits gateway_error.splits)
    then show ?thesis using same mw assms(2) by simp
  next
    case (Inr who)
    have "AuthenticationMiddleware J get mode token oidc app sc w =
        finally_io (app sc) (\<lambda>v. v\<lparr>hw_principal := hw_principal w1\<rparr>) (w1\<lparr>hw_principal := Some who\<rparr>)"
      using assms(1) Some i Inr by (simp add: AuthenticationMiddleware_def)
    moreover have "mode = ''static_token'' \<and> token = Some credential \<and> who = principal_from_static_token \<and> w1 = w \<or>
        mode = ''oidc'' \<and> oidc \<and> oidc_authenticate J get credential w = (Inr who, w1)"
      using i Inr by (auto simp: identify_def raise_io_def ret_def split: if_splits)
    moreover have "hw_principal w1 = hw_principal w" using same by (simp add: same_request_def)
    ultimately show ?thesis
      using assms(2) Some same by (auto simp: finally_io_def split: prod.splits)
  qed
qed

definition demo_app :: "unit asgi_app" where
  "demo_app sc w = (Inr (HttpResponse 200 (Some (JStr (case hw_principal w of None \<Rightarrow> ''anonymous'' | Some p \<Rightarrow> p_subject p)))), w)"

definition demo_scope :: "string \<Rightarrow> http_scope" where
  "demo_scope v = \<lparr>sc_type = ''http'', sc_path = Some ''/mcp'', sc_headers = [(''Authorization'', v)]\<rparr>"

theorem middleware_guards_application_witness:
  "fst (AuthenticationMiddleware demo_jwt demo_jwks ''oidc'' None True demo_app (demo_scope ''Bearer good'') demo_http) =
     Inr (HttpResponse 200 (Some (JStr ''ann''))) \<and>
   AuthenticationMiddleware demo_jwt demo_jwks ''oidc'' None True undefined (demo_scope ''Basic x'') demo_http = (Inr unauthorized, demo_http)"
proof -
  have ex: "\<not> exempt ''oidc'' (demo_scope v)" for v by (simp add: exempt_def demo_scope_def)
  have run: "AuthenticationMiddleware demo_jwt demo_jwks ''oidc'' None True demo_app (demo_scope ''Basic x'') demo_http =
      (Inr unauthorized, demo_http)"
    and no: "bearer (demo_scope ''Basic x'') = None"
    and yes: "fst (AuthenticationMiddleware demo_jwt demo_jwks ''oidc'' None True demo_app (demo_scope ''Bearer good'') demo_http) =
      Inr (HttpResponse 200 (Some (JStr ''ann'')))"
    by code_simp+
  from middleware_guards_application [OF ex run] no yes show ?thesis by simp
qed

text \<open>The model of a principal is applied outside the \<open>try\<close>: a verified token with an over-long subject ends in
  a validation error, which the middleware does not turn into 401.\<close>

lemma long_subject_escapes:
  "principal_from_claims [(''sub'', JStr (replicate 257 CHR ''a'')), (''tenant'', JStr ''acme''), (''roles'', JList [JStr ''user''])] =
   Inl (PyExn ''ValidationError'' ''Principal'')"
  by code_simp

end
