(* ===== verification/Http_App.thy ===== *)
theory Http_App
  imports Runtime Delivery Auth
begin

text \<open>
  The HTTP gateway (\<open>create_http_app\<close> in \<open>http_server.py\<close>): its construction from the settings, its routes with
  the readiness check, and a request from the socket to the tools.  Starlette and the MCP session manager are
  parameters: the application behind the routes is any one that reaches the gateway's state only through the
  handler of \<open>tools/call\<close>, in the context of the request, and serves only its own path.
\<close>

section \<open>Construction\<close>

record ('raw, 'rawq, 'y) http_app =
  ha_gateway :: "('raw any_store, 'rawq redis_queue, 'y node) gateway"
  ha_runtime :: "'y execution_runtime"
  ha_session_id :: string
  ha_mode :: string
  ha_token :: "string option"
  ha_oidc :: "oidc option"

definition authenticator_for :: "settings \<Rightarrow> exn + oidc option" where
  "authenticator_for s = (if cfg_http_auth_mode s \<noteq> OidcMode then Inr None
     else case (cfg_oidc_issuer_url s, cfg_oidc_audience s, cfg_oidc_jwks_url s) of
       (Some issuer, Some audience, Some jwks) \<Rightarrow> Inr (Some (OIDCAuthenticator issuer audience jwks []))
     | _ \<Rightarrow> Inl (PyExn ''ValueError'' ''OIDC mode requires issuer, audience, and JWKS configuration''))"

text \<open>\<open>fresh\<close> is the \<open>uuid4\<close> that \<open>create_mcp_server\<close> draws, once for the process.\<close>

definition create_http_app :: "'y platform \<Rightarrow> settings \<Rightarrow> 'raw redis_config \<Rightarrow> 'rawq queue_codec \<Rightarrow> audit_codec \<Rightarrow> string \<Rightarrow>
    exn + ('raw, 'rawq, 'y) http_app" where
  "create_http_app P s rc qc codec fresh = (case create_gateway P s rc qc codec of
       Inl x \<Rightarrow> Inl x
     | Inr (G, rt) \<Rightarrow> map_sum id (\<lambda>a. \<lparr>ha_gateway = G, ha_runtime = rt, ha_session_id = active_session_id None fresh,
         ha_mode = auth_mode_text (cfg_http_auth_mode s), ha_token = cfg_http_auth_token s, ha_oidc = a\<rparr>) (authenticator_for s))"

section \<open>Requests\<close>

definition on_gateway :: "('s, 'q, 'x, 'a) gio \<Rightarrow> (('s, 'q, 'x) world http_world, 'a) aio" where
  "on_gateway m w = (case m (hw_outside w) of (r, v) \<Rightarrow> (r, w\<lparr>hw_outside := v\<rparr>))"

definition http_call_tool :: "('raw, 'rawq, 'y) http_app \<Rightarrow> string \<Rightarrow> string \<Rightarrow> jdict option \<Rightarrow>
    (('raw any_store, 'rawq redis_queue, 'y node) world http_world, call_tool_result) aio" where
  "http_call_tool A trace_id name arguments w =
     on_gateway (call_tool (ha_gateway A) (ha_session_id A) None (hw_principal w) trace_id name arguments) w"

definition http_livez :: "string \<Rightarrow> ('w, http_result) aio" where
  "http_livez version = ret (health_response version ''ok'' None)"

definition http_startupz :: "string \<Rightarrow> ('w, http_result) aio" where
  "http_startupz version = ret (health_response version ''ok'' None)"

text \<open>The checks of \<open>readyz\<close>.\<close>

definition store_healthcheck :: "'raw any_store \<Rightarrow> bool option \<times> 'raw any_store" where
  "store_healthcheck s = (case s of
       Inl m \<Rightarrow> (Some True, Inl m)
     | Inr r \<Rightarrow> (case redis_healthcheck r of (b, r') \<Rightarrow> (Some b, Inr r')))"

definition runtime_healthcheck :: "'y platform \<Rightarrow> 'y execution_runtime \<Rightarrow> 'y node \<Rightarrow> bool option \<times> 'y node" where
  "runtime_healthcheck P rt n = (case er_worker_service rt of
       Some pool \<Rightarrow> (Some (worker_healthcheck (nd_service n)), n)
     | None \<Rightarrow> (case er_remote_worker rt of
         None \<Rightarrow> (None, n)
       | Some R \<Rightarrow> apfst Some (remote_healthcheck (\<lambda>url. through_host (pf_get P url)) (rw_base_url R) n)))"

definition http_readyz :: "'y platform \<Rightarrow> string \<Rightarrow> ('raw, 'rawq, 'y) http_app \<Rightarrow>
    (('raw any_store, 'rawq redis_queue, 'y node) world http_world, http_result) aio" where
  "http_readyz P version A = on_gateway (\<lambda>(g, t).
     let G = ha_gateway A;
         (state, s') = store_healthcheck (gw_store g);
         (policy, n1) = pc_healthcheck (active_policy_client G) (gw_outside g);
         (cp, c') = (if gc_control_plane G then apfst Some (healthcheck (gw_cp g)) else (None, gw_cp g));
         (worker, n2) = runtime_healthcheck P (ha_runtime A) n1
     in (Inr (gateway_readyz version state (Some policy) cp worker),
         (g\<lparr>gw_store := s', gw_outside := n2, gw_cp := c'\<rparr>, t)))"

text \<open>The three routes in front of the MCP application answer \<open>GET\<close> and \<open>HEAD\<close> (\<open>is_get\<close>).\<close>

definition http_routes :: "'y platform \<Rightarrow> string \<Rightarrow> (http_scope \<Rightarrow> bool) \<Rightarrow> ('raw, 'rawq, 'y) http_app \<Rightarrow>
    ('raw any_store, 'rawq redis_queue, 'y node) world asgi_app \<Rightarrow> ('raw any_store, 'rawq redis_queue, 'y node) world asgi_app" where
  "http_routes P version is_get A mcp sc =
     (if is_get sc \<and> sc_path sc = Some ''/livez'' then http_livez version
      else if is_get sc \<and> sc_path sc = Some ''/readyz'' then http_readyz P version A
      else if is_get sc \<and> sc_path sc = Some ''/startupz'' then http_startupz version
      else mcp sc)"

definition jwks_get :: "'y platform \<Rightarrow> string \<Rightarrow> ('s, 'q, 'y node) world \<Rightarrow> http_result \<times> ('s, 'q, 'y node) world" where
  "jwks_get P url w = (case w of (g, t) \<Rightarrow> (case through_host (pf_get P url) (gw_outside g) of
     (h, n) \<Rightarrow> (h, (g\<lparr>gw_outside := n\<rparr>, t))))"

definition handle_request :: "jwt_library \<Rightarrow> 'y platform \<Rightarrow> string \<Rightarrow> (http_scope \<Rightarrow> bool) \<Rightarrow> ('raw, 'rawq, 'y) http_app \<Rightarrow>
    ('raw any_store, 'rawq redis_queue, 'y node) world asgi_app \<Rightarrow> ('raw any_store, 'rawq redis_queue, 'y node) world asgi_app" where
  "handle_request J P version is_get A mcp =
     AuthenticationMiddleware J (jwks_get P) (ha_mode A) (ha_token A) (ha_oidc A \<noteq> None) (http_routes P version is_get A mcp)"

text \<open>What the MCP library does to the gateway: it calls the handler, any number of times.\<close>

inductive served :: "('raw, 'rawq, 'y) http_app \<Rightarrow> ('raw any_store, 'rawq redis_queue, 'y node) world http_world \<Rightarrow>
    ('raw any_store, 'rawq redis_queue, 'y node) world http_world \<Rightarrow> bool" for A where
  idle: "served A w w"
| call: "served A w v \<Longrightarrow> http_call_tool A trace_id name arguments v = (r, v') \<Longrightarrow> served A w v'"

definition mcp_library :: "('raw, 'rawq, 'y) http_app \<Rightarrow> string \<Rightarrow> ('raw any_store, 'rawq redis_queue, 'y node) world asgi_app \<Rightarrow> bool" where
  "mcp_library A path mcp = (\<forall>sc w. if sc_type sc = ''http'' \<and> sc_path sc = Some path
     then served A w (snd (mcp sc w)) else snd (mcp sc w) = w)"

section \<open>Lemmas\<close>

abbreviation log_of :: "('s, 'q, 'x) world http_world \<Rightarrow> gw_event list" where
  "log_of w \<equiv> gw_log (fst (hw_outside w))"

abbreviation store_of :: "('s, 'q, 'x) world http_world \<Rightarrow> 's" where
  "store_of w \<equiv> gw_store (fst (hw_outside w))"

abbreviation queue_of :: "('s, 'q, 'x) world http_world \<Rightarrow> 'q" where
  "queue_of w \<equiv> gw_queue (fst (hw_outside w))"

lemma http_app_fields:
  assumes "create_http_app P s rc qc codec fresh = Inr A"
  shows "gc_approval_queue (ha_gateway A) = Some (RedisApprovalQueue qc)" "gc_repair_advisor (ha_gateway A) = repair_advisor_for P s"
    "active_policy_client (ha_gateway A) = policy_client_for P s" "revalidates (gc_registry (ha_gateway A))"
    "ha_mode A = auth_mode_text (cfg_http_auth_mode s)" "ha_token A = cfg_http_auth_token s"
    "\<exists>reg runner. create_registry (pf_tools P) (cfg_database_path s) runner = Inr reg \<and> same_tools (gc_registry (ha_gateway A)) reg"
    "gc_store (ha_gateway A) = any_store rc" "gc_control_plane (ha_gateway A) = cfg_control_plane_enabled s"
    "authenticator_for s = Inr (ha_oidc A)"
proof -
  show "authenticator_for s = Inr (ha_oidc A)"
    using assms by (auto simp: create_http_app_def map_sum_Inr split: sum.splits)
  from assms obtain runner rt where rt: "create_execution_runtime P s runner = Inr rt" and A: "ha_gateway A = assemble P s rc qc codec rt"
      "ha_mode A = auth_mode_text (cfg_http_auth_mode s)" "ha_token A = cfg_http_auth_token s"
    by (auto simp: create_http_app_def create_gateway_def map_sum_Inr split: sum.splits)
  from runtime_registry [OF rt] obtain reg runner' where reg: "create_registry (pf_tools P) (cfg_database_path s) runner' = Inr reg"
    "same_tools (er_registry rt) reg" by metis
  show "gc_approval_queue (ha_gateway A) = Some (RedisApprovalQueue qc)" "gc_repair_advisor (ha_gateway A) = repair_advisor_for P s"
    "active_policy_client (ha_gateway A) = policy_client_for P s" "ha_mode A = auth_mode_text (cfg_http_auth_mode s)"
    "ha_token A = cfg_http_auth_token s" "gc_store (ha_gateway A) = any_store rc"
    "gc_control_plane (ha_gateway A) = cfg_control_plane_enabled s"
    using A by (simp_all add: assemble_def)
  show "revalidates (gc_registry (ha_gateway A))"
    using same_tools_revalidates [OF reg(2) create_registry_revalidates [OF reg(1)]] A by (simp add: assemble_def)
  show "\<exists>reg runner. create_registry (pf_tools P) (cfg_database_path s) runner = Inr reg \<and> same_tools (gc_registry (ha_gateway A)) reg"
    using reg A by (auto simp: assemble_def)
qed

text \<open>In front of a policy server that evaluates the rules or fails, the client is one of the policy.\<close>

definition policy_server :: "'y platform \<Rightarrow> bool" where
  "policy_server P = (\<forall>url body y. fst (pf_post_policy P url body y) \<in> {opa_server body, HttpError})"

lemma opa_decode_failed: "opa_decode (HttpResponse 500 b) \<noteq> Inr d"
  by (simp add: opa_decode_def)

lemma policy_client_rego:
  assumes "policy_server P" and "cfg_environment s \<noteq> Test"
  shows "rego_client (policy_client_for P s)"
  unfolding rego_client_def
proof (intro allI impI)
  fix inp n d n'
  assume run: "pc_evaluate (policy_client_for P s) inp n = (Inr d, n')"
  let ?body = "JObj [(''input'', JObj inp)]"
  obtain h where h: "opa_decode h = Inr d" "h = fst (pf_post_policy P (opa_url_of (cfg_opa_url s)) ?body (node_host n))"
    using run assms(2) by (auto simp: policy_client_for_def OpaPolicyClient_def opa_evaluate_def through_host_def split: prod.splits)
  have "h \<noteq> HttpError" using h(1) by (auto simp: opa_decode_def)
  moreover have "h \<in> {opa_server ?body, HttpError}" using assms(1) unfolding h(2) policy_server_def by blast
  ultimately have "h = opa_server ?body" by blast
  with h(1) obtain d' where d': "rego_decision inp = Some d'" "opa_decode (HttpResponse 200 (Some (JObj [(''result'', dump_decision d')]))) = Inr d"
    by (auto simp: opa_server_def opa_decode_failed split: option.splits)
  with opa_decode_dump [OF rego_outcome [OF d'(1)]] show "rego_decision inp = Some d" by simp
qed

text \<open>A repair advisor is used only on a store that works: the in-memory store, or Redis while no command fails.\<close>

definition repair_ready :: "'y platform \<Rightarrow> settings \<Rightarrow> 'raw redis_config \<Rightarrow> 'raw any_store \<Rightarrow> bool" where
  "repair_ready P s rc st = (repair_advisor_for P s = None \<or> codec_ok rc \<and> 0 < rc_rounds rc \<and> any_ok rc st)"

lemma handler_log:
  assumes "create_http_app P s rc qc codec fresh = Inr A" and "qcodec_ok qc"
    and "policy_server P" and "cfg_environment s \<noteq> Test"
    and "repair_ready P s rc (store_of w)"
    and "redisq_ok qc (queue_of w)" and "http_call_tool A trace_id name arguments w = (r, w')"
  shows "hw_principal w' = hw_principal w \<and> repair_ready P s rc (store_of w') \<and> redisq_ok qc (queue_of w') \<and> (\<exists>new. log_of w' = new @ log_of w \<and>
    mediated (gc_registry (ha_gateway A)) (hw_principal w) new \<and> list_all (answered (policy_client_for P s)) new)"
proof -
  note f = http_app_fields [OF assms(1)]
  obtain v where run: "execute_tool_call (ha_gateway A) trace_id (ha_session_id A) name arguments (hw_principal w) (hw_outside w) = (r, v)"
    and w': "w' = w\<lparr>hw_outside := v\<rparr>"
    using assms(7) by (auto simp: http_call_tool_def on_gateway_def call_tool_def split: prod.splits option.splits)
  have queue: "approval_queue_laws Q (redisq_look qc) (redisq_ok qc)" if "gc_approval_queue (ha_gateway A) = Some Q" for Q
    using that f(1) redis_approval_queue_laws [OF assms(2)] by simp
  have store: "gc_store (ha_gateway A) = any_store rc" by (rule f(8))
  have adv: "gc_repair_advisor (ha_gateway A) = None \<or>
      reliable_store (gc_store (ha_gateway A)) (any_look rc) (any_ok rc) \<and> any_ok rc (gw_store (fst (hw_outside w)))"
    using f(2) assms(5) any_store_reliable [of rc] unfolding store repair_ready_def by auto
  have client: "rego_client (active_policy_client (ha_gateway A))" unfolding f(3) by (rule policy_client_rego [OF assms(3,4)])
  have "repair_ready P s rc (gw_store (fst v))"
  proof (cases "repair_advisor_for P s = None")
    case False
    with assms(5) have c: "codec_ok rc" "0 < rc_rounds rc" "any_ok rc (store_of w)" by (simp_all add: repair_ready_def)
    from any_store_reliable [OF c(1,2)] have "state_store_laws (gc_store (ha_gateway A)) (any_look rc) (any_ok rc)"
      unfolding store by (simp add: reliable_store_def)
    from call_keeps_store [OF this c(3) run] c show ?thesis by (simp add: repair_ready_def)
  qed (simp add: repair_ready_def)
  with call_permitted [where qlook = "redisq_look qc" and qok = "redisq_ok qc" and slook = "any_look rc" and sok = "any_ok rc",
      OF f(4) queue assms(6) adv client run]
  show ?thesis unfolding f(3) by (auto simp: w')
qed

lemma served_log:
  assumes "create_http_app P s rc qc codec fresh = Inr A" and "qcodec_ok qc"
    and "policy_server P" and "cfg_environment s \<noteq> Test"
  shows "served A w w' \<Longrightarrow> repair_ready P s rc (store_of w) \<Longrightarrow> redisq_ok qc (queue_of w) \<Longrightarrow>
    hw_principal w' = hw_principal w \<and> repair_ready P s rc (store_of w') \<and> redisq_ok qc (queue_of w') \<and>
    (\<exists>new. log_of w' = new @ log_of w \<and> mediated (gc_registry (ha_gateway A)) (hw_principal w) new \<and>
       list_all (answered (policy_client_for P s)) new)"
proof (induction rule: served.induct)
  case (call w v trace_id name arguments r v')
  then obtain new where v: "hw_principal v = hw_principal w" "repair_ready P s rc (store_of v)" "redisq_ok qc (queue_of v)"
    "log_of v = new @ log_of w" "mediated (gc_registry (ha_gateway A)) (hw_principal w) new"
    "list_all (answered (policy_client_for P s)) new" by auto
  from handler_log [OF assms v(2,3) call.hyps(2)] obtain new' where v': "hw_principal v' = hw_principal v"
    "repair_ready P s rc (store_of v')" "redisq_ok qc (queue_of v')" "log_of v' = new' @ log_of v"
    "mediated (gc_registry (ha_gateway A)) (hw_principal v) new'" "list_all (answered (policy_client_for P s)) new'" by auto
  with v show ?case by (intro conjI exI [of _ "new' @ new"]) (auto intro: mediated_append)
qed (auto intro: exI [of _ "[]"])

text \<open>Who sent a request.\<close>

definition sender :: "jwt_library \<Rightarrow> 'y platform \<Rightarrow> ('raw, 'rawq, 'y) http_app \<Rightarrow> http_scope \<Rightarrow>
    ('raw any_store, 'rawq redis_queue, 'y node) world http_world \<Rightarrow> principal \<Rightarrow> bool" where
  "sender J P A sc w p = (\<exists>credential. bearer sc = Some credential \<and>
     (ha_mode A = ''static_token'' \<and> ha_token A = Some credential \<and> p = principal_from_static_token \<or>
      ha_mode A = ''oidc'' \<and> fst (oidc_authenticate J (jwks_get P) credential w) = Inr p))"

lemma readyz_quiet:
  assumes "http_readyz P version A w = (r, w')"
  shows "log_of w' = log_of w \<and> queue_of w' = queue_of w \<and> (any_ok rc (store_of w) \<longrightarrow> any_ok rc (store_of w'))"
proof -
  have "any_ok rc (snd (store_healthcheck st)) = any_ok rc st" for st
    by (auto simp: store_healthcheck_def any_ok_def redis_healthcheck_def redis_quiet_def split: sum.split)
  then have "log_of (snd (http_readyz P version A w)) = log_of w \<and> queue_of (snd (http_readyz P version A w)) = queue_of w \<and>
      any_ok rc (store_of (snd (http_readyz P version A w))) = any_ok rc (store_of w)"
    by (cases "hw_outside w") (simp add: http_readyz_def on_gateway_def Let_def case_prod_unfold)
  with assms show ?thesis by simp
qed

text \<open>Identification only reads the key set.\<close>

lemma get_key_quiet:
  assumes "\<And>url x. f (snd (get url x)) = f x" and "get_key get kid w = (r, w')"
  shows "f (hw_outside w') = f (hw_outside w)"
  using assms(2) assms(1) [of "oi_jwks_url (hw_oidc w)" "hw_outside w"]
  by (auto simp: get_key_def fetch_jwks_def bind_io_def raise_io_def
      split: option.splits prod.splits http_result.splits json.splits if_splits)

lemma verify_token_quiet:
  assumes "\<And>url x. f (snd (get url x)) = f x" and "verify_token J get token w = (r, w')"
  shows "f (hw_outside w') = f (hw_outside w)"
  using assms(2)
  by (auto simp: verify_token_def bind_io_def raise_io_def lift_res_def gets_io_def
      split: sum.splits option.splits json.splits if_splits prod.splits dest!: get_key_quiet [where f = f, OF assms(1)])

lemma identify_quiet:
  assumes "\<And>url x. f (snd (get url x)) = f x" and "identify J get mode token oidc credential w = (r, w')"
  shows "f (hw_outside w') = f (hw_outside w)"
  using assms(2)
  by (auto simp: identify_def oidc_authenticate_def bind_io_def catch_io_def raise_io_def ret_def lift_res_def
      split: if_splits prod.splits sum.splits dest!: verify_token_quiet [where f = f, OF assms(1)])

lemma jwks_get_quiet: "(\<lambda>v. (gw_log (fst v), gw_queue (fst v), gw_store (fst v))) (snd (jwks_get P url v)) =
    (gw_log (fst v), gw_queue (fst v), gw_store (fst v))"
  by (cases v) (simp add: jwks_get_def split: prod.split)

lemma routes_log:
  assumes "create_http_app P s rc qc codec fresh = Inr A" and "qcodec_ok qc"
    and "policy_server P" and "cfg_environment s \<noteq> Test" and "mcp_library A (cfg_http_path s) mcp"
    and "repair_ready P s rc (store_of w)" and "redisq_ok qc (queue_of w)" and "http_routes P version is_get A mcp sc w = (r, w')"
  shows "repair_ready P s rc (store_of w') \<and> redisq_ok qc (queue_of w') \<and> (\<exists>new. log_of w' = new @ log_of w \<and>
    mediated (gc_registry (ha_gateway A)) (hw_principal w) new \<and> list_all (answered (policy_client_for P s)) new)"
    and "sc_type sc \<noteq> ''http'' \<or> sc_path sc \<noteq> Some (cfg_http_path s) \<Longrightarrow> log_of w' = log_of w"
proof -
  consider "w' = w" | "http_readyz P version A w = (r, w')" | "mcp sc w = (r, w')"
    using assms(8) by (auto simp: http_routes_def http_livez_def http_startupz_def ret_def split: if_splits)
  note cases = this
  show "repair_ready P s rc (store_of w') \<and> redisq_ok qc (queue_of w') \<and> (\<exists>new. log_of w' = new @ log_of w \<and>
    mediated (gc_registry (ha_gateway A)) (hw_principal w) new \<and> list_all (answered (policy_client_for P s)) new)"
  proof (rule cases)
    assume "mcp sc w = (r, w')"
    then consider "w' = w" | "served A w w'" using assms(5) by (auto simp: mcp_library_def split: if_splits) (metis snd_conv)+
    then show ?thesis using served_log [OF assms(1-4) _ assms(6,7)] assms(6,7) by cases auto
  next
    assume "http_readyz P version A w = (r, w')"
    from readyz_quiet [OF this, of rc] show ?thesis using assms(6,7) by (auto simp: repair_ready_def)
  qed (use assms(6,7) in auto)
  show "log_of w' = log_of w" if "sc_type sc \<noteq> ''http'' \<or> sc_path sc \<noteq> Some (cfg_http_path s)"
  proof (rule cases)
    assume "mcp sc w = (r, w')"
    then show ?thesis using assms(5) that by (auto simp: mcp_library_def split: if_splits) (metis snd_conv)+
  qed (auto dest: readyz_quiet)
qed

text \<open>A request that is let through acts for its sender.\<close>

lemma let_through:
  assumes "handle_request J P version is_get A mcp sc w = (r, w')" and "\<not> exempt (ha_mode A) sc"
  obtains "log_of w' = log_of w" "queue_of w' = queue_of w" "store_of w' = store_of w"
  | p w1 v where "sender J P A sc w p" "log_of w1 = log_of w" "queue_of w1 = queue_of w" "hw_principal w1 = Some p"
      "http_routes P version is_get A mcp sc w1 = (r, v)" "log_of w' = log_of v" "queue_of w' = queue_of v"
      "store_of w1 = store_of w" "store_of w' = store_of v"
proof (cases "bearer sc")
  case None
  with assms show thesis using that(1) by (simp add: handle_request_def AuthenticationMiddleware_def)
next
  case (Some credential)
  obtain i w1 where i: "identify J (jwks_get P) (ha_mode A) (ha_token A) (ha_oidc A \<noteq> None) credential w = (i, w1)" by (rule prod.exhaust)
  from identify_quiet [where f = "\<lambda>v. (gw_log (fst v), gw_queue (fst v), gw_store (fst v))", OF jwks_get_quiet i]
  have quiet: "log_of w1 = log_of w" "queue_of w1 = queue_of w" "store_of w1 = store_of w" by simp_all
  show thesis
  proof (cases i)
    case (Inl e)
    with assms Some i have "w' = w1"
      by (auto simp: handle_request_def AuthenticationMiddleware_def split: exn.splits gateway_error.splits)
    with quiet show thesis using that(1) by simp
  next
    case (Inr p)
    obtain r' v where v: "http_routes P version is_get A mcp sc (w1\<lparr>hw_principal := Some p\<rparr>) = (r', v)" by (rule prod.exhaust)
    with assms Some i Inr have "r' = r" "w' = v\<lparr>hw_principal := hw_principal w1\<rparr>"
      by (simp_all add: handle_request_def AuthenticationMiddleware_def finally_io_def)
    moreover have "sender J P A sc w p"
      using Some i Inr by (auto simp: sender_def identify_def raise_io_def ret_def split: if_splits)
    ultimately show thesis using that(2) [of p "w1\<lparr>hw_principal := Some p\<rparr>" v] quiet v by simp
  qed
qed

text \<open>Only one tool reads.\<close>

lemma read_only_tool:
  assumes "create_http_app P s rc qc codec fresh = Inr A" and "registry_get (gc_registry (ha_gateway A)) name = Inr d"
    and "td_risk_class d = READ_ONLY"
  shows "name = ''db_query''"
proof -
  from http_app_fields(7) [OF assms(1)] obtain reg runner where reg: "create_registry (pf_tools P) (cfg_database_path s) runner = Inr reg"
    "same_tools (gc_registry (ha_gateway A)) reg" by blast
  from same_tools_get [OF reg(2), of name] assms(2) obtain d' where d': "registry_get reg name = Inr d'" "face d = face d'"
    by (auto simp: rel_sum.simps)
  then have "td_risk_class d' = READ_ONLY" using assms(3) by (simp add: face_eq)
  with reg(1) d'(1) show ?thesis
    by (auto simp: create_registry_eq registry_get_def create_db_query_tool_def create_shell_exec_tool_def split: if_splits)
qed

section \<open>Properties\<close>


definition demo_platform :: "nat platform" where
  "demo_platform = \<lparr>pf_tools = demo_host\<lparr>th_docker := (th_docker demo_host)\<lparr>dk_run := (\<lambda>argv stdin t x. (NoExecutable, x))\<rparr>\<rparr>, pf_post_job = (\<lambda>url j x. (HttpError, x)),
     pf_post_policy = (\<lambda>url body x. (opa_server body, x)), pf_post_model = (\<lambda>url body headers x. (HttpError, x)),
     pf_get = (\<lambda>url x. (fst (demo_jwks url ()), x)), pf_tparse = (\<lambda>t. None), pf_tfmt = (\<lambda>t. ''now''), pf_float_text = (\<lambda>r. ''0''),
     pf_token_hex = ''k'', pf_seccomp = ''tool.json'', pf_resolve = id\<rparr>"

definition demo_settings :: settings where
  "demo_settings = default_settings\<lparr>cfg_http_auth_mode := OidcMode, cfg_oidc_issuer_url := Some ''https://issuer/'',
     cfg_oidc_audience := Some ''gw'', cfg_oidc_jwks_url := Some ''https://issuer/jwks'', cfg_repair_enabled := True,
     cfg_repair_llm_api_key := Some ''key''\<rparr>"

definition demo_audit_codec :: audit_codec where
  "demo_audit_codec = \<lparr>ac_dump_json = (\<lambda>r. ''{}''), ac_tfmt = (\<lambda>t. ''now''), ac_frepr = id\<rparr>"

definition demo_redis_config :: "tool_call_record redis_config" where
  "demo_redis_config = \<lparr>rc_dump = id, rc_load = Inr, rc_rounds = 1\<rparr>"

definition demo_http_app :: "(tool_call_record, approval_request, nat) http_app" where
  "demo_http_app = projr (create_http_app demo_platform demo_settings demo_redis_config demo_codec demo_audit_codec ''s1'')"

text \<open>Each request tries both tools.\<close>

definition demo_mcp :: "(tool_call_record any_store, approval_request redis_queue, nat node) world asgi_app" where
  "demo_mcp sc w = (if sc_type sc = ''http'' \<and> sc_path sc = Some ''/mcp''
     then (Inr (HttpResponse 200 None), snd (http_call_tool demo_http_app ''t'' ''db_query'' (Some orders_request)
       (snd (http_call_tool demo_http_app ''t'' ''shell_exec'' (Some []) w))))
     else (Inr (HttpResponse 404 None), w))"

definition demo_node :: "nat node" where
  "demo_node = \<lparr>nd_service = WorkerService 3 30 int 0, nd_context = None, nd_schedule = (\<lambda>i. []), nd_uuid = (\<lambda>i. ''j''),
     nd_clock = int, nd_jobs = 0\<rparr>"

definition demo_start :: "(tool_call_record any_store, approval_request redis_queue, nat node) world http_world" where
  "demo_start = \<lparr>hw_principal = None, hw_oidc = hw_oidc demo_http, hw_outside =
    (\<lparr>gw_store = Inl (empty_mem_store int), gw_queue = demo_queue [], gw_outside = demo_node,
     gw_audit = \<lparr>al_file = None, al_last_hash = GENESIS_HASH, al_clock = int, al_disk = (\<lambda>i. WriteOk), al_writes = 0\<rparr>,
     gw_cp = empty_control_plane False, gw_uid = (\<lambda>i. replicate i CHR ''u''), gw_uids = 0, gw_clock = int,
     gw_ticks = 0, gw_locals = initial_locals, gw_log = []\<rparr>, demo_env)\<rparr>"

definition demo_response where
  "demo_response v = handle_request demo_jwt demo_platform ''1'' (\<lambda>sc. False) demo_http_app demo_mcp (demo_scope v) demo_start"

lemma demo_app_built: "create_http_app demo_platform demo_settings demo_redis_config demo_codec demo_audit_codec ''s1'' = Inr demo_http_app"
  by (simp add: demo_http_app_def create_http_app_def create_gateway_def demo_settings_def default_settings_def sandbox_runner_for_def SandboxRunner_def SandboxRuntime_def
    create_execution_runtime_def create_registry_eq authenticator_for_def)



lemma demo_mcp_library: "mcp_library demo_http_app (cfg_http_path demo_settings) demo_mcp"
proof -
  have "served demo_http_app w (snd (http_call_tool demo_http_app t n a (snd (http_call_tool demo_http_app t' n' a' w))))" for w t n a t' n' a'
    by (rule served.call [OF served.call [OF served.idle surjective_pairing] surjective_pairing])
  then show ?thesis by (auto simp: mcp_library_def demo_mcp_def demo_settings_def default_settings_def)
qed

lemma demo_sender: "sender demo_jwt demo_platform demo_http_app (demo_scope ''Bearer good'') demo_start p \<longleftrightarrow> p = ann"
proof -
  have "bearer (demo_scope ''Bearer good'') = Some ''good''" by code_simp
  moreover have "fst (oidc_authenticate demo_jwt (jwks_get demo_platform) ''good'' demo_start) = Inr ann" by code_simp
  moreover have "ha_mode demo_http_app = ''oidc''"
    using http_app_fields(5) [OF demo_app_built] by (simp add: demo_settings_def)
  ultimately show ?thesis by (auto simp: sender_def)
qed

text \<open>The read of the orders passes validation and the policy, so it is executed.\<close>

lemma demo_registry_reads:
  "\<exists>d. registry_get (gc_registry (ha_gateway demo_http_app)) ''db_query'' = Inr d \<and> td_risk_class d = READ_ONLY"
  "registry_validate (gc_registry (ha_gateway demo_http_app)) ''db_query'' orders_request = Inr orders_request"
proof -
  from http_app_fields(7) [OF demo_app_built] obtain reg runner where
    reg: "create_registry (pf_tools demo_platform) (cfg_database_path demo_settings) runner = Inr reg"
    "same_tools (gc_registry (ha_gateway demo_http_app)) reg" by blast
  have get: "registry_get reg ''db_query'' = Inr (create_db_query_tool (pf_tools demo_platform) (cfg_database_path demo_settings) runner)"
    using reg(1) by (auto simp: create_registry_eq registry_get_def)
  show "\<exists>d. registry_get (gc_registry (ha_gateway demo_http_app)) ''db_query'' = Inr d \<and> td_risk_class d = READ_ONLY"
    using same_tools_get [OF reg(2), of "''db_query''"] get
    by (auto simp: rel_sum.simps face_eq create_db_query_tool_def)
  have "DbQueryInput orders_request = Some orders_request" by code_simp
  then show "registry_validate (gc_registry (ha_gateway demo_http_app)) ''db_query'' orders_request = Inr orders_request"
    using same_tools_validate [OF reg(2), of "''db_query''" orders_request]
    by (simp add: registry_validate_def get td_validate_def create_db_query_tool_def input_model_def)
qed

lemma demo_policy_allows:
  assumes "td_risk_class d = READ_ONLY"
  shows "\<exists>dec n'. pc_evaluate (policy_client_for demo_platform demo_settings) (policy_input_for ''db_query'' (Some ann) d orders_request) n =
    (Inr dec, n') \<and> pd_outcome dec = ALLOW"
proof -
  let ?inp = "[(''tool_name'', JStr ''db_query''), (''risk_class'', JStr (risk_value READ_ONLY)), (''arguments'', JObj orders_request),
    (''principal'', JObj (dump_principal ann))]"
  have inp: "policy_input_for ''db_query'' (Some ann) d orders_request = ?inp" using assms by (simp add: policy_input_for_def)
  have "case opa_decode (opa_server (JObj [(''input'', JObj ?inp)])) of Inl x \<Rightarrow> False | Inr dec \<Rightarrow> pd_outcome dec = ALLOW" by code_simp
  then obtain dec where "opa_decode (opa_server (JObj [(''input'', JObj ?inp)])) = Inr dec" "pd_outcome dec = ALLOW"
    by (auto split: sum.splits)
  then show ?thesis
    unfolding inp
    by (auto simp: policy_client_for_def demo_settings_def default_settings_def OpaPolicyClient_def opa_evaluate_def
        through_host_def demo_platform_def split: prod.split)
qed

lemma demo_call_executes:
  assumes "hw_principal w = Some ann" and "any_ok demo_redis_config (store_of w)"
  shows "EvExecuted ''db_query'' orders_request \<in> set (log_of (snd (http_call_tool demo_http_app t ''db_query'' (Some orders_request) w)))"
proof -
  let ?G = "ha_gateway demo_http_app"
  note f = http_app_fields [OF demo_app_built]
  have store: "reliable_store (gc_store ?G) (any_look demo_redis_config) (any_ok demo_redis_config)"
    unfolding f(8) by (rule any_store_reliable) (simp_all add: codec_ok_def demo_redis_config_def)
  have cp: "\<not> gc_control_plane ?G" unfolding f(9) by (simp add: demo_settings_def default_settings_def)
  from demo_registry_reads(1) obtain d where d: "registry_get (gc_registry ?G) ''db_query'' = Inr d" "td_risk_class d = READ_ONLY" by blast
  from demo_policy_allows [OF d(2), of "gw_outside (fst (hw_outside w))"] obtain dec n' where
    dec: "pc_evaluate (active_policy_client ?G) (policy_input_for ''db_query'' (Some ann) d orders_request) (gw_outside (fst (hw_outside w))) = (Inr dec, n')"
    "pd_outcome dec = ALLOW" unfolding f(3) by blast
  have "passes ?G dec appr q []" for appr q
    using dec(2) by (simp add: passes_def ALLOW_def REQUIRES_APPROVAL_def)
  from call_executes [OF store assms(2) cp d(1) _ demo_registry_reads(2) dec(1) this, of "Some orders_request"]
  show ?thesis
    using assms(1) demo_registry_reads(2)
    by (simp add: http_call_tool_def on_gateway_def call_tool_def case_prod_unfold)
qed

lemma demo_start_parts:
  "policy_server demo_platform" "cfg_environment demo_settings \<noteq> Test" "log_of demo_start = []"
  "store_of demo_start = Inl (empty_mem_store int)" "queue_of demo_start = demo_queue []"
  by (simp_all add: policy_server_def demo_platform_def demo_settings_def default_settings_def demo_start_def)

lemma demo_ready:
  "any_ok demo_redis_config (Inl m)" "repair_ready demo_platform demo_settings demo_redis_config st \<longleftrightarrow> any_ok demo_redis_config st"
  by (simp_all add: any_ok_def repair_ready_def repair_advisor_for_def demo_settings_def default_settings_def Let_def codec_ok_def demo_redis_config_def)

lemma demo_identified:
  "\<exists>w1. identify demo_jwt (jwks_get demo_platform) (ha_mode demo_http_app) (ha_token demo_http_app) (ha_oidc demo_http_app \<noteq> None) ''good'' demo_start =
     (Inr ann, w1) \<and> store_of w1 = Inl (empty_mem_store int) \<and> queue_of w1 = demo_queue []"
proof -
  have mode: "ha_mode demo_http_app = ''oidc''" "ha_oidc demo_http_app \<noteq> None"
    using http_app_fields(5) [OF demo_app_built] http_app_fields(10) [OF demo_app_built, symmetric]
    by (simp_all add: authenticator_for_def demo_settings_def)
  obtain r w1 where i: "identify demo_jwt (jwks_get demo_platform) (ha_mode demo_http_app) (ha_token demo_http_app)
      (ha_oidc demo_http_app \<noteq> None) ''good'' demo_start = (r, w1)" by (rule prod.exhaust)
  have "fst (oidc_authenticate demo_jwt (jwks_get demo_platform) ''good'' demo_start) = Inr ann" by code_simp
  with i mode have "r = Inr ann" by (simp add: identify_def)
  moreover from identify_quiet [where f = "\<lambda>v. (gw_log (fst v), gw_queue (fst v), gw_store (fst v))", OF jwks_get_quiet i]
  have "store_of w1 = store_of demo_start" "queue_of w1 = queue_of demo_start" by simp_all
  ultimately show ?thesis using i by (simp add: demo_start_parts)
qed

lemma demo_request_executes:
  "EvExecuted ''db_query'' orders_request \<in> set (log_of (snd (demo_response ''Bearer good'')))"
proof -
  obtain w1 where i: "identify demo_jwt (jwks_get demo_platform) (ha_mode demo_http_app) (ha_token demo_http_app)
      (ha_oidc demo_http_app \<noteq> None) ''good'' demo_start = (Inr ann, w1)" "store_of w1 = Inl (empty_mem_store int)" "queue_of w1 = demo_queue []"
    using demo_identified by blast
  let ?w2 = "w1\<lparr>hw_principal := Some ann\<rparr>"
  obtain r v where shell: "http_call_tool demo_http_app ''t'' ''shell_exec'' (Some []) ?w2 = (r, v)" by (rule prod.exhaust)
  from handler_log [OF demo_app_built demo_queue_ok(1) demo_start_parts(1,2) _ _ shell] i demo_queue_ok(2)
  have "hw_principal v = Some ann" "any_ok demo_redis_config (store_of v)" by (simp_all add: demo_ready)
  note executed = demo_call_executes [OF this]
  have sc: "\<not> exempt ''oidc'' (demo_scope ''Bearer good'')" "bearer (demo_scope ''Bearer good'') = Some ''good''"
    "sc_type (demo_scope ''Bearer good'') = ''http''" "sc_path (demo_scope ''Bearer good'') = Some ''/mcp''" by code_simp+
  have "ha_mode demo_http_app = ''oidc''"
    using http_app_fields(5) [OF demo_app_built] by (simp add: demo_settings_def)
  with sc i(1) shell executed show ?thesis
    by (simp add: demo_response_def handle_request_def AuthenticationMiddleware_def finally_io_def http_routes_def demo_mcp_def)
qed


end
