(* ===== verification/Lifetime.thy ===== *)
theory Lifetime
  imports Http_App Worker_Safety
begin

text \<open>
  Start-up and shut-down of the three processes: \<open>run_stdio_server\<close> in \<open>server.py\<close> around
  \<open>asyncio_stdio_server\<close>, the lifespan of \<open>create_http_app\<close>, and the lifespan of \<open>create_worker_app\<close>.
  Clients, pipes and the tracer are resources that are open or not.  Whether opening or closing one raises is a
  parameter; a resource whose \<open>close\<close> raises counts as open.
\<close>

section \<open>Resources of a process\<close>

datatype resource = StateStoreClient | TracerProvider | ApprovalQueueClient | ControlPlaneEngine | WorkerHttpClient
  | ReadTransport | WriteTransport | ReadStream | WriteStream | ReadStreamWriter | WriteStreamReader

record 'y process =
  pr_database :: "(string, order_row) dict option"
  pr_service :: "'y worker_service"
  pr_open :: "resource list"

text \<open>\<open>su_interrupt\<close> is what a cancelled handler leaves of the outside world.\<close>

record 'y surroundings =
  su_seed :: "exn option"
  su_open :: "resource \<Rightarrow> exn option"
  su_close :: "resource \<Rightarrow> exn option"
  su_audit :: "exn + audit_log"
  su_flush :: "exn + bool"
  su_interrupt :: "'y \<Rightarrow> 'y"

type_synonym ('y, 'a) lifetime = "('y process, 'a) aio"

definition fallible :: "exn option \<Rightarrow> ('w \<Rightarrow> 'w) \<Rightarrow> ('w, unit) aio" where
  "fallible failure f = (case failure of Some x \<Rightarrow> raise_io x | None \<Rightarrow> modify_io f)"

definition open_resource :: "'y surroundings \<Rightarrow> resource \<Rightarrow> ('y, unit) lifetime" where
  "open_resource E r = fallible (su_open E r) (\<lambda>p. p\<lparr>pr_open := r # pr_open p\<rparr>)"

definition close_resource :: "'y surroundings \<Rightarrow> resource \<Rightarrow> ('y, unit) lifetime" where
  "close_resource E r = fallible (su_close E r) (\<lambda>p. p\<lparr>pr_open := removeAll r (pr_open p)\<rparr>)"

text \<open>\<open>try: m finally: f\<close> where \<open>f\<close> may raise; its exception replaces the outcome of \<open>m\<close>.\<close>

definition try_finally :: "('w, 'a) aio \<Rightarrow> ('w, unit) aio \<Rightarrow> ('w, 'a) aio" where
  "try_finally m f w = (case m w of (r, w1) \<Rightarrow> (case f w1 of (Inl x, w2) \<Rightarrow> (Inl x, w2) | (Inr u, w2) \<Rightarrow> (r, w2)))"

section \<open>The worker service\<close>

text \<open>\<open>stop\<close> with its \<open>gather\<close>: every worker that has a job is interrupted.\<close>

fun cancel_workers :: "nat \<Rightarrow> ('y \<Rightarrow> 'y) \<Rightarrow> 'y worker_service \<Rightarrow> 'y worker_service" where
  "cancel_workers 0 h s = s"
| "cancel_workers (Suc n) h s = cancel_workers n h (worker_cancelled 0 (h (ws_outside s)) s)"

definition stop :: "('y \<Rightarrow> 'y) \<Rightarrow> 'y worker_service \<Rightarrow> 'y worker_service" where
  "stop h s = (let s1 = stop_begin s in stop_end (cancel_workers (length (ws_active s1)) h s1))"

definition start_service :: "'y execution_runtime \<Rightarrow> ('y, unit) lifetime" where
  "start_service rt = (case er_worker_service rt of
       None \<Rightarrow> ret ()
     | Some pool \<Rightarrow> modify_io (\<lambda>p. p\<lparr>pr_service := start (wp_config pool) (pr_service p)\<rparr>))"

definition seed :: "'y surroundings \<Rightarrow> ('y, unit) lifetime" where
  "seed E = fallible (su_seed E) (\<lambda>p. p\<lparr>pr_database := seed_database (pr_database p)\<rparr>)"

section \<open>Clean-up\<close>

text \<open>The statements of a \<open>finally\<close> block, in order.  The remote client opens its connection on first use and
  closes it only then.\<close>

datatype cleanup = Close resource | StopWorkers | ForceFlush

fun clean :: "'y surroundings \<Rightarrow> cleanup \<Rightarrow> ('y, unit) lifetime" where
  "clean E (Close r) = (\<lambda>p. if r = WorkerHttpClient \<and> r \<notin> set (pr_open p) then (Inr (), p) else close_resource E r p)"
| "clean E StopWorkers = modify_io (\<lambda>p. p\<lparr>pr_service := stop (su_interrupt E) (pr_service p)\<rparr>)"
| "clean E ForceFlush = bind_io (lift_res (su_flush E)) (\<lambda>b. ret ())"

fun clean_all :: "'y surroundings \<Rightarrow> cleanup list \<Rightarrow> ('y, unit) lifetime" where
  "clean_all E [] = ret ()"
| "clean_all E (c # cs) = bind_io (clean E c) (\<lambda>u. clean_all E cs)"

definition store_cleanup :: "settings \<Rightarrow> cleanup list" where
  "store_cleanup s = (if cfg_state_store_backend s = MemoryBackend then [] else [Close StateStoreClient])"

definition control_plane_cleanup :: "settings \<Rightarrow> cleanup list" where
  "control_plane_cleanup s = (if cfg_control_plane_enabled s then [Close ControlPlaneEngine] else [])"

definition worker_cleanup :: "'y execution_runtime \<Rightarrow> cleanup list" where
  "worker_cleanup rt = (if er_worker_service rt = None then [] else [StopWorkers]) @
     (if er_remote_worker rt = None then [] else [Close WorkerHttpClient])"

definition stdio_cleanup :: "settings \<Rightarrow> 'y execution_runtime \<Rightarrow> cleanup list" where
  "stdio_cleanup s rt = store_cleanup s @ [Close ApprovalQueueClient] @ control_plane_cleanup s @ worker_cleanup rt @
     [ForceFlush, Close TracerProvider]"

definition http_cleanup :: "settings \<Rightarrow> 'y execution_runtime \<Rightarrow> cleanup list" where
  "http_cleanup s rt = worker_cleanup rt @ store_cleanup s @ [Close ApprovalQueueClient] @ control_plane_cleanup s @
     [ForceFlush, Close TracerProvider]"

section \<open>Tracing\<close>

datatype 'e exporter = GivenExporter 'e | OTLPSpanExporter string | DiscardingExporter
datatype 'e span_processor = SimpleSpanProcessor "'e exporter" | BatchSpanProcessor "'e exporter"

definition create_tracing :: "string option \<Rightarrow> 'e option \<Rightarrow> 'e span_processor" where
  "create_tracing endpoint exporter = (case exporter of
       Some e \<Rightarrow> SimpleSpanProcessor (GivenExporter e)
     | None \<Rightarrow> (case endpoint of
         Some url \<Rightarrow> BatchSpanProcessor (OTLPSpanExporter url)
       | None \<Rightarrow> SimpleSpanProcessor DiscardingExporter))"

text \<open>The stdio process exports no spans in tests; the HTTP process always exports.\<close>

definition stdio_tracing :: "settings \<Rightarrow> 'e span_processor" where
  "stdio_tracing s = create_tracing (if cfg_environment s = Test then None else Some (cfg_otlp_endpoint s)) None"

definition http_tracing :: "settings \<Rightarrow> 'e span_processor" where
  "http_tracing s = create_tracing (Some (cfg_otlp_endpoint s)) None"

section \<open>The processes\<close>

text \<open>The connections of a gateway, in the order of both entry points.\<close>

definition open_dependencies :: "'y surroundings \<Rightarrow> settings \<Rightarrow> ('y, unit) lifetime" where
  "open_dependencies E s =
     bind_io (when_io (cfg_state_store_backend s \<noteq> MemoryBackend) (open_resource E StateStoreClient)) (\<lambda>_.
     bind_io (open_resource E TracerProvider) (\<lambda>_.
     bind_io (open_resource E ApprovalQueueClient) (\<lambda>_.
     bind_io (when_io (cfg_control_plane_enabled s) (open_resource E ControlPlaneEngine)) (\<lambda>_.
     bind_io (lift_res (su_audit E)) (\<lambda>_. ret ())))))"

definition build_runtime :: "'y platform \<Rightarrow> settings \<Rightarrow> ('y, 'y execution_runtime) lifetime" where
  "build_runtime P s = bind_io (lift_res (sandbox_runner_for P s)) (\<lambda>runner. lift_res (create_execution_runtime P s runner))"

definition asyncio_stdio_server :: "'y surroundings \<Rightarrow> ('y, 'a) lifetime \<Rightarrow> ('y, 'a) lifetime" where
  "asyncio_stdio_server E body =
     bind_io (open_resource E ReadTransport) (\<lambda>_.
     bind_io (open_resource E WriteTransport) (\<lambda>_.
     bind_io (modify_io (\<lambda>p. p\<lparr>pr_open := [WriteStreamReader, WriteStream, ReadStream, ReadStreamWriter] @ pr_open p\<rparr>)) (\<lambda>_.
     try_finally body (clean_all E [Close ReadTransport, Close WriteTransport, Close ReadStream, Close WriteStream,
       Close ReadStreamWriter, Close WriteStreamReader]))))"

definition stdio_startup :: "'y surroundings \<Rightarrow> 'y platform \<Rightarrow> settings \<Rightarrow> ('y, 'y execution_runtime) lifetime" where
  "stdio_startup E P s =
     bind_io (seed E) (\<lambda>_.
     bind_io (open_dependencies E s) (\<lambda>_.
     bind_io (build_runtime P s) (\<lambda>rt.
     bind_io (start_service rt) (\<lambda>_. ret rt))))"

definition run_stdio_server :: "'y surroundings \<Rightarrow> 'y platform \<Rightarrow> settings \<Rightarrow> ('y, unit) lifetime \<Rightarrow> ('y, unit) lifetime" where
  "run_stdio_server E P s serve = bind_io (stdio_startup E P s) (\<lambda>rt.
     try_finally (asyncio_stdio_server E serve) (clean_all E (stdio_cleanup s rt)))"

text \<open>The HTTP gateway: the connections are opened when the application is built.\<close>

definition http_startup :: "'y surroundings \<Rightarrow> 'y platform \<Rightarrow> settings \<Rightarrow> ('y, 'y execution_runtime) lifetime" where
  "http_startup E P s =
     bind_io (open_dependencies E s) (\<lambda>_.
     bind_io (build_runtime P s) (\<lambda>rt.
     bind_io (lift_res (authenticator_for s)) (\<lambda>_.
     bind_io (seed E) (\<lambda>_.
     bind_io (start_service rt) (\<lambda>_. ret rt)))))"

definition run_http_server :: "'y surroundings \<Rightarrow> 'y platform \<Rightarrow> settings \<Rightarrow> ('y, unit) lifetime \<Rightarrow> ('y, unit) lifetime" where
  "run_http_server E P s serve = bind_io (http_startup E P s) (\<lambda>rt. try_finally serve (clean_all E (http_cleanup s rt)))"

definition run_worker_server :: "'y surroundings \<Rightarrow> 'y platform \<Rightarrow> settings \<Rightarrow> ('y, unit) lifetime \<Rightarrow> ('y, unit) lifetime" where
  "run_worker_server E P s serve =
     bind_io (lift_res (create_worker_app P s)) (\<lambda>pool.
     bind_io (seed E) (\<lambda>_.
     bind_io (modify_io (\<lambda>p. p\<lparr>pr_service := start (wp_config pool) (pr_service p)\<rparr>)) (\<lambda>_.
     try_finally serve (clean_all E [StopWorkers]))))"

section \<open>Lemmas\<close>

text \<open>A stopped service: no tasks, an empty queue, and every job that was queued or in flight has an outcome.\<close>

definition stopped :: "'y worker_service \<Rightarrow> 'y worker_service \<Rightarrow> bool" where
  "stopped s s' = (\<not> ws_started s' \<and> ws_queue s' = [] \<and>
     list_all (\<lambda>(j, f). length (ws_futures s') \<le> f \<or> ws_futures s' ! f \<noteq> Pending) (dict_values (ws_inflight s) @ ws_queue s))"

lemma abandon_settled:
  "ws_futures s ! f \<noteq> Pending \<Longrightarrow> ws_futures (abandon p s) ! f \<noteq> Pending"
  "f < length (ws_futures s) \<Longrightarrow> ws_futures (abandon (j, f) s) ! f \<noteq> Pending"
  by (auto simp: abandon_def set_future_def mark_uncertain_def nth_list_update split: prod.splits if_splits)

lemma fold_abandon_settled:
  "ws_futures s ! f \<noteq> Pending \<or> (\<exists>j. (j, f) \<in> set ps \<and> f < length (ws_futures s)) \<Longrightarrow>
   ws_futures (fold abandon ps s) ! f \<noteq> Pending"
proof (induction ps arbitrary: s)
  case (Cons p ps)
  from Cons.prems have "ws_futures (abandon p s) ! f \<noteq> Pending \<or> (\<exists>j. (j, f) \<in> set ps \<and> f < length (ws_futures (abandon p s)))"
    by (cases p) (auto simp: abandon_frame dest: abandon_settled)
  from Cons.IH [OF this] show ?case by simp
qed simp

lemma cancelled_all:
  "ws_stopping s \<Longrightarrow> length (ws_active s) = n \<Longrightarrow>
   ws_active (cancel_workers n h s) = [] \<and> ws_stopping (cancel_workers n h s) \<and> ws_queue (cancel_workers n h s) = ws_queue s \<and>
   ws_futures (cancel_workers n h s) = ws_futures s"
  by (induction n arbitrary: s) (auto simp: worker_cancelled_def leave_def)

lemma not_stopping: "\<not> ws_stopping s \<Longrightarrow> cancel_workers n h s = s"
  by (induction n arbitrary: s) (auto simp: worker_cancelled_def)

lemma abandon_flags: "ws_started (fold abandon ps s) = ws_started s"
  by (induction ps arbitrary: s) (auto simp: abandon_def set_future_def mark_uncertain_def split: prod.splits)

lemma stop_stops: "stopped s (stop h s)"
proof -
  let ?b = "stop_begin s"
  let ?c = "cancel_workers (length (ws_active ?b)) h ?b"
  have b: "ws_queue ?b = []" "ws_stopping ?b = ws_started s" "ws_started ?b = ws_started s"
    by (simp_all add: stop_begin_def fold_abandon_frame abandon_flags)
  have futures: "length (ws_futures ?b) \<le> f \<or> ws_futures ?b ! f \<noteq> Pending" if "(j, f) \<in> set (dict_values (ws_inflight s) @ ws_queue s)" for j f
  proof (cases "f < length (ws_futures s)")
    case True
    have "ws_futures (fold abandon (dict_values (ws_inflight s) @ ws_queue s) (s\<lparr>ws_queue := []\<rparr>)) ! f \<noteq> Pending"
      by (rule fold_abandon_settled, rule disjI2) (use that True in auto)
    then show ?thesis by (simp add: stop_begin_def del: fold_append)
  next
    case False
    then show ?thesis by (simp add: stop_begin_frame)
  qed
  have same: "ws_queue ?c = [] \<and> ws_futures ?c = ws_futures ?b \<and> (if ws_started s then ws_active ?c = [] \<and> ws_stopping ?c else ?c = ?b)"
    using cancelled_all [of ?b, OF _ refl, of h] not_stopping [of ?b] b by auto
  have "\<not> ws_started (stop_end ?c)" "ws_queue (stop_end ?c) = []" "ws_futures (stop_end ?c) = ws_futures ?b"
    using same b by (auto simp: stop_end_def split: if_splits)
  then show ?thesis using futures by (auto simp: stop_def stopped_def Let_def list_all_iff)
qed

lemmas lifetime_defs = bind_io_def ret_def raise_io_def modify_io_def lift_res_def when_io_def fallible_def open_resource_def
  close_resource_def

text \<open>What serving requests may do to the resources: use the remote worker's client, where there is one.\<close>

definition serves :: "settings \<Rightarrow> ('y, unit) lifetime \<Rightarrow> bool" where
  "serves s serve = (\<forall>p. set (pr_open (snd (serve p))) \<subseteq> set (pr_open p) \<union>
     (if cfg_worker_mode s = RemoteMode then {WorkerHttpClient} else {}))"

lemma clean_total:
  assumes "\<And>r. su_close E r = None" and "su_flush E = Inr b"
  shows "\<exists>p'. clean E c p = (Inr (), p') \<and> set (pr_open p') = set (pr_open p) - {r. c = Close r} \<and>
    (if c = StopWorkers then stopped (pr_service p) (pr_service p') else pr_service p' = pr_service p)"
  using assms by (cases c) (auto simp: lifetime_defs stop_stops)

lemma clean_all_total:
  assumes "\<And>r. su_close E r = None" and "su_flush E = Inr b"
  shows "\<exists>p'. clean_all E cs p = (Inr (), p') \<and> set (pr_open p') = set (pr_open p) - {r. Close r \<in> set cs} \<and>
    (StopWorkers \<notin> set cs \<longrightarrow> pr_service p' = pr_service p) \<and>
    (count_list cs StopWorkers = 1 \<longrightarrow> stopped (pr_service p) (pr_service p'))"
proof (induction cs arbitrary: p)
  case (Cons c cs)
  obtain p1 where p1: "clean E c p = (Inr (), p1)" "set (pr_open p1) = set (pr_open p) - {r. c = Close r}"
    "if c = StopWorkers then stopped (pr_service p) (pr_service p1) else pr_service p1 = pr_service p"
    using clean_total [OF assms] by metis
  obtain p2 where p2: "clean_all E cs p1 = (Inr (), p2)" "set (pr_open p2) = set (pr_open p1) - {r. Close r \<in> set cs}"
    "StopWorkers \<notin> set cs \<longrightarrow> pr_service p2 = pr_service p1"
    "count_list cs StopWorkers = 1 \<longrightarrow> stopped (pr_service p1) (pr_service p2)"
    using Cons.IH [of p1] by blast
  have "clean_all E (c # cs) p = (Inr (), p2)" using p1(1) p2(1) by (simp add: bind_io_def)
  moreover have "set (pr_open p2) = set (pr_open p) - {r. Close r \<in> set (c # cs)}" using p1(2) p2(2) by auto
  moreover have "StopWorkers \<notin> set (c # cs) \<longrightarrow> pr_service p2 = pr_service p" using p1(3) p2(3) by auto
  moreover have "stopped (pr_service p) (pr_service p2)" if "count_list (c # cs) StopWorkers = 1"
    using that p1(3) p2(3,4) by (cases "c = StopWorkers") (auto simp: count_list_0_iff)
  ultimately show ?case by blast
qed (simp add: ret_def)

lemma opened:
  "open_dependencies E s p = (Inr u, p1) \<Longrightarrow> set (pr_open p1) = set (pr_open p) \<union> {TracerProvider, ApprovalQueueClient} \<union>
     (if cfg_state_store_backend s = MemoryBackend then {} else {StateStoreClient}) \<union>
     (if cfg_control_plane_enabled s then {ControlPlaneEngine} else {})"
  by (auto simp: open_dependencies_def lifetime_defs split: option.splits sum.splits if_splits)

lemma seeded: "seed E p = (r, p1) \<Longrightarrow> pr_open p1 = pr_open p \<and> pr_service p1 = pr_service p"
  by (auto simp: seed_def lifetime_defs split: option.splits)

lemma started: "start_service rt p = (r, p1) \<Longrightarrow> pr_open p1 = pr_open p"
  by (auto simp: start_service_def lifetime_defs split: option.splits)

lemma built: "build_runtime P s p = (Inr rt, p1) \<Longrightarrow> p1 = p \<and> (cfg_worker_mode s = RemoteMode \<longrightarrow> er_remote_worker rt \<noteq> None)"
  by (auto simp: build_runtime_def create_execution_runtime_def lifetime_defs Let_def map_sum_Inr
      split: sum.splits option.splits worker_mode.splits)

lemma bind_returned:
  assumes "bind_io m f w = (Inr y, w')"
  obtains x w1 where "m w = (Inr x, w1)" "f x w1 = (Inr y, w')"
  using assms by (auto simp: bind_io_def split: prod.splits sum.splits)

definition dependencies :: "settings \<Rightarrow> resource set" where
  "dependencies s = {TracerProvider, ApprovalQueueClient} \<union>
     (if cfg_state_store_backend s = MemoryBackend then {} else {StateStoreClient}) \<union>
     (if cfg_control_plane_enabled s then {ControlPlaneEngine} else {})"

lemma stdio_started:
  assumes "stdio_startup E P s p = (Inr rt, p1)" and "pr_open p = []"
  shows "set (pr_open p1) = dependencies s \<and> (cfg_worker_mode s = RemoteMode \<longrightarrow> er_remote_worker rt \<noteq> None)"
proof -
  from assms(1) obtain u a v b rt' c w d where steps: "seed E p = (Inr u, a)" "open_dependencies E s a = (Inr v, b)"
    "build_runtime P s b = (Inr rt', c)" "start_service rt' c = (Inr w, d)" "rt' = rt \<and> d = p1"
    unfolding stdio_startup_def by (elim bind_returned) (rule that, assumption+, simp add: ret_def)
  from seeded [OF steps(1)] opened [OF steps(2)] built [OF steps(3)] started [OF steps(4)] steps(5) assms(2) show ?thesis
    by (auto simp: ret_def dependencies_def)
qed

lemma http_started:
  assumes "http_startup E P s p = (Inr rt, p1)" and "pr_open p = []"
  shows "set (pr_open p1) = dependencies s \<and> (cfg_worker_mode s = RemoteMode \<longrightarrow> er_remote_worker rt \<noteq> None)"
proof -
  from assms(1) obtain u a v b rt' c w d x e where steps: "seed E a = (Inr u, c)" "open_dependencies E s p = (Inr v, b)"
    "build_runtime P s b = (Inr rt', d)" "lift_res (authenticator_for s) d = (Inr x, a)" "start_service rt' c = (Inr w, e)"
    "rt' = rt \<and> e = p1"
    unfolding http_startup_def by (elim bind_returned) (rule that, assumption+, simp add: ret_def)
  from seeded [OF steps(1)] opened [OF steps(2)] built [OF steps(3)] started [OF steps(5)] steps(4,6) assms(2) show ?thesis
    by (auto simp: ret_def lift_res_def dependencies_def)
qed

text \<open>Everything that is open before the requests are served is closed by the clean-up.\<close>

lemma cleanup_covers:
  assumes "cs = stdio_cleanup s rt \<or> cs = http_cleanup s rt"
  shows "dependencies s \<subseteq> {r. Close r \<in> set cs}" and "er_remote_worker rt \<noteq> None \<Longrightarrow> Close WorkerHttpClient \<in> set cs"
    and "er_worker_service rt \<noteq> None \<Longrightarrow> count_list cs StopWorkers = 1"
  using assms by (auto simp: dependencies_def stdio_cleanup_def http_cleanup_def store_cleanup_def control_plane_cleanup_def
      worker_cleanup_def)

text \<open>Serving, then a clean-up that does not raise.\<close>

lemma cleaned_up:
  assumes "\<And>r. su_close E r = None" and "su_flush E = Inr b" and "m p1 = (r, p2)"
    and "set (pr_open p2) \<subseteq> {r. Close r \<in> set cs} \<union> R"
  shows "\<exists>p'. try_finally m (clean_all E cs) p1 = (r, p') \<and> set (pr_open p') \<subseteq> R \<and>
    (count_list cs StopWorkers = 1 \<longrightarrow> stopped (pr_service p2) (pr_service p'))"
proof -
  obtain p' where p': "clean_all E cs p2 = (Inr (), p')" "set (pr_open p') = set (pr_open p2) - {r. Close r \<in> set cs}"
    "count_list cs StopWorkers = 1 \<longrightarrow> stopped (pr_service p2) (pr_service p')"
    using clean_all_total [OF assms(1,2)] by blast
  have "try_finally m (clean_all E cs) p1 = (r, p')" using assms(3) p'(1) by (simp add: try_finally_def)
  moreover have "set (pr_open p') \<subseteq> R" using p'(2) assms(4) by blast
  ultimately show ?thesis using p'(3) by blast
qed

lemma stdio_transport_closed:
  assumes "\<And>r. su_close E r = None" and "su_flush E = Inr b" and "serves s serve" and "asyncio_stdio_server E serve p1 = (r, p2)"
  shows "set (pr_open p2) \<subseteq> set (pr_open p1) \<union> (if cfg_worker_mode s = RemoteMode then {WorkerHttpClient} else {}) \<union>
    (if su_open E WriteTransport = None then {} else {ReadTransport})"
proof (cases "su_open E ReadTransport = None \<and> su_open E WriteTransport = None")
  case True
  let ?p = "p1\<lparr>pr_open := [WriteStreamReader, WriteStream, ReadStream, ReadStreamWriter, WriteTransport, ReadTransport] @ pr_open p1\<rparr>"
  let ?cs = "[Close ReadTransport, Close WriteTransport, Close ReadStream, Close WriteStream, Close ReadStreamWriter, Close WriteStreamReader]"
  obtain r' p3 where sv: "serve ?p = (r', p3)" by (rule prod.exhaust)
  have "asyncio_stdio_server E serve p1 = try_finally serve (clean_all E ?cs) ?p"
    using True by (simp add: asyncio_stdio_server_def lifetime_defs)
  moreover have "set (pr_open p3) \<subseteq> {r. Close r \<in> set ?cs} \<union>
      (set (pr_open p1) \<union> (if cfg_worker_mode s = RemoteMode then {WorkerHttpClient} else {}))"
    using assms(3) sv by (auto simp: serves_def dest!: spec [of _ ?p] split: if_splits)
  ultimately show ?thesis using cleaned_up [of E b serve ?p r' p3 ?cs
        "set (pr_open p1) \<union> (if cfg_worker_mode s = RemoteMode then {WorkerHttpClient} else {})", OF assms(1,2) sv] assms(4) True by auto
next
  case False
  then show ?thesis using assms(4) by (auto simp: asyncio_stdio_server_def lifetime_defs split: option.splits)
qed

lemma stdio_run_closed:
  assumes "\<And>r. su_close E r = None" and "su_flush E = Inr b" and "serves s serve" and "pr_open p = []"
    and "stdio_startup E P s p = (Inr rt, p1)" and "asyncio_stdio_server E serve p1 = (r, p2)"
  shows "\<exists>p'. run_stdio_server E P s serve p = (r, p') \<and>
    set (pr_open p') \<subseteq> (if su_open E WriteTransport = None then {} else {ReadTransport}) \<and>
    (er_worker_service rt \<noteq> None \<longrightarrow> stopped (pr_service p2) (pr_service p'))"
proof -
  let ?cs = "stdio_cleanup s rt" and ?R = "if su_open E WriteTransport = None then {} else {ReadTransport}"
  note covers = cleanup_covers [of ?cs s rt, OF disjI1 [OF refl]]
  have "set (pr_open p2) \<subseteq> {r. Close r \<in> set ?cs} \<union> ?R"
    using stdio_transport_closed [OF assms(1-3,6)] stdio_started [OF assms(5,4)] covers(1,2) by (auto split: if_splits)
  moreover have "run_stdio_server E P s serve p = try_finally (asyncio_stdio_server E serve) (clean_all E ?cs) p1"
    using assms(5) by (simp add: run_stdio_server_def bind_io_def)
  ultimately show ?thesis using cleaned_up [of E b "asyncio_stdio_server E serve" p1 r p2 ?cs ?R, OF assms(1,2,6)] covers(3) by metis
qed

lemma http_run_closed:
  assumes "\<And>r. su_close E r = None" and "su_flush E = Inr b" and "serves s serve" and "pr_open p = []"
    and "http_startup E P s p = (Inr rt, p1)" and "serve p1 = (r, p2)"
  shows "\<exists>p'. run_http_server E P s serve p = (r, p') \<and> pr_open p' = [] \<and>
    (er_worker_service rt \<noteq> None \<longrightarrow> stopped (pr_service p2) (pr_service p'))"
proof -
  let ?cs = "http_cleanup s rt"
  note covers = cleanup_covers [of ?cs s rt, OF disjI2 [OF refl]]
  have "set (pr_open p2) \<subseteq> {r. Close r \<in> set ?cs} \<union> {}"
  proof -
    have "set (pr_open p2) \<subseteq> dependencies s \<union> (if cfg_worker_mode s = RemoteMode then {WorkerHttpClient} else {})"
      using assms(3,6) http_started [OF assms(5,4)] unfolding serves_def by (metis snd_conv)
    then show ?thesis using http_started [OF assms(5,4)] covers(1,2) by (auto split: if_splits)
  qed
  moreover have "run_http_server E P s serve p = try_finally serve (clean_all E ?cs) p1"
    using assms(5) by (simp add: run_http_server_def bind_io_def)
  ultimately show ?thesis using cleaned_up [of E b serve p1 r p2 ?cs "{}", OF assms(1,2,6)] covers(3) by (metis set_empty subset_empty)
qed

lemma tracing_of_entry_points:
  "stdio_tracing s = http_tracing s \<longleftrightarrow> cfg_environment s \<noteq> Test"
  "cfg_environment s = Test \<Longrightarrow> stdio_tracing s = SimpleSpanProcessor DiscardingExporter"
  by (simp_all add: stdio_tracing_def http_tracing_def create_tracing_def)

section \<open>Properties\<close>

text \<open>C14: shut-down releases everything.  When no \<open>close\<close> raises, however serving ends (normally, by an exception or
  by cancellation), the stdio process and the HTTP process end with its outcome and with every client, pipe
  and stream closed that start-up or serving opened, and a worker service is stopped: its tasks have ended, its
  queue is empty and every job that was queued or in flight has an outcome.  A start-up that fails ends the process
  with its exception; the only other leftover is the read transport when the write pipe cannot be connected.\<close>

theorem shutdown_releases:
  assumes "\<And>r. su_close E r = None" and "su_flush E = Inr b" and "serves s serve" and "pr_open p = []"
  shows "(case stdio_startup E P s p of
       (Inl x, p1) \<Rightarrow> run_stdio_server E P s serve p = (Inl x, p1)
     | (Inr rt, p1) \<Rightarrow> (case asyncio_stdio_server E serve p1 of (r, p2) \<Rightarrow>
         (\<exists>p'. run_stdio_server E P s serve p = (r, p') \<and>
            set (pr_open p') \<subseteq> (if su_open E WriteTransport = None then {} else {ReadTransport}) \<and>
            (er_worker_service rt \<noteq> None \<longrightarrow> stopped (pr_service p2) (pr_service p'))))) \<and>
    (case http_startup E P s p of
       (Inl x, p1) \<Rightarrow> run_http_server E P s serve p = (Inl x, p1)
     | (Inr rt, p1) \<Rightarrow> (case serve p1 of (r, p2) \<Rightarrow>
         (\<exists>p'. run_http_server E P s serve p = (r, p') \<and> pr_open p' = [] \<and>
            (er_worker_service rt \<noteq> None \<longrightarrow> stopped (pr_service p2) (pr_service p')))))"
  (is "?stdio \<and> ?http")
proof
  show ?stdio
  proof (cases "stdio_startup E P s p")
    case (Pair a p1)
    obtain r p2 where "asyncio_stdio_server E serve p1 = (r, p2)" by (rule prod.exhaust)
    with Pair stdio_run_closed [OF assms(1-4)] show ?thesis
      by (cases a) (simp_all add: run_stdio_server_def bind_io_def)
  qed
  show ?http
  proof (cases "http_startup E P s p")
    case (Pair a p1)
    obtain r p2 where "serve p1 = (r, p2)" by (rule prod.exhaust)
    with Pair http_run_closed [OF assms(1-4)] show ?thesis
      by (cases a) (simp_all add: run_http_server_def bind_io_def)
  qed
qed

text \<open>A gateway with authentication whose serving is cancelled.\<close>

definition calm :: "nat surroundings" where
  "calm = \<lparr>su_seed = None, su_open = (\<lambda>r. None), su_close = (\<lambda>r. None),
     su_audit = Inr \<lparr>al_file = None, al_last_hash = GENESIS_HASH, al_clock = int, al_disk = (\<lambda>i. WriteOk), al_writes = 0\<rparr>,
     su_flush = Inr True, su_interrupt = id\<rparr>"

definition demo_process :: "nat process" where
  "demo_process = \<lparr>pr_database = None, pr_service = WorkerService 3 30 int 0, pr_open = []\<rparr>"

definition cancelled_serving :: "(nat, unit) lifetime" where
  "cancelled_serving = raise_io CancelledExn"

theorem shutdown_releases_witness:
  "set (pr_open (snd (http_startup calm demo_platform demo_settings demo_process))) = {StateStoreClient, TracerProvider, ApprovalQueueClient} \<and>
   fst (run_http_server calm demo_platform demo_settings cancelled_serving demo_process) = Inl CancelledExn \<and>
   pr_open (snd (run_http_server calm demo_platform demo_settings cancelled_serving demo_process)) = []"
proof -
  have serving: "serves demo_settings cancelled_serving" by (simp add: serves_def cancelled_serving_def raise_io_def)
  obtain rt p1 where up: "http_startup calm demo_platform demo_settings demo_process = (Inr rt, p1)"
    by (simp add: http_startup_def open_dependencies_def build_runtime_def seed_def start_service_def lifetime_defs calm_def
        demo_settings_def default_settings_def sandbox_runner_for_def SandboxRunner_def SandboxRuntime_def
        create_execution_runtime_def create_registry_eq authenticator_for_def)
  have was: "set (pr_open p1) = {StateStoreClient, TracerProvider, ApprovalQueueClient}"
    using http_started [OF up] by (auto simp: demo_process_def dependencies_def demo_settings_def default_settings_def)
  have calm: "su_close calm r = None" "su_flush calm = Inr True" "pr_open demo_process = []" for r
    by (simp_all add: calm_def demo_process_def)
  have serve: "cancelled_serving p1 = (Inl CancelledExn, p1)" by (simp add: cancelled_serving_def raise_io_def)
  obtain p' where "run_http_server calm demo_platform demo_settings cancelled_serving demo_process = (Inl CancelledExn, p')" "pr_open p' = []"
    using conjunct2 [OF shutdown_releases [OF calm(1,2) serving calm(3), of demo_platform]]
    unfolding up serve prod.case sum.case by blast
  then show ?thesis by (simp add: up was)
qed

text \<open>The order of the clean-up matters when a \<open>close\<close> raises.  The HTTP process stops its workers first; the stdio process
  closes the state store first, and when that raises it skips the rest: the workers go on and everything else
  stays open.\<close>

lemma http_stops_workers_first:
  assumes "http_startup E P s p = (Inr rt, p1)" and "serve p1 = (r, p2)" and "er_worker_service rt \<noteq> None"
    and "run_http_server E P s serve p = (r', p')"
  shows "stopped (pr_service p2) (pr_service p')"
proof -
  have keep: "StopWorkers \<notin> set cs \<Longrightarrow> clean_all E cs q = (a, q') \<Longrightarrow> pr_service q' = pr_service q" for cs q a q'
  proof (induction cs arbitrary: q)
    case (Cons c cs)
    then show ?case
      by (cases c) (auto simp: bind_io_def lifetime_defs split: prod.splits sum.splits option.splits if_splits; fastforce)+
  qed (simp add: ret_def)
  obtain cs where cs: "http_cleanup s rt = StopWorkers # cs" "StopWorkers \<notin> set cs"
    using assms(3) by (auto simp: http_cleanup_def worker_cleanup_def store_cleanup_def control_plane_cleanup_def)
  let ?q = "p2\<lparr>pr_service := stop (su_interrupt E) (pr_service p2)\<rparr>"
  obtain a q where q: "clean_all E cs ?q = (a, q)" by (rule prod.exhaust)
  then have "p' = q" using assms cs(1)
    by (auto simp: run_http_server_def bind_io_def try_finally_def modify_io_def split: sum.splits)
  with keep [OF cs(2) q] show ?thesis by (simp add: stop_stops)
qed

lemma stdio_failed_close_skips:
  assumes "stdio_startup E P s p = (Inr rt, p1)" and "asyncio_stdio_server E serve p1 = (r, p2)"
    and "cfg_state_store_backend s = RedisBackend" and "su_close E StateStoreClient = Some x"
  shows "run_stdio_server E P s serve p = (Inl x, p2)"
  using assms by (simp add: run_stdio_server_def bind_io_def try_finally_def stdio_cleanup_def store_cleanup_def
      close_resource_def fallible_def raise_io_def)

end
