(* ===== verification/Tracing.thy ===== *)
theory Tracing
  imports Lifecycle
begin

text \<open>
  Tracing (\<open>tracing/otel.py\<close>) and the spans of \<open>execute_tool_call\<close>.  \<open>Server\<close> leaves the spans out; here
  the pipeline is written once more with every span and every attribute that the code sets, over a tracer
  provider that is a parameter, and it is shown to behave like the one of \<open>Server\<close>.
\<close>

section \<open>The tracing manager\<close>

text \<open>
  What the code uses of OpenTelemetry.  \<open>tp_start\<close> and \<open>tp_end\<close> are the two ends of
  \<open>start_as_current_span\<close>; the second one is told the exception that leaves the block.  \<open>tp_trace_id\<close> is the
  hexadecimal trace identifier of a span.
\<close>

datatype attribute = AttrStr string | AttrInt int

record ('t, 'sp) tracer_provider =
  tp_start :: "string \<Rightarrow> (string \<times> attribute) list \<Rightarrow> 't \<Rightarrow> 'sp \<times> 't"
  tp_end :: "'sp \<Rightarrow> exn option \<Rightarrow> 't \<Rightarrow> 't"
  tp_set_attribute :: "'sp \<Rightarrow> string \<Rightarrow> attribute \<Rightarrow> 't \<Rightarrow> 't"
  tp_trace_id :: "'sp \<Rightarrow> string"
  tp_force_flush :: "'t \<Rightarrow> bool \<times> 't"
  tp_shutdown :: "'t \<Rightarrow> 't"

text \<open>The tracer's state stands beside the gateway's.\<close>

type_synonym ('t, 's, 'q, 'x, 'a) traced = "((('t \<times> ('s, 'q, 'x) gw) \<times> loop_env), 'a) aio"

definition span :: "('t, 'sp) tracer_provider \<Rightarrow> string \<Rightarrow> (string \<times> attribute) list \<Rightarrow>
    ('sp \<Rightarrow> ('t, 's, 'q, 'x, 'a) traced) \<Rightarrow> ('t, 's, 'q, 'x, 'a) traced" where
  "span TP name attributes body = (\<lambda>((t, g), v).
     case tp_start TP name attributes t of (sp, t1) \<Rightarrow>
     (case body sp ((t1, g), v) of (r, ((t2, g'), v')) \<Rightarrow>
        (r, ((tp_end TP sp (case r of Inl x \<Rightarrow> Some x | Inr y \<Rightarrow> None) t2, g'), v'))))"

definition set_attribute :: "('t, 'sp) tracer_provider \<Rightarrow> 'sp \<Rightarrow> string \<Rightarrow> attribute \<Rightarrow> ('t, 's, 'q, 'x, unit) traced" where
  "set_attribute TP sp key v = modify_io (\<lambda>((t, g), le). ((tp_set_attribute TP sp key v t, g), le))"

definition force_flush :: "('t, 'sp) tracer_provider \<Rightarrow> ('t, bool) aio" where
  "force_flush TP t = (case tp_force_flush TP t of (b, t') \<Rightarrow> (Inr b, t'))"

definition shutdown_tracing :: "('t, 'sp) tracer_provider \<Rightarrow> ('t, unit) aio" where
  "shutdown_tracing TP = modify_io (tp_shutdown TP)"

text \<open>A step that does not touch the tracer.\<close>

definition plain :: "('s, 'q, 'x, 'a) gio \<Rightarrow> ('t, 's, 'q, 'x, 'a) traced" where
  "plain m = (\<lambda>((t, g), v). case m (g, v) of (r, (g', v')) \<Rightarrow> (r, ((t, g'), v')))"

section \<open>Logging\<close>

text \<open>
  What \<open>configure_logging\<close> uses of structlog.  A processor is given the name of the method and the event; it
  may drop the event (\<open>DropEvent\<close>), here \<open>None\<close>.  The last processor renders the line.
\<close>

record structlog_library =
  sl_merge_contextvars :: "string \<Rightarrow> jdict \<Rightarrow> jdict option"
  sl_add_log_level :: "string \<Rightarrow> jdict \<Rightarrow> jdict option"
  sl_time_stamper :: "string \<Rightarrow> jdict \<Rightarrow> jdict option"
  sl_json_renderer :: "jdict \<Rightarrow> string"

record bound_logger =
  bl_processors :: "(string \<Rightarrow> jdict \<Rightarrow> jdict option) list"
  bl_renderer :: "jdict \<Rightarrow> string"
  bl_context :: jdict

definition configure_logging :: "structlog_library \<Rightarrow> string \<Rightarrow> bound_logger" where
  "configure_logging SL log_level = \<lparr>bl_processors = [sl_merge_contextvars SL, sl_add_log_level SL, sl_time_stamper SL],
     bl_renderer = sl_json_renderer SL, bl_context = [(''log_level'', JStr log_level)]\<rparr>"

text \<open>A call such as \<open>logger.info(event, key=value)\<close>: the line that is printed, if any.\<close>

fun process_event :: "(string \<Rightarrow> jdict \<Rightarrow> jdict option) list \<Rightarrow> string \<Rightarrow> jdict \<Rightarrow> jdict option" where
  "process_event [] method_name d = Some d"
| "process_event (p # ps) method_name d = Option.bind (p method_name d) (process_event ps method_name)"

definition log_line :: "bound_logger \<Rightarrow> string \<Rightarrow> string \<Rightarrow> jdict \<Rightarrow> string option" where
  "log_line L method_name event values = map_option (bl_renderer L)
     (process_event (bl_processors L) method_name (dict_set ''event'' (JStr event) (fold (\<lambda>(k, v). dict_set k v) values (bl_context L))))"

text \<open>The configured level is a field of the returned logger and not a threshold: since none of the three processors
  drops an event, every event of every level is printed under every configured level.\<close>

lemma log_level_is_no_threshold:
  assumes "\<And>m d. sl_merge_contextvars SL m d \<noteq> None" "\<And>m d. sl_add_log_level SL m d \<noteq> None" "\<And>m d. sl_time_stamper SL m d \<noteq> None"
  shows "log_line (configure_logging SL level) method_name event values \<noteq> None"
  using assms by (auto simp: log_line_def configure_logging_def bind_eq_None_conv)

section \<open>The pipeline with its spans\<close>

definition traced_validate :: "('t, 'sp) tracer_provider \<Rightarrow> ('s, 'q, 'x) gateway \<Rightarrow> call_env \<Rightarrow>
    ('t, 's, 'q, 'x, jdict) traced" where
  "traced_validate TP G e =
     bind_io (span TP ''validate'' [(''tool_name'', AttrStr (ce_tool_name e)), (''attempt'', AttrInt 1)]
       (\<lambda>sp. plain (validate_request G e))) (\<lambda>request.
     bind_io (plain (on_store (ss_transition (gc_store G) (ce_call_id e) VALIDATED None))) (\<lambda>u. ret request))"

definition traced_await :: "('t, 'sp) tracer_provider \<Rightarrow> 'sp \<Rightarrow> ('s, 'q, 'x) gateway \<Rightarrow> call_env \<Rightarrow> jdict \<Rightarrow> jdict \<Rightarrow>
    policy_decision \<Rightarrow> ('t, 's, 'q, 'x, unit) traced" where
  "traced_await TP sp G e request policy_input decision = (case gc_approval_queue G of
       None \<Rightarrow> raise_io (GatewayExn (PolicyDeniedError ''Approval is required but no approval queue is configured''))
     | Some Q \<Rightarrow>
         bind_io (plain uuid4) (\<lambda>uid. bind_io (plain utc_now) (\<lambda>now.
         let approval = create_approval_request uid now (ce_call_id e) (ce_tool_name e) request policy_input
               (pd_matched_rule decision) in
         bind_io (plain (on_store (ss_transition (gc_store G) (ce_call_id e) AWAITING_APPROVAL None))) (\<lambda>u.
         bind_io (plain (on_queue (aq_submit Q approval))) (\<lambda>u.
         bind_io (plain (log_event (EvSubmitted approval))) (\<lambda>u.
         bind_io (plain (when_io (gc_control_plane G)
             (on_cp (create_approval approval (map_option p_tenant_id (ce_principal e)))))) (\<lambda>u.
         bind_io (plain (catch_io (on_queue (aq_wait Q uid))
             (\<lambda>x. if approval_refused x
                then bind_io (record_denial G e (pd_reason decision)) (\<lambda>u. raise_io x)
                else raise_io x))) (\<lambda>resolved.
         bind_io (set_attribute TP sp ''approver'' (AttrStr (or_text (ap_approver resolved) ''unknown''))) (\<lambda>u.
         bind_io (plain (log_event (EvReleased uid resolved))) (\<lambda>u.
         bind_io (plain (set_locals (\<lambda>l. l\<lparr>cl_approver_identity := ap_approver resolved\<rparr>))) (\<lambda>u.
         plain (when_io (gc_control_plane G)
           (bind_io utc_now (\<lambda>decided_at.
            bind_io (on_cp (resolve_approval uid (or_text (ap_decision resolved) ''approved'')
               (or_text (ap_approver resolved) ''unknown'') (or_text (ap_reason resolved) []) decided_at))
              (\<lambda>b. ret ())))))))))))))))"

definition traced_policy :: "('t, 'sp) tracer_provider \<Rightarrow> ('s, 'q, 'x) gateway \<Rightarrow> call_env \<Rightarrow> jdict \<Rightarrow>
    ('t, 's, 'q, 'x, 'x tool_definition) traced" where
  "traced_policy TP G e request = span TP ''policy'' [(''tool_name'', AttrStr (ce_tool_name e)), (''attempt'', AttrInt 1),
       (''decision'', AttrStr ''not_evaluated'')] (\<lambda>sp.
     bind_io (lift_res (registry_get (gc_registry G) (ce_tool_name e))) (\<lambda>definition.
     let policy_input = policy_input_for (ce_tool_name e) (ce_principal e) definition request in
     bind_io (plain (set_locals (\<lambda>l. l\<lparr>cl_policy_input := policy_input\<rparr>))) (\<lambda>u.
     bind_io (plain (evaluate_policy G policy_input)) (\<lambda>decision.
     bind_io (plain (set_locals (\<lambda>l. update_last (\<lambda>r. (if pd_outcome decision = ALLOW then id
           else (\<lambda>r. r\<lparr>rr_outcome := ''policy_denied''\<rparr>)) (r\<lparr>rr_policy_outcome := Some (pd_outcome decision)\<rparr>))
         (l\<lparr>cl_policy_outcome := pd_outcome decision, cl_matched_rule := Some (pd_matched_rule decision)\<rparr>)))) (\<lambda>u.
     bind_io (set_attribute TP sp ''decision'' (AttrStr (pd_outcome decision))) (\<lambda>u.
     bind_io (set_attribute TP sp ''matched_rule'' (AttrStr (pd_matched_rule decision))) (\<lambda>u.
     bind_io (plain (on_store (ss_transition (gc_store G) (ce_call_id e) POLICY_CHECKED None))) (\<lambda>u.
     bind_io
       (if pd_outcome decision = REQUIRES_APPROVAL then traced_await TP sp G e request policy_input decision
        else if pd_outcome decision \<noteq> ALLOW
        then bind_io (plain (record_denial G e (pd_reason decision)))
          (\<lambda>u. raise_io (GatewayExn (PolicyDeniedError (pd_reason decision))))
        else ret ())
       (\<lambda>u. ret definition)))))))))"

definition traced_recheck :: "('t, 'sp) tracer_provider \<Rightarrow> ('s, 'q, 'x) gateway \<Rightarrow> call_env \<Rightarrow> 'x tool_definition \<Rightarrow> nat \<Rightarrow>
    jdict \<Rightarrow> ('t, 's, 'q, 'x, unit) traced" where
  "traced_recheck TP G e definition attempt_number arguments = span TP ''policy'' [(''tool_name'', AttrStr (ce_tool_name e)),
       (''attempt'', AttrInt (int attempt_number)), (''decision'', AttrStr ''repaired_arguments'')] (\<lambda>sp.
     bind_io (lift_res (registry_validate (gc_registry G) (ce_tool_name e) arguments)) (\<lambda>repaired.
     bind_io (plain (evaluate_policy G (policy_input_for (ce_tool_name e) (ce_principal e) definition repaired))) (\<lambda>decision.
     bind_io (plain (set_locals (update_last (\<lambda>r. r\<lparr>rr_policy_outcome := Some (pd_outcome decision)\<rparr>)))) (\<lambda>u.
     bind_io (set_attribute TP sp ''decision'' (AttrStr (pd_outcome decision))) (\<lambda>u.
     bind_io (set_attribute TP sp ''matched_rule'' (AttrStr (pd_matched_rule decision))) (\<lambda>u.
     plain (when_io (pd_outcome decision \<noteq> ALLOW)
       (bind_io (set_locals (update_last (\<lambda>r. r\<lparr>rr_outcome := ''policy_denied''\<rparr>)))
         (\<lambda>u. raise_io (GatewayExn (PolicyDeniedError ''Repaired arguments were denied by policy'')))))))))))"

definition traced_run_tool :: "('t, 'sp) tracer_provider \<Rightarrow> ('s, 'q, 'x) gateway \<Rightarrow> call_env \<Rightarrow> nat \<Rightarrow> jdict \<Rightarrow>
    ('t, 's, 'q, 'x, jdict) traced" where
  "traced_run_tool TP G e attempt_number arguments =
     span TP ''sandbox'' [(''tool_name'', AttrStr (ce_tool_name e)), (''attempt'', AttrInt (int attempt_number)),
       (''runtime'', AttrStr ''sandbox'')] (\<lambda>outer.
     span TP ''execute'' [(''tool_name'', AttrStr (ce_tool_name e)), (''attempt'', AttrInt (int attempt_number))] (\<lambda>inner.
       plain (run_tool G e arguments)))"

definition traced_attempt_body :: "('t, 'sp) tracer_provider \<Rightarrow> ('s, 'q, 'x) gateway \<Rightarrow> call_env \<Rightarrow> 'x tool_definition \<Rightarrow> nat \<Rightarrow>
    jdict \<Rightarrow> ('t, 's, 'q, 'x, jdict) traced" where
  "traced_attempt_body TP G e definition attempt_number arguments = catch_io
     (bind_io (when_io (1 < attempt_number) (traced_recheck TP G e definition attempt_number arguments)) (\<lambda>u.
      bind_io (traced_run_tool TP G e attempt_number arguments) (\<lambda>result.
      bind_io (plain (on_store (ss_finish_attempt (gc_store G) (ce_call_id e) attempt_number ''succeeded'' None)))
        (\<lambda>u. ret result))))
     (\<lambda>x. case x of
        GatewayExn err \<Rightarrow> bind_io (plain (on_store (ss_finish_attempt (gc_store G) (ce_call_id e) attempt_number
          ''failed'' (Some (error_message err))))) (\<lambda>u. raise_io x)
      | _ \<Rightarrow> raise_io x)"

definition traced_attempt :: "('t, 'sp) tracer_provider \<Rightarrow> ('s, 'q, 'x) gateway \<Rightarrow> call_env \<Rightarrow> 'x tool_definition \<Rightarrow> jdict \<Rightarrow>
    ('t, 's, 'q, 'x, jdict) traced" where
  "traced_attempt TP G e definition arguments =
     bind_io (plain locals) (\<lambda>l. let attempt_number = cl_latest_attempt l in
     bind_io (plain (when_io (1 < attempt_number)
         (on_store (ss_start_attempt (gc_store G) (ce_call_id e) attempt_number)))) (\<lambda>u.
     bind_io (plain (on_store (ss_transition (gc_store G) (ce_call_id e) EXECUTING None))) (\<lambda>u.
     finally_io (traced_attempt_body TP G e definition attempt_number arguments)
       (\<lambda>((t, g), v). ((t, g\<lparr>gw_locals := (gw_locals g)\<lparr>cl_last_finished_attempt := attempt_number,
          cl_latest_attempt := Suc (cl_latest_attempt (gw_locals g))\<rparr>\<rparr>), v)))))"

definition traced_execution :: "('t, 'sp) tracer_provider \<Rightarrow> ('s, 'q, 'x) gateway \<Rightarrow> call_env \<Rightarrow> jdict \<Rightarrow> 'x tool_definition \<Rightarrow>
    ('t, 's, 'q, 'x, call_tool_result) traced" where
  "traced_execution TP G e request definition =
     bind_io (run (RepairLoop default_backoff) request (traced_attempt TP G e definition)
         (repair_context_for e definition)
         (case gc_repair_advisor G of None \<Rightarrow> None | Some a \<Rightarrow> Some (\<lambda>c d. plain (repair_arguments G e definition c d)))) (\<lambda>(output, n).
     bind_io (plain (on_store (ss_transition (gc_store G) (ce_call_id e) SUCCEEDED None))) (\<lambda>u.
     bind_io (plain (write_audit G e ''succeeded'')) (\<lambda>u.
     ret (tool_result output False))))"

definition traced_settle :: "('t, 'sp) tracer_provider \<Rightarrow> ('s, 'q, 'x) gateway \<Rightarrow> call_env \<Rightarrow>
    ('t, 's, 'q, 'x, call_tool_result) traced" where
  "traced_settle TP G e = catch_io
     (bind_io (traced_validate TP G e) (\<lambda>request.
      bind_io (traced_policy TP G e request) (\<lambda>definition.
      traced_execution TP G e request definition))) (\<lambda>x. case x of
       GatewayExn err \<Rightarrow> plain (fail_call G e err)
     | PyExn c m \<Rightarrow> plain (fail_call G e (ToolExecutionError ''The tool failed unexpectedly''))
     | CancelledExn \<Rightarrow> raise_io x)"

definition call_attributes :: "string \<Rightarrow> risk_class option \<Rightarrow> principal option \<Rightarrow> (string \<times> attribute) list" where
  "call_attributes tool_name risk who = [(''tool_name'', AttrStr tool_name),
     (''risk_class'', AttrStr (case risk of Some c \<Rightarrow> risk_value c | None \<Rightarrow> ''unknown'')), (''attempt'', AttrInt 1),
     (''subject'', AttrStr (case who of Some p \<Rightarrow> p_subject p | None \<Rightarrow> ''anonymous'')),
     (''tenant_id'', AttrStr (case who of Some p \<Rightarrow> p_tenant_id p | None \<Rightarrow> ''local'')),
     (''roles'', AttrStr (case who of Some p \<Rightarrow> join '','' (map role_value (p_roles p)) | None \<Rightarrow> ''admin''))]"

definition traced_execute_tool_call :: "('t, 'sp) tracer_provider \<Rightarrow> ('s, 'q, 'x) gateway \<Rightarrow> string \<Rightarrow> string \<Rightarrow> jdict option \<Rightarrow>
    principal option \<Rightarrow> ('t, 's, 'q, 'x, call_tool_result) traced" where
  "traced_execute_tool_call TP G session_id tool_name arguments who =
     bind_io (plain uuid4) (\<lambda>call_id. bind_io (plain monotonic) (\<lambda>started.
     let risk = (case registry_get (gc_registry G) tool_name of Inl x \<Rightarrow> None
           | Inr definition \<Rightarrow> Some (td_risk_class definition))
     in span TP ''tool_call'' (call_attributes tool_name risk who) (\<lambda>root_span.
     let e = \<lparr>ce_call_id = call_id, ce_trace_id = tp_trace_id TP root_span, ce_session_id = session_id,
           ce_tool_name = tool_name, ce_arguments = arguments, ce_principal = who, ce_started = started\<rparr>
     in bind_io (plain utc_now) (\<lambda>now.
     bind_io (plain (catch_io (bind_io (on_store (ss_create_call (gc_store G) (new_record e risk now))) (\<lambda>u. ret None))
         (\<lambda>x. if x = unavailable then ret (Some (tool_result (dump_error StateStoreUnavailableError) True))
            else raise_io x))) (\<lambda>early. case early of
       Some result \<Rightarrow> ret result
     | None \<Rightarrow>
         bind_io (plain (except_exception (bind_io (persist_call G e (new_record e risk now)) (\<lambda>u. ret None))
           (ret (Some (tool_result (dump_error
              (ToolExecutionError ''Durable control-plane persistence is unavailable'')) True))))) (\<lambda>early. case early of
           Some result \<Rightarrow> ret result
         | None \<Rightarrow> bind_io (plain (set_locals (\<lambda>l. initial_locals))) (\<lambda>u. traced_settle TP G e)))))))"

section \<open>The same behaviour\<close>

text \<open>\<open>mirrors mt m\<close>: \<open>mt\<close> returns or raises what \<open>m\<close> does and changes the gateway's state as \<open>m\<close> does.\<close>

definition untraced :: "('t \<times> 'g) \<times> 'v \<Rightarrow> 'g \<times> 'v" where
  "untraced w = (snd (fst w), snd w)"

definition mirrors :: "(('t \<times> 'g) \<times> 'v, 'a) aio \<Rightarrow> ('g \<times> 'v, 'a) aio \<Rightarrow> bool" where
  "mirrors mt m = (\<forall>w. map_prod id untraced (mt w) = m (untraced w))"

lemma mirrorsD: "mirrors mt m \<Longrightarrow> mt w = (r, w') \<Longrightarrow> m (untraced w) = (r, untraced w')"
  by (metis mirrors_def id_apply map_prod_simp)

lemma mirrorsI: "(\<And>w r w'. mt w = (r, w') \<Longrightarrow> m (untraced w) = (r, untraced w')) \<Longrightarrow> mirrors mt m"
  unfolding mirrors_def by (metis id_apply map_prod_simp surj_pair)

lemma mirrors_plain: "mirrors (plain m) m"
  by (auto simp: mirrors_def plain_def untraced_def split: prod.split)

lemma mirrors_ret: "mirrors (ret x) (ret x)"
  by (simp add: mirrors_def ret_def)

lemma mirrors_raise: "mirrors (raise_io x) (raise_io x)"
  by (simp add: mirrors_def raise_io_def)

lemma mirrors_lift_res: "mirrors (lift_res r) (lift_res r)"
  by (simp add: mirrors_def lift_res_def)

lemma mirrors_bind:
  assumes "mirrors mt m" and "\<And>x. mirrors (ft x) (f x)"
  shows "mirrors (bind_io mt ft) (bind_io m f)"
proof (rule mirrorsI)
  fix w r w' assume run: "bind_io mt ft w = (r, w')"
  obtain y w1 where mt: "mt w = (y, w1)" by (rule prod.exhaust)
  from run mt mirrorsD [OF assms(1) mt] show "bind_io m f (untraced w) = (r, untraced w')"
    by (cases y) (auto simp: bind_io_def mirrorsD [OF assms(2)])
qed

lemma mirrors_catch:
  assumes "mirrors mt m" and "\<And>x. mirrors (ht x) (h x)"
  shows "mirrors (catch_io mt ht) (catch_io m h)"
proof (rule mirrorsI)
  fix w r w' assume run: "catch_io mt ht w = (r, w')"
  obtain y w1 where mt: "mt w = (y, w1)" by (rule prod.exhaust)
  from run mt mirrorsD [OF assms(1) mt] show "catch_io m h (untraced w) = (r, untraced w')"
    by (cases y) (auto simp: catch_io_def mirrorsD [OF assms(2)])
qed

lemma mirrors_finally:
  assumes "mirrors mt m" and "\<And>w. untraced (ft w) = f (untraced w)"
  shows "mirrors (finally_io mt ft) (finally_io m f)"
proof (rule mirrorsI)
  fix w r w' assume run: "finally_io mt ft w = (r, w')"
  obtain y w1 where mt: "mt w = (y, w1)" by (rule prod.exhaust)
  from run mt mirrorsD [OF assms(1) mt] assms(2) [of w1] show "finally_io m f (untraced w) = (r, untraced w')"
    by (auto simp: finally_io_def)
qed

lemma mirrors_span:
  assumes "\<And>sp. mirrors (body sp) m"
  shows "mirrors (span TP name attrs body) m"
proof (rule mirrorsI)
  fix w r w' assume run: "span TP name attrs body w = (r, w')"
  obtain t g v where w: "w = ((t, g), v)" by (metis prod.exhaust)
  obtain sp t1 where sp: "tp_start TP name attrs t = (sp, t1)" by (rule prod.exhaust)
  obtain y t2 g2 v2 where b: "body sp ((t1, g), v) = (y, ((t2, g2), v2))" by (metis prod.exhaust)
  from run w sp b mirrorsD [OF assms b] show "m (untraced w) = (r, untraced w')"
    by (auto simp: span_def untraced_def)
qed

text \<open>Setting an attribute is not seen.\<close>

lemma mirrors_attribute: "mirrors mt m \<Longrightarrow> mirrors (bind_io (set_attribute TP sp k a) (\<lambda>u. mt)) m"
  by (rule mirrorsI) (auto simp: set_attribute_def modify_io_def bind_io_def untraced_def dest!: mirrorsD)

lemma mirrors_when: "mirrors mt m \<Longrightarrow> mirrors (when_io b mt) (when_io b m)"
  by (simp add: when_io_def mirrors_ret)

lemma mirrors_if: "(b \<Longrightarrow> mirrors mt m) \<Longrightarrow> (\<not> b \<Longrightarrow> mirrors mt' m') \<Longrightarrow> mirrors (if b then mt else mt') (if b then m else m')"
  by simp

lemma mirrors_exn:
  "(\<And>err. mirrors (f1 err) (h1 err)) \<Longrightarrow> (\<And>c m. mirrors (f2 c m) (h2 c m)) \<Longrightarrow> mirrors f3 h3 \<Longrightarrow>
   mirrors (case x of GatewayExn err \<Rightarrow> f1 err | PyExn c m \<Rightarrow> f2 c m | CancelledExn \<Rightarrow> f3)
     (case x of GatewayExn err \<Rightarrow> h1 err | PyExn c m \<Rightarrow> h2 c m | CancelledExn \<Rightarrow> h3)"
  by (cases x) auto

lemma mirrors_option:
  "mirrors f1 h1 \<Longrightarrow> (\<And>y. mirrors (f2 y) (h2 y)) \<Longrightarrow>
   mirrors (case x of None \<Rightarrow> f1 | Some y \<Rightarrow> f2 y) (case x of None \<Rightarrow> h1 | Some y \<Rightarrow> h2 y)"
  by (cases x) auto

lemmas mirror_rules = mirrors_exn mirrors_option mirrors_plain mirrors_ret mirrors_raise mirrors_lift_res mirrors_attribute mirrors_bind mirrors_catch
  mirrors_span mirrors_when mirrors_if

text \<open>The loop runs the same on both.\<close>

lemma loop_untraced:
  fixes w :: "('t \<times> 'g) \<times> loop_env"
  shows "rl_monotonic (RepairLoop p) (untraced w) = map_prod id untraced (rl_monotonic (RepairLoop p) w)"
    "can_retry (RepairLoop p) d ctx n st (untraced w) = map_prod id untraced (can_retry (RepairLoop p) d ctx n st w)"
    "pause (RepairLoop p) n st x (untraced w) = map_prod id untraced (pause (RepairLoop p) n st x w)"
  by (cases w; auto simp: RepairLoop_def untraced_def can_retry_def pause_def Let_def)+

lemma mirrors_next: 
  "(\<And>f f' c d. rept = Some f \<Longrightarrow> rep = Some f' \<Longrightarrow> mirrors (f c d) (f' c d)) \<Longrightarrow> (rept = None \<longleftrightarrow> rep = None) \<Longrightarrow>
   mirrors (next_arguments rept c d x) (next_arguments rep c d x)"
  by (auto simp: next_arguments_def mirrors_ret mirrors_raise split: option.splits)

lemma mirrors_run_from:
  fixes w :: "('t \<times> 'g) \<times> loop_env"
  assumes ex: "\<And>a. mirrors (ext a) (ex a)" and rep: "\<And>c d x. mirrors (next_arguments rept c d x) (next_arguments rep c d x)"
  shows "map_prod id untraced (run_from (RepairLoop p) ext ctx rept st n a w) = run_from (RepairLoop p) ex ctx rep st n a (untraced w)"
proof (induction "nat (bp_max_attempts p - int n)" arbitrary: n a w rule: less_induct)
  case less
  obtain r w1 where e: "ext a w = (r, w1)" by (rule prod.exhaust)
  note e' = mirrorsD [OF ex e]
  show ?case
  proof (cases r)
    case (Inr out)
    with e e' show ?thesis by (simp add: run_from.simps)
  next
    case (Inl x)
    obtain b w2 where c: "can_retry (RepairLoop p) (diagnose x) ctx n st w1 = (b, w2)" by (rule prod.exhaust)
    note c' = loop_untraced(2) [of p "diagnose x" ctx n st w1, unfolded c]
    obtain y w3 where nx: "next_arguments rept a (diagnose x) x w2 = (y, w3)" by (rule prod.exhaust)
    note nx' = mirrorsD [OF rep nx]
    obtain z w4 where pa: "pause (RepairLoop p) n st x w3 = (z, w4)" by (rule prod.exhaust)
    note pa' = loop_untraced(3) [of p n st x w3, unfolded pa]
    have "nat (bp_max_attempts p - int (Suc n)) < nat (bp_max_attempts p - int n)" if b
      using can_retry_attempts [OF c [unfolded eqTrueI [OF that]]] by (simp add: RepairLoop_def)
    note IH = less [OF this]
    show ?thesis
      using e e' c c' nx nx' pa pa' Inl IH
      by (cases "is_exception x"; cases b; cases y; cases z) (auto simp: run_from.simps)
  qed
qed

lemma mirrors_run:
  assumes "\<And>a. mirrors (ext a) (ex a)" and "\<And>c d x. mirrors (next_arguments rept c d x) (next_arguments rep c d x)"
  shows "mirrors (run (RepairLoop p) a ext ctx rept) (run (RepairLoop p) a ex ctx rep)"
  unfolding mirrors_def run_def loop_untraced(1)
  by (auto simp: mirrors_run_from [OF assms] split: prod.split)

lemma traced_phases:
  "mirrors (traced_validate TP G e) (validate_phase G e)"
  "mirrors (traced_await TP sp G e request inp dec) (await_approval G e request inp dec)"
  "mirrors (traced_policy TP G e request) (policy_phase G e request)"
  "mirrors (traced_recheck TP G e d n a) (recheck_policy G e d a)"
  "mirrors (traced_run_tool TP G e n a) (run_tool G e a)"
proof -
  show "mirrors (traced_validate TP G e) (validate_phase G e)"
    unfolding traced_validate_def validate_phase_def by (rule mirror_rules)+
  show await: "mirrors (traced_await TP sp G e request inp dec) (await_approval G e request inp dec)" for sp inp dec
    unfolding traced_await_def await_approval_def Let_def
    by (rule mirror_rules)+
  show "mirrors (traced_policy TP G e request) (policy_phase G e request)"
    unfolding traced_policy_def policy_phase_def Let_def by (rule await mirror_rules)+
  show "mirrors (traced_recheck TP G e d n a) (recheck_policy G e d a)"
    unfolding traced_recheck_def recheck_policy_def by (rule mirror_rules)+
  show "mirrors (traced_run_tool TP G e n a) (run_tool G e a)"
    unfolding traced_run_tool_def by (rule mirror_rules)+
qed

lemma traced_attempt_mirrors: "mirrors (traced_attempt TP G e d a) (execute_attempt G e d a)"
proof -
  have body: "mirrors (traced_attempt_body TP G e d n a) (attempt_body G e d n a)" for n
    unfolding traced_attempt_body_def attempt_body_def
    by (rule traced_phases mirror_rules)+
  show ?thesis
    unfolding traced_attempt_def execute_attempt_def Let_def
    by ((rule mirrors_finally mirror_rules body)+) (simp add: untraced_def case_prod_unfold)
qed

lemma traced_settle_mirrors: "mirrors (traced_settle TP G e) (settle_call G e)"
proof -
  have repair: "mirrors (next_arguments (case gc_repair_advisor G of None \<Rightarrow> None | Some a \<Rightarrow> Some (\<lambda>c d. plain (repair_arguments G e def c d))) c d x)
      (next_arguments (case gc_repair_advisor G of None \<Rightarrow> None | Some a \<Rightarrow> Some (repair_arguments G e def)) c d x)" for "def" c d x
    by (rule mirrors_next) (auto simp: mirrors_plain split: option.splits)
  have execution: "mirrors (traced_execution TP G e request d) (execution_phase G e request d)" for request d
    unfolding traced_execution_def execution_phase_def case_prod_unfold
    by (rule mirrors_run traced_attempt_mirrors repair mirror_rules)+
  show ?thesis
    unfolding traced_settle_def settle_call_def process_call_def
    by (rule execution traced_phases mirror_rules)+
qed

section \<open>Spans are closed\<close>

text \<open>What OpenTelemetry documents of the current span: starting one makes it current, ending it makes the
  previous one current again; an attribute changes nothing of this.  \<open>active\<close> is the stack of current spans.\<close>

definition stacked :: "('t, 'sp) tracer_provider \<Rightarrow> ('t \<Rightarrow> 'sp list) \<Rightarrow> bool" where
  "stacked TP active = (
     (\<forall>name attrs t. active (snd (tp_start TP name attrs t)) = fst (tp_start TP name attrs t) # active t) \<and>
     (\<forall>sp x t rest. active t = sp # rest \<longrightarrow> active (tp_end TP sp x t) = rest) \<and>
     (\<forall>sp k a t. active (tp_set_attribute TP sp k a t) = active t))"

abbreviation current :: "('t \<Rightarrow> 'sp list) \<Rightarrow> ('t \<times> 'g) \<times> 'v \<Rightarrow> 'sp list" where
  "current active w \<equiv> active (fst (fst w))"

lemma keeps_plain [keeps_rules]: "keeps (current active) (plain m)"
  by (auto simp: keeps_def plain_def split: prod.split)

lemma keeps_attribute: "stacked TP active \<Longrightarrow> keeps (current active) (set_attribute TP sp k a)"
  by (auto simp: stacked_def set_attribute_def intro!: keeps_modify)

lemma keeps_span:
  assumes "stacked TP active" and "\<And>sp. keeps (current active) (body sp)"
  shows "keeps (current active) (span TP name attrs body)"
proof (rule keepsI)
  fix w r w' assume run: "span TP name attrs body w = (r, w')"
  obtain t g v where w: "w = ((t, g), v)" by (metis prod.exhaust)
  obtain sp t1 where sp: "tp_start TP name attrs t = (sp, t1)" by (rule prod.exhaust)
  obtain y t2 g2 v2 where b: "body sp ((t1, g), v) = (y, ((t2, g2), v2))" by (metis prod.exhaust)
  have "active t1 = sp # active t" using assms(1) sp by (auto simp: stacked_def) (metis fst_conv snd_conv)
  moreover have "active t2 = active t1" using keepsD [OF assms(2) b] by simp
  ultimately show "current active w' = current active w"
    using run w sp b assms(1) by (auto simp: span_def stacked_def)
qed

lemma keeps_run:
  fixes f :: "'g \<Rightarrow> 'v"
  assumes ex: "\<And>a. keeps (\<lambda>w. f (fst w)) (ex a)" and rep: "\<And>h c d. rep = Some h \<Longrightarrow> keeps (\<lambda>w. f (fst w)) (h c d)"
  shows "keeps (\<lambda>w. f (fst w)) (run (RepairLoop p) a ex ctx rep)"
proof (rule keepsI)
  fix w r w' assume run: "run (RepairLoop p) a ex ctx rep w = (r, w')"
  let ?same = "\<lambda>g. f g = f (fst w)"
  have "hoare (\<lambda>w. ?same (fst w)) (run (RepairLoop p) a ex ctx rep) (\<lambda>(x, n) w. ?same (fst w)) (\<lambda>x w. ?same (fst w))"
  proof (rule scripted.run_hoare [where I = "\<lambda>n a. ?same" and Q = "\<lambda>n x. ?same" and R = "\<lambda>n a x. ?same" and E = "\<lambda>x. ?same"])
    fix h n cur x assume "rep = Some h"
    from keeps_hoare [OF rep [OF this], of "\<lambda>y. y = f (fst w)"]
    show "hoare (\<lambda>w. ?same (fst w)) (h cur (diagnose x)) (\<lambda>cur' w. ?same (fst w) \<and> ?same (fst w)) (\<lambda>x w. ?same (fst w))"
      by (rule hoare_post) auto
  qed (auto intro: keeps_hoare [OF ex, of "\<lambda>y. y = f (fst w)"])
  then show "f (fst w') = f (fst w)"
    by (rule hoare_cases [of _ _ _ _ w]) (use run in auto)
qed

lemma keeps_exn [keeps_rules]:
  "(\<And>err. keeps v (f1 err)) \<Longrightarrow> (\<And>c m. keeps v (f2 c m)) \<Longrightarrow> keeps v f3 \<Longrightarrow>
   keeps v (case x of GatewayExn err \<Rightarrow> f1 err | PyExn c m \<Rightarrow> f2 c m | CancelledExn \<Rightarrow> f3)"
  by (cases x) auto

lemma traced_settle_stack:
  assumes TP: "stacked TP active"
  shows "keeps (current active) (traced_settle TP G e)"
proof -
  note rules = keeps_span [OF TP] keeps_attribute [OF TP] keeps_rules
  have await: "keeps (current active) (traced_await TP sp G e request inp dec)" for sp request inp dec
    unfolding traced_await_def Let_def by (rule rules)+
  have phases: "keeps (current active) (traced_validate TP G e)" "keeps (current active) (traced_policy TP G e request)"
    "keeps (current active) (traced_recheck TP G e d n a)" "keeps (current active) (traced_run_tool TP G e n a)" for request d n a
    unfolding traced_validate_def traced_policy_def traced_recheck_def traced_run_tool_def Let_def
    by (rule await rules)+
  have body: "keeps (current active) (traced_attempt_body TP G e d n a)" for d n a
    unfolding traced_attempt_body_def by (rule phases rules)+
  have attempt: "keeps (current active) (traced_attempt TP G e d a)" for d a
    unfolding traced_attempt_def Let_def by ((rule body rules)+) (simp add: case_prod_unfold)
  have execution: "keeps (current active) (traced_execution TP G e request d)" for request d
    unfolding traced_execution_def case_prod_unfold
    by ((rule attempt keeps_run [where f = "\<lambda>g. active (fst g)"] rules)+) (auto split: option.splits intro: rules)
  show ?thesis
    unfolding traced_settle_def by (rule execution phases rules)+
qed

section \<open>The whole call\<close>

text \<open>The trace identifier is read from the root span, so the state of the tracer at the start fixes it.\<close>

definition mirrors_at :: "'t \<Rightarrow> (('t \<times> 'g) \<times> 'v, 'a) aio \<Rightarrow> ('g \<times> 'v, 'a) aio \<Rightarrow> bool" where
  "mirrors_at t mt m = (\<forall>g v. map_prod id untraced (mt ((t, g), v)) = m (g, v))"

lemma mirrors_at_plain:
  assumes "\<And>x. mirrors_at t (ft x) (f x)"
  shows "mirrors_at t (bind_io (plain m) ft) (bind_io m f)"
  unfolding mirrors_at_def
proof (intro allI)
  fix g v
  obtain r g' v' where m: "m (g, v) = (r, (g', v'))" by (metis prod.exhaust)
  then show "map_prod id untraced (bind_io (plain m) ft ((t, g), v)) = bind_io m f (g, v)"
    using assms by (cases r) (auto simp: bind_io_def plain_def untraced_def mirrors_at_def)
qed

lemma mirrors_at_span:
  assumes "mirrors (body (fst (tp_start TP name attrs t))) m"
  shows "mirrors_at t (span TP name attrs body) m"
  unfolding mirrors_at_def
proof (intro allI)
  fix g v
  obtain sp t1 where sp: "tp_start TP name attrs t = (sp, t1)" by (rule prod.exhaust)
  obtain y t2 g2 v2 where b: "body sp ((t1, g), v) = (y, ((t2, g2), v2))" by (metis prod.exhaust)
  from mirrorsD [OF assms, of "((t1, g), v)"] sp b
  show "map_prod id untraced (span TP name attrs body ((t, g), v)) = m (g, v)"
    by (auto simp: span_def untraced_def)
qed

definition risk_of :: "('s, 'q, 'x) gateway \<Rightarrow> string \<Rightarrow> risk_class option" where
  "risk_of G tool_name = (case registry_get (gc_registry G) tool_name of Inl x \<Rightarrow> None
     | Inr definition \<Rightarrow> Some (td_risk_class definition))"

abbreviation root_trace_id :: "('t, 'sp) tracer_provider \<Rightarrow> ('s, 'q, 'x) gateway \<Rightarrow> string \<Rightarrow> principal option \<Rightarrow> 't \<Rightarrow> string" where
  "root_trace_id TP G tool_name who t \<equiv>
     tp_trace_id TP (fst (tp_start TP ''tool_call'' (call_attributes tool_name (risk_of G tool_name) who) t))"

lemma traced_call_mirrors:
  "mirrors_at t (traced_execute_tool_call TP G session_id tool_name arguments who)
     (execute_tool_call G (root_trace_id TP G tool_name who t) session_id tool_name arguments who)"
  unfolding traced_execute_tool_call_def execute_tool_call_def Let_def risk_of_def [symmetric]
  by (rule mirrors_at_plain mirrors_at_span traced_settle_mirrors mirror_rules)+

lemma traced_call_stack:
  assumes TP: "stacked TP active"
  shows "keeps (current active) (traced_execute_tool_call TP G session_id tool_name arguments who)"
  unfolding traced_execute_tool_call_def Let_def
  by (rule traced_settle_stack [OF TP] keeps_span [OF TP] keeps_rules)+


text \<open>A provider that numbers its spans: the state is the next number, the open spans and the finished ones.\<close>

definition counting_tracer :: "(nat \<times> nat list \<times> (nat \<times> exn option) list, nat) tracer_provider" where
  "counting_tracer = \<lparr>tp_start = (\<lambda>name attrs (n, act, done). (n, Suc n, n # act, done)),
     tp_end = (\<lambda>sp x (n, act, done). (n, tl act, done @ [(sp, x)])),
     tp_set_attribute = (\<lambda>sp k a t. t), tp_trace_id = (\<lambda>sp. replicate sp (CHR ''0'')),
     tp_force_flush = (\<lambda>t. (True, t)), tp_shutdown = id\<rparr>"

definition traced_run :: "(exn + call_tool_result) \<times>
    ((nat \<times> nat list \<times> (nat \<times> exn option) list) \<times> (mem_store, mem_queue, jdict list) gw) \<times> loop_env" where
  "traced_run = traced_execute_tool_call counting_tracer
     (demo_gateway InMemoryStateStore (constant_policy (\<lambda>inp. REQUIRES_APPROVAL)) None) ''s'' ''db_query''
     (Some (sql_arguments ''SELECT 1'')) None
     (case demo_world (empty_mem_store int) [[Decide ''u'' True ''olga'' ''fine'']] of (g, v) \<Rightarrow> (((1, [0], []), g), v))"

lemma traced_run_spans: "fst (fst (snd traced_run)) = (6, [0], [(2, None), (3, None), (5, None), (4, None), (1, None)])"
  by code_simp


end
