(* ===== verification/Migrations.thy ===== *)
theory Migrations
  imports Control_Plane
begin

text \<open>
  The schema of the control plane: the declarations of \<open>control_plane/models.py\<close> with the tables that
  SQLAlchemy derives from them, and the migration \<open>alembic/versions/0001_control_plane.py\<close> as data definition
  statements that the database checks.  PostgreSQL runs a migration in one transaction.
\<close>

section \<open>Tables\<close>

datatype sql_type = SqlString nat | SqlInteger | SqlBoolean | SqlDateTime bool | SqlJson | SqlText

record column =
  col_name :: string
  col_type :: sql_type
  col_nullable :: bool
  col_autoincrement :: bool

record sql_table =
  tb_name :: string
  tb_columns :: "column list"
  tb_primary_key :: "string list"
  tb_foreign_keys :: "(string \<times> string \<times> string) list"
  tb_unique :: "(string \<times> string list) list"

definition find_table :: "sql_table list \<Rightarrow> string \<Rightarrow> sql_table option" where
  "find_table db name = find (\<lambda>t. tb_name t = name) db"

definition find_column :: "sql_table \<Rightarrow> string \<Rightarrow> column option" where
  "find_column t name = find (\<lambda>c. col_name c = name) (tb_columns t)"

section \<open>Declared models\<close>

text \<open>
  A \<open>mapped_column\<close> with its annotation: \<open>Mapped[T | None]\<close> is optional.  Without an explicit \<open>nullable\<close>,
  SQLAlchemy takes a key as not nullable and any other column as its annotation says; a column that has only
  a foreign key takes the type of the column it refers to.
\<close>

record mapped_column =
  mc_name :: string
  mc_optional :: bool
  mc_type :: "sql_type option"
  mc_foreign_key :: "(string \<times> string) option"
  mc_primary_key :: bool
  mc_nullable :: "bool option"
  mc_autoincrement :: bool

record declared_model =
  dm_tablename :: string
  dm_columns :: "mapped_column list"
  dm_unique :: "(string \<times> string list) list"

definition required :: "string \<Rightarrow> sql_type \<Rightarrow> mapped_column" where
  "required name t = \<lparr>mc_name = name, mc_optional = False, mc_type = Some t, mc_foreign_key = None, mc_primary_key = False,
     mc_nullable = Some False, mc_autoincrement = False\<rparr>"

text \<open>A column with a Python default and no \<open>nullable\<close>, and one whose annotation allows \<open>None\<close>.\<close>

definition defaulted :: "string \<Rightarrow> sql_type \<Rightarrow> mapped_column" where
  "defaulted name t = (required name t)\<lparr>mc_nullable := None\<rparr>"

definition optional :: "string \<Rightarrow> sql_type \<Rightarrow> mapped_column" where
  "optional name t = (required name t)\<lparr>mc_nullable := None, mc_optional := True\<rparr>"

definition primary :: "string \<Rightarrow> sql_type \<Rightarrow> mapped_column" where
  "primary name t = (required name t)\<lparr>mc_nullable := None, mc_primary_key := True\<rparr>"

definition referring :: "mapped_column \<Rightarrow> string \<Rightarrow> string \<Rightarrow> mapped_column" where
  "referring c t k = c\<lparr>mc_type := None, mc_foreign_key := Some (t, k)\<rparr>"

definition TenantModel :: declared_model where
  "TenantModel = \<lparr>dm_tablename = ''tenants'', dm_columns = [primary ''id'' (SqlString 128), required ''name'' (SqlString 256),
     defaulted ''created_at'' (SqlDateTime True)], dm_unique = []\<rparr>"

definition PrincipalModel :: declared_model where
  "PrincipalModel = \<lparr>dm_tablename = ''principals'', dm_columns =
     [(primary ''id'' SqlInteger)\<lparr>mc_autoincrement := True\<rparr>,
      referring (required ''tenant_id'' SqlText) ''tenants'' ''id'', required ''subject'' (SqlString 256),
      required ''roles'' SqlJson, optional ''issuer'' (SqlString 512), optional ''agent_id'' (SqlString 256),
      defaulted ''created_at'' (SqlDateTime True)],
     dm_unique = [(''uq_principal_tenant_subject'', [''tenant_id'', ''subject''])]\<rparr>"

definition ToolCallModel :: declared_model where
  "ToolCallModel = \<lparr>dm_tablename = ''tool_calls'', dm_columns =
     [primary ''call_id'' (SqlString 128), required ''trace_id'' (SqlString 128), required ''session_id'' (SqlString 128),
      referring (optional ''tenant_id'' SqlText) ''tenants'' ''id'', optional ''subject'' (SqlString 256),
      required ''tool_name'' (SqlString 256), optional ''risk_class'' (SqlString 64), required ''arguments'' SqlJson,
      required ''current_state'' (SqlString 64), optional ''policy_decision'' (SqlString 64),
      optional ''policy_rule'' (SqlString 256), optional ''outcome'' (SqlString 128),
      defaulted ''created_at'' (SqlDateTime True), defaulted ''updated_at'' (SqlDateTime True)], dm_unique = []\<rparr>"

definition AttemptModel :: declared_model where
  "AttemptModel = \<lparr>dm_tablename = ''attempts'', dm_columns =
     [(primary ''id'' SqlInteger)\<lparr>mc_autoincrement := True\<rparr>,
      referring (required ''call_id'' SqlText) ''tool_calls'' ''call_id'', required ''attempt'' SqlInteger,
      required ''started_at'' (SqlDateTime True), optional ''finished_at'' (SqlDateTime True),
      optional ''outcome'' (SqlString 128), optional ''error'' SqlText],
     dm_unique = [(''uq_attempt_call_number'', [''call_id'', ''attempt''])]\<rparr>"

definition ApprovalModel :: declared_model where
  "ApprovalModel = \<lparr>dm_tablename = ''approvals'', dm_columns =
     [primary ''approval_id'' (SqlString 128), required ''call_id'' (SqlString 128),
      referring (optional ''tenant_id'' SqlText) ''tenants'' ''id'', required ''tool_name'' (SqlString 256),
      required ''arguments'' SqlJson, required ''policy_input'' SqlJson, required ''matched_rule'' (SqlString 256),
      optional ''decision'' (SqlString 64), optional ''approver'' (SqlString 256), optional ''reason'' SqlText,
      defaulted ''created_at'' (SqlDateTime True), optional ''decided_at'' (SqlDateTime True)], dm_unique = []\<rparr>"

definition IdempotencyKeyModel :: declared_model where
  "IdempotencyKeyModel = \<lparr>dm_tablename = ''idempotency_keys'', dm_columns =
     [primary ''key'' (SqlString 256), referring (primary ''tenant_id'' SqlText) ''tenants'' ''id'',
      required ''call_id'' (SqlString 128), required ''status'' (SqlString 64),
      defaulted ''created_at'' (SqlDateTime True), defaulted ''updated_at'' (SqlDateTime True)], dm_unique = []\<rparr>"

definition PolicyVersionModel :: declared_model where
  "PolicyVersionModel = \<lparr>dm_tablename = ''policy_versions'', dm_columns =
     [primary ''version'' (SqlString 128), required ''bundle_hash'' (SqlString 128),
      optional ''bundle_uri'' (SqlString 1024), required ''signed'' SqlBoolean,
      defaulted ''created_at'' (SqlDateTime True)], dm_unique = []\<rparr>"

definition ConfigurationModel :: declared_model where
  "ConfigurationModel = \<lparr>dm_tablename = ''configurations'', dm_columns =
     [primary ''key'' (SqlString 256), required ''value'' SqlJson, required ''version'' SqlInteger,
      defaulted ''updated_at'' (SqlDateTime True)], dm_unique = []\<rparr>"

text \<open>\<open>Base.metadata\<close>\<close>

definition metadata :: "declared_model list" where
  "metadata = [TenantModel, PrincipalModel, ToolCallModel, AttemptModel, ApprovalModel, IdempotencyKeyModel,
     PolicyVersionModel, ConfigurationModel]"

definition referred_type :: "declared_model list \<Rightarrow> string \<times> string \<Rightarrow> sql_type option" where
  "referred_type ms r = (case find (\<lambda>m. dm_tablename m = fst r) ms of
       None \<Rightarrow> None
     | Some m \<Rightarrow> (case find (\<lambda>c. mc_name c = snd r) (dm_columns m) of None \<Rightarrow> None | Some c \<Rightarrow> mc_type c))"

definition column_type :: "declared_model list \<Rightarrow> mapped_column \<Rightarrow> sql_type" where
  "column_type ms c = (case mc_type c of
       Some t \<Rightarrow> t
     | None \<Rightarrow> (case mc_foreign_key c of None \<Rightarrow> SqlText
         | Some r \<Rightarrow> (case referred_type ms r of None \<Rightarrow> SqlText | Some t \<Rightarrow> t)))"

definition column_of :: "declared_model list \<Rightarrow> mapped_column \<Rightarrow> column" where
  "column_of ms c = \<lparr>col_name = mc_name c, col_type = column_type ms c,
     col_nullable = (case mc_nullable c of Some b \<Rightarrow> b | None \<Rightarrow> mc_optional c \<and> \<not> mc_primary_key c),
     col_autoincrement = mc_autoincrement c\<rparr>"

definition table_of :: "declared_model list \<Rightarrow> declared_model \<Rightarrow> sql_table" where
  "table_of ms m = \<lparr>tb_name = dm_tablename m, tb_columns = map (column_of ms) (dm_columns m),
     tb_primary_key = map mc_name (filter mc_primary_key (dm_columns m)),
     tb_foreign_keys = concat (map (\<lambda>c. case mc_foreign_key c of None \<Rightarrow> [] | Some (t, k) \<Rightarrow> [(mc_name c, t, k)]) (dm_columns m)),
     tb_unique = dm_unique m\<rparr>"

section \<open>The migration\<close>

definition Column :: "string \<Rightarrow> sql_type \<Rightarrow> bool \<Rightarrow> column" where
  "Column name t nullable = \<lparr>col_name = name, col_type = t, col_nullable = nullable, col_autoincrement = False\<rparr>"

definition SerialColumn :: "string \<Rightarrow> column" where
  "SerialColumn name = (Column name SqlInteger False)\<lparr>col_autoincrement := True\<rparr>"

datatype schema_op = CreateTable sql_table | DropTable string

definition create_tenants :: sql_table where
  "create_tenants = \<lparr>tb_name = ''tenants'', tb_columns =
     [Column ''id'' (SqlString 128) False, Column ''name'' (SqlString 256) False, Column ''created_at'' (SqlDateTime True) False],
     tb_primary_key = [''id''], tb_foreign_keys = [], tb_unique = []\<rparr>"

definition create_principals :: sql_table where
  "create_principals = \<lparr>tb_name = ''principals'', tb_columns =
     [SerialColumn ''id'', Column ''tenant_id'' (SqlString 128) False, Column ''subject'' (SqlString 256) False,
      Column ''roles'' SqlJson False, Column ''issuer'' (SqlString 512) True, Column ''agent_id'' (SqlString 256) True,
      Column ''created_at'' (SqlDateTime True) False],
     tb_primary_key = [''id''], tb_foreign_keys = [(''tenant_id'', ''tenants'', ''id'')],
     tb_unique = [(''uq_principal_tenant_subject'', [''tenant_id'', ''subject''])]\<rparr>"

definition create_tool_calls :: sql_table where
  "create_tool_calls = \<lparr>tb_name = ''tool_calls'', tb_columns =
     [Column ''call_id'' (SqlString 128) False, Column ''trace_id'' (SqlString 128) False,
      Column ''session_id'' (SqlString 128) False, Column ''tenant_id'' (SqlString 128) True,
      Column ''subject'' (SqlString 256) True, Column ''tool_name'' (SqlString 256) False,
      Column ''risk_class'' (SqlString 64) True, Column ''arguments'' SqlJson False,
      Column ''current_state'' (SqlString 64) False, Column ''policy_decision'' (SqlString 64) True,
      Column ''policy_rule'' (SqlString 256) True, Column ''outcome'' (SqlString 128) True,
      Column ''created_at'' (SqlDateTime True) False, Column ''updated_at'' (SqlDateTime True) False],
     tb_primary_key = [''call_id''], tb_foreign_keys = [(''tenant_id'', ''tenants'', ''id'')], tb_unique = []\<rparr>"

definition create_attempts :: sql_table where
  "create_attempts = \<lparr>tb_name = ''attempts'', tb_columns =
     [SerialColumn ''id'', Column ''call_id'' (SqlString 128) False, Column ''attempt'' SqlInteger False,
      Column ''started_at'' (SqlDateTime True) False, Column ''finished_at'' (SqlDateTime True) True,
      Column ''outcome'' (SqlString 128) True, Column ''error'' SqlText True],
     tb_primary_key = [''id''], tb_foreign_keys = [(''call_id'', ''tool_calls'', ''call_id'')],
     tb_unique = [(''uq_attempt_call_number'', [''call_id'', ''attempt''])]\<rparr>"

definition create_approvals :: sql_table where
  "create_approvals = \<lparr>tb_name = ''approvals'', tb_columns =
     [Column ''approval_id'' (SqlString 128) False, Column ''call_id'' (SqlString 128) False,
      Column ''tenant_id'' (SqlString 128) True, Column ''tool_name'' (SqlString 256) False,
      Column ''arguments'' SqlJson False, Column ''policy_input'' SqlJson False, Column ''matched_rule'' (SqlString 256) False,
      Column ''decision'' (SqlString 64) True, Column ''approver'' (SqlString 256) True, Column ''reason'' SqlText True,
      Column ''created_at'' (SqlDateTime True) False, Column ''decided_at'' (SqlDateTime True) True],
     tb_primary_key = [''approval_id''], tb_foreign_keys = [(''tenant_id'', ''tenants'', ''id'')], tb_unique = []\<rparr>"

definition create_idempotency_keys :: sql_table where
  "create_idempotency_keys = \<lparr>tb_name = ''idempotency_keys'', tb_columns =
     [Column ''key'' (SqlString 256) False, Column ''tenant_id'' (SqlString 128) False,
      Column ''call_id'' (SqlString 128) False, Column ''status'' (SqlString 64) False,
      Column ''created_at'' (SqlDateTime True) False, Column ''updated_at'' (SqlDateTime True) False],
     tb_primary_key = [''key'', ''tenant_id''], tb_foreign_keys = [(''tenant_id'', ''tenants'', ''id'')], tb_unique = []\<rparr>"

definition create_policy_versions :: sql_table where
  "create_policy_versions = \<lparr>tb_name = ''policy_versions'', tb_columns =
     [Column ''version'' (SqlString 128) False, Column ''bundle_hash'' (SqlString 128) False,
      Column ''bundle_uri'' (SqlString 1024) True, Column ''signed'' SqlBoolean False,
      Column ''created_at'' (SqlDateTime True) False],
     tb_primary_key = [''version''], tb_foreign_keys = [], tb_unique = []\<rparr>"

definition create_configurations :: sql_table where
  "create_configurations = \<lparr>tb_name = ''configurations'', tb_columns =
     [Column ''key'' (SqlString 256) False, Column ''value'' SqlJson False, Column ''version'' SqlInteger False,
      Column ''updated_at'' (SqlDateTime True) False],
     tb_primary_key = [''key''], tb_foreign_keys = [], tb_unique = []\<rparr>"

definition upgrade :: "schema_op list" where
  "upgrade = map CreateTable [create_tenants, create_principals, create_tool_calls, create_attempts, create_approvals,
     create_idempotency_keys, create_policy_versions, create_configurations]"

definition downgrade :: "schema_op list" where
  "downgrade = map DropTable [''configurations'', ''policy_versions'', ''idempotency_keys'', ''approvals'', ''attempts'',
     ''tool_calls'', ''principals'', ''tenants'']"

text \<open>
  What the database checks.  A table is created once, its keys are columns of it, and a foreign key refers to
  the primary key of a table that exists; a table that another one refers to is not dropped.
\<close>

definition foreign_key_ok :: "sql_table \<Rightarrow> string \<Rightarrow> string \<Rightarrow> sql_table option \<Rightarrow> bool" where
  "foreign_key_ok t c k referred = (c \<in> set (map col_name (tb_columns t)) \<and> (case referred of None \<Rightarrow> False
     | Some u \<Rightarrow> tb_primary_key u = [k] \<and>
         map_option col_type (find_column u k) = map_option col_type (find_column t c)))"

definition table_ok :: "sql_table list \<Rightarrow> sql_table \<Rightarrow> bool" where
  "table_ok db t = (let cols = map col_name (tb_columns t) in
     find_table db (tb_name t) = None \<and> distinct cols \<and>
     list_all (\<lambda>k. k \<in> set cols) (tb_primary_key t @ concat (map snd (tb_unique t))) \<and>
     list_all (\<lambda>(c, r, k). foreign_key_ok t c k (find_table (db @ [t]) r)) (tb_foreign_keys t))"

definition refers_to :: "string \<Rightarrow> sql_table \<Rightarrow> bool" where
  "refers_to name t = list_ex (\<lambda>(c, r, k). r = name) (tb_foreign_keys t)"

definition apply_op :: "schema_op \<Rightarrow> sql_table list \<Rightarrow> string + sql_table list" where
  "apply_op op db = (case op of
       CreateTable t \<Rightarrow> if table_ok db t then Inr (db @ [t]) else Inl (''cannot create '' @ tb_name t)
     | DropTable name \<Rightarrow>
         let rest = filter (\<lambda>t. tb_name t \<noteq> name) db
         in if find_table db name = None then Inl (''no table '' @ name)
            else if list_ex (refers_to name) rest then Inl (''other objects depend on '' @ name)
            else Inr rest)"

fun run_ops :: "schema_op list \<Rightarrow> sql_table list \<Rightarrow> string + sql_table list" where
  "run_ops [] db = Inr db"
| "run_ops (op # ops) db = (case apply_op op db of Inl e \<Rightarrow> Inl e | Inr db' \<Rightarrow> run_ops ops db')"

text \<open>One transaction: a statement that fails undoes the migration.\<close>

definition migrate :: "schema_op list \<Rightarrow> sql_table list \<Rightarrow> string option \<times> sql_table list" where
  "migrate ops db = (case run_ops ops db of Inl e \<Rightarrow> (Some e, db) | Inr db' \<Rightarrow> (None, db'))"

text \<open>\<open>Base.metadata.create_all\<close>: the tables that are missing, in the order of their dependencies.\<close>

definition create_schema :: "sql_table list \<Rightarrow> string option \<times> sql_table list" where
  "create_schema db = migrate (map CreateTable (filter (\<lambda>t. find_table db (tb_name t) = None)
     (map (table_of metadata) metadata))) db"

section \<open>Lemmas\<close>

lemma find_table_None: "find_table db n = None \<longleftrightarrow> n \<notin> tb_name ` set db"
  by (auto simp: find_table_def find_None_iff)

lemma find_table_append: "find_table (db @ xs) n = (case find_table db n of None \<Rightarrow> find_table xs n | Some t \<Rightarrow> Some t)"
  by (induction db) (auto simp: find_table_def)

definition disjoint_names :: "sql_table list \<Rightarrow> sql_table list \<Rightarrow> bool" where
  "disjoint_names db xs = (tb_name ` set db \<inter> tb_name ` set xs = {})"

text \<open>Tables with other names do not matter to a statement.\<close>

lemma table_ok_frame:
  assumes "disjoint_names db (xs @ [t])"
  shows "table_ok xs t \<Longrightarrow> table_ok (db @ xs) t"
proof -
  have fresh: "find_table (db @ xs @ [t]) n = find_table (xs @ [t]) n" if "find_table (xs @ [t]) n \<noteq> None" for n
  proof -
    have "n \<in> tb_name ` set (xs @ [t])" using that by (simp only: find_table_None not_not)
    then have "n \<notin> tb_name ` set db" using assms unfolding disjoint_names_def by blast
    then have "find_table db n = None" by (simp add: find_table_None)
    then show ?thesis by (simp add: find_table_append [of db])
  qed
  have name: "find_table db (tb_name t) = None" using assms by (auto simp: disjoint_names_def find_table_None)
  assume ok: "table_ok xs t"
  have "find_table (xs @ [t]) r \<noteq> None" if "(c, r, k) \<in> set (tb_foreign_keys t)" for c r k
    using ok that unfolding table_ok_def Let_def list_all_iff by (auto simp: foreign_key_ok_def split: option.splits)
  then have "find_table (db @ xs @ [t]) r = find_table (xs @ [t]) r" if "(c, r, k) \<in> set (tb_foreign_keys t)" for c r k
    using that by (intro fresh) blast
  then have "list_all (\<lambda>(c, r, k). foreign_key_ok t c k (find_table (db @ xs @ [t]) r)) (tb_foreign_keys t) =
      list_all (\<lambda>(c, r, k). foreign_key_ok t c k (find_table (xs @ [t]) r)) (tb_foreign_keys t)"
    by (intro list_all_cong refl) auto
  then show "table_ok (db @ xs) t" using ok name
    unfolding table_ok_def Let_def append.assoc by (simp add: find_table_append [of db xs])
qed

lemma run_creates_frame:
  "disjoint_names db (xs @ ts) \<Longrightarrow> run_ops (map CreateTable ts) xs = Inr ys \<Longrightarrow>
   run_ops (map CreateTable ts) (db @ xs) = Inr (db @ ys)"
proof (induction ts arbitrary: xs)
  case (Cons t ts)
  then have ok: "table_ok xs t" by (auto simp: apply_op_def split: if_splits)
  moreover have "table_ok (db @ xs) t"
    by (rule table_ok_frame [OF _ ok]) (use Cons.prems(1) in \<open>auto simp: disjoint_names_def\<close>)
  ultimately show ?case using Cons.IH [of "xs @ [t]"] Cons.prems by (simp add: apply_op_def)
qed simp

lemma run_drops_frame:
  assumes "\<And>n. n \<in> set ns \<Longrightarrow> n \<notin> tb_name ` set db \<and> \<not> list_ex (refers_to n) db"
  shows "run_ops (map DropTable ns) xs = Inr ys \<Longrightarrow> run_ops (map DropTable ns) (db @ xs) = Inr (db @ ys)"
  using assms
proof (induction ns arbitrary: xs)
  case (Cons n ns)
  have n: "find_table db n = None" "\<not> list_ex (refers_to n) db" "filter (\<lambda>t. tb_name t \<noteq> n) db = db"
    using Cons.prems(2) [of n] by (auto simp: find_table_None filter_id_conv)
  show ?case
    using Cons.IH [of "filter (\<lambda>t. tb_name t \<noteq> n) xs"] Cons.prems n
    by (auto simp: apply_op_def Let_def find_table_append split: if_splits)
qed simp

lemma models_tables:
  "map (table_of metadata) metadata = [create_tenants, create_principals, create_tool_calls, create_attempts, create_approvals,
     create_idempotency_keys, create_policy_versions, create_configurations]"
  by code_simp

lemma upgrade_models: "upgrade = map CreateTable (map (table_of metadata) metadata)"
  unfolding models_tables upgrade_def ..

lemma upgrade_alone: "run_ops upgrade [] = Inr (map (table_of metadata) metadata)"
  by code_simp

lemma downgrade_alone: "run_ops downgrade (map (table_of metadata) metadata) = Inr []"
  by code_simp

lemma downgrade_names: "downgrade = map DropTable (rev (map dm_tablename metadata))"
  by code_simp

text \<open>The constraints that the repository runs into are those of the migration: the length of a text is
  checked against the column of the table.\<close>

definition row_fits :: "control_plane \<Rightarrow> sql_table \<Rightarrow> (string \<times> string option) list \<Rightarrow> bool" where
  "row_fits c t row = list_all (\<lambda>(k, v). case map_option col_type (find_column t k) of
     Some (SqlString n) \<Rightarrow> fits_opt c n v | _ \<Rightarrow> True) row"

lemma repository_widths:
  "fits c 128 tenant_id \<and> fits c 256 name \<longleftrightarrow> row_fits c create_tenants [(''id'', Some tenant_id), (''name'', Some name)]"
  "fits c 256 subject \<and> fits_opt c 512 issuer \<and> fits_opt c 256 agent \<longleftrightarrow>
     row_fits c create_principals [(''subject'', Some subject), (''issuer'', issuer), (''agent_id'', agent)]"
  "fits c 128 approval_id \<and> fits c 128 call_id \<and> fits c 256 tool \<and> fits c 256 rule \<and> fits_opt c 64 decision \<and>
     fits_opt c 256 approver \<longleftrightarrow> row_fits c create_approvals [(''approval_id'', Some approval_id), (''call_id'', Some call_id),
       (''tool_name'', Some tool), (''matched_rule'', Some rule), (''decision'', decision), (''approver'', approver)]"
  "fits c 128 call_id \<and> fits c 128 trace \<and> fits c 128 session \<and> fits_opt c 256 who \<and> fits c 256 tool \<longleftrightarrow>
     row_fits c create_tool_calls [(''call_id'', Some call_id), (''trace_id'', Some trace), (''session_id'', Some session),
       (''subject'', who), (''tool_name'', Some tool)]"
  "fits c 256 key \<and> fits c 128 call_id \<and> fits c 64 status \<longleftrightarrow> row_fits c create_idempotency_keys [(''key'', Some key),
     (''call_id'', Some call_id), (''status'', Some status)]"
  "fits c 128 version \<and> fits c 128 digest \<and> fits_opt c 1024 uri \<longleftrightarrow> row_fits c create_policy_versions
     [(''version'', Some version), (''bundle_hash'', Some digest), (''bundle_uri'', uri)]"
  "fits_opt c 128 outcome \<longleftrightarrow> row_fits c create_attempts [(''outcome'', outcome)]"
  "fits c 256 key \<longleftrightarrow> row_fits c create_configurations [(''key'', Some key)]"
  by (simp_all add: row_fits_def find_column_def fits_opt_def Column_def SerialColumn_def create_tenants_def
      create_principals_def create_approvals_def create_tool_calls_def create_idempotency_keys_def
      create_policy_versions_def create_attempts_def create_configurations_def)

section \<open>Properties\<close>

text \<open>C35: the migration and the models agree.  On any database without tables of these names the upgrade
  succeeds and adds exactly the tables that SQLAlchemy derives from the declared models, with their column
  types, nullability, keys and constraints, so it has the effect of \<open>create_schema\<close>; when no other table refers to
  them, the downgrade then succeeds and restores the database.\<close>

theorem migration_agrees_with_models:
  assumes "\<And>m. m \<in> set metadata \<Longrightarrow> find_table db (dm_tablename m) = None \<and> \<not> list_ex (refers_to (dm_tablename m)) db"
  shows "migrate upgrade db = (None, db @ map (table_of metadata) metadata) \<and> create_schema db = migrate upgrade db \<and>
    migrate downgrade (snd (migrate upgrade db)) = (None, db)"
proof -
  let ?ts = "map (table_of metadata) metadata"
  have names: "tb_name ` set ?ts = dm_tablename ` set metadata" by (force simp: table_of_def)
  have new: "dm_tablename m \<notin> tb_name ` set db" if "m \<in> set metadata" for m
    using assms [OF that] by (simp add: find_table_None)
  have disj: "disjoint_names db ([] @ ?ts)" unfolding disjoint_names_def append.simps names
  proof (rule Int_emptyI)
    fix n assume n: "n \<in> tb_name ` set db" "n \<in> dm_tablename ` set metadata"
    from n(2) obtain m where "n = dm_tablename m" "m \<in> set metadata" by (rule imageE)
    with n(1) new show False by simp
  qed
  have up: "run_ops upgrade db = Inr (db @ ?ts)"
    using run_creates_frame [OF disj] upgrade_alone unfolding upgrade_models by simp
  have missing: "filter (\<lambda>t. find_table db (tb_name t) = None) ?ts = ?ts"
    unfolding filter_id_conv using assms by (auto simp: table_of_def)
  have "run_ops downgrade (db @ ?ts) = Inr (db @ [])"
    using downgrade_alone unfolding downgrade_names
    by (rule run_drops_frame [rotated]) (use assms in \<open>auto simp: find_table_None\<close>)
  with up show ?thesis
    unfolding create_schema_def missing upgrade_models [symmetric] by (simp add: migrate_def)
qed

definition other_table :: sql_table where
  "other_table = \<lparr>tb_name = ''alembic_version'', tb_columns = [Column ''version_num'' (SqlString 32) False],
     tb_primary_key = [''version_num''], tb_foreign_keys = [], tb_unique = []\<rparr>"

theorem migration_agrees_with_models_witness:
  "fst (migrate upgrade [other_table]) = None \<and> migrate downgrade (snd (migrate upgrade [other_table])) = (None, [other_table])"
proof -
  have "find_table [other_table] (dm_tablename m) = None \<and> \<not> list_ex (refers_to (dm_tablename m)) [other_table]"
    if "m \<in> set metadata" for m
  proof -
    have "list_all (\<lambda>m. dm_tablename m \<noteq> ''alembic_version'') metadata" by code_simp
    with that show ?thesis by (auto simp: find_table_def other_table_def refers_to_def list_all_iff)
  qed
  from migration_agrees_with_models [OF this] show ?thesis by auto
qed

text \<open>The migration does not run twice, and leaves the database as it was.\<close>

lemma second_upgrade_fails: "migrate upgrade (map (table_of metadata) metadata) =
    (Some ''cannot create tenants'', map (table_of metadata) metadata)"
  by code_simp

end
