(* ===== verification/Migration_Env.thy ===== *)
theory Migration_Env
  imports Migrations Config
begin

text \<open>
  How the migrations are run (\<open>alembic/env.py\<close>): offline as a script, online through SQLAlchemy's asynchronous
  engine under \<open>asyncio.timeout\<close>.  Alembic is a parameter: \<open>pending\<close> gives the operations that
  \<open>context.run_migrations()\<close> has to run on a database.  The database server is described by how long
  connecting, each statement and the commit take.
\<close>

section \<open>The database server\<close>

datatype connect_fate = Connects rat | Refuses rat exn

text \<open>\<open>pg_cost i\<close> is the duration of the \<open>i\<close>-th statement, the commit is the last one.  A commit that is
  interrupted may have landed.\<close>

record pg_server =
  pg_connect :: connect_fate
  pg_cost :: "nat \<Rightarrow> rat"
  pg_commit_lands :: bool

record engine_state =
  es_schema :: "sql_table list"
  es_connections :: nat
  es_engines :: nat

abbreviation timed_out :: exn where
  "timed_out \<equiv> PyExn ''TimeoutError'' []"

section \<open>Running migrations\<close>

datatype script_line = BeginTransaction | Statement schema_op | CommitTransaction

definition run_migrations_offline :: "schema_op list \<Rightarrow> script_line list" where
  "run_migrations_offline ops = BeginTransaction # map Statement ops @ [CommitTransaction]"

text \<open>The statements of one transaction, from the \<open>i\<close>-th on, with \<open>left\<close> seconds to the deadline.\<close>

fun timed_ops :: "(nat \<Rightarrow> rat) \<Rightarrow> nat \<Rightarrow> rat \<Rightarrow> schema_op list \<Rightarrow> sql_table list \<Rightarrow> exn + rat \<times> sql_table list" where
  "timed_ops cost i left [] db = Inr (left, db)"
| "timed_ops cost i left (op # ops) db =
     (if left \<le> cost i then Inl timed_out
      else case apply_op op db of
          Inl m \<Rightarrow> Inl (PyExn ''ProgrammingError'' m)
        | Inr db' \<Rightarrow> timed_ops cost (Suc i) (left - cost i) ops db')"

definition do_run_migrations :: "pg_server \<Rightarrow> (sql_table list \<Rightarrow> schema_op list) \<Rightarrow> rat \<Rightarrow> sql_table list \<Rightarrow>
    (exn + unit) \<times> sql_table list" where
  "do_run_migrations R pending left db = (case timed_ops (pg_cost R) 0 left (pending db) db of
       Inl x \<Rightarrow> (Inl x, db)
     | Inr (left', db') \<Rightarrow>
         if left' \<le> pg_cost R (length (pending db)) then (Inl timed_out, if pg_commit_lands R then db' else db)
         else (Inr (), db'))"

text \<open>\<open>connectable.connect()\<close>: the driver gives up after its own timeout.\<close>

definition engine_connect :: "rat \<Rightarrow> pg_server \<Rightarrow> exn + rat" where
  "engine_connect limit R = (case pg_connect R of
       Connects t \<Rightarrow> if limit \<le> t then Inl timed_out else Inr t
     | Refuses t x \<Rightarrow> if limit \<le> t then Inl timed_out else Inl x)"

definition run_async_migrations :: "settings \<Rightarrow> (string \<Rightarrow> pg_server) \<Rightarrow> (sql_table list \<Rightarrow> schema_op list) \<Rightarrow>
    (engine_state, unit) aio" where
  "run_async_migrations s net pending =
     (let R = net (cfg_control_plane_database_url s);
          limit = cfg_control_plane_connect_timeout_seconds s;
          timeout_seconds = limit + 1
      in bind_io (modify_io (\<lambda>e. e\<lparr>es_engines := Suc (es_engines e)\<rparr>)) (\<lambda>u.
         bind_io (lift_res (engine_connect limit R)) (\<lambda>t.
         bind_io (modify_io (\<lambda>e. e\<lparr>es_connections := Suc (es_connections e)\<rparr>)) (\<lambda>u.
         bind_io (finally_io
             (\<lambda>e. case do_run_migrations R pending (timeout_seconds - t) (es_schema e) of
                (r, db) \<Rightarrow> (r, e\<lparr>es_schema := db\<rparr>))
             (\<lambda>e. e\<lparr>es_connections := es_connections e - 1\<rparr>)) (\<lambda>u.
         modify_io (\<lambda>e. e\<lparr>es_engines := es_engines e - 1\<rparr>))))))"

definition run_migrations_online :: "settings \<Rightarrow> (string \<Rightarrow> pg_server) \<Rightarrow> (sql_table list \<Rightarrow> schema_op list) \<Rightarrow>
    (engine_state, unit) aio" where
  "run_migrations_online s net pending = run_async_migrations s net pending"

text \<open>The module chooses; the script is written out in offline mode.\<close>

definition run_environment :: "bool \<Rightarrow> settings \<Rightarrow> (string \<Rightarrow> pg_server) \<Rightarrow> (sql_table list \<Rightarrow> schema_op list) \<Rightarrow>
    (engine_state, script_line list) aio" where
  "run_environment offline s net pending =
     (if offline then ret (run_migrations_offline (pending []))
      else bind_io (run_migrations_online s net pending) (\<lambda>u. ret []))"

section \<open>Lemmas\<close>

lemma sum_from: "(\<Sum>j<Suc n. f (i + j)) = f i + (\<Sum>j<n. f (Suc i + j))" for f :: "nat \<Rightarrow> rat"
  by (induction n) (simp_all add: add.assoc)

lemma timed_ops_returns:
  assumes cost: "\<And>i. 0 \<le> cost i"
  shows "timed_ops cost i left ops db = Inr (left', db') \<longleftrightarrow>
    run_ops ops db = Inr db' \<and> left' = left - (\<Sum>j<length ops. cost (i + j)) \<and> (ops = [] \<or> 0 < left')"
proof (induction ops arbitrary: i left db)
  case (Cons op ops)
  have "0 \<le> (\<Sum>j<length ops. cost (Suc i + j))" by (rule sum_nonneg) (rule cost)
  then have room: "left - (cost i + (\<Sum>j<length ops. cost (Suc i + j))) > 0 \<Longrightarrow> \<not> left \<le> cost i" by simp
  show ?case
  proof (cases "apply_op op db")
    case (Inr db1)
    show ?thesis
    proof (cases ops)
      case Nil
      with Inr show ?thesis by auto
    next
      case (Cons op' ops')
      with Inr Cons.IH [of "Suc i" "left - cost i" db1] room show ?thesis
        unfolding length_Cons sum_from by auto
    qed
  qed simp
qed auto

lemma migrations_returned:
  assumes cost: "\<And>i. 0 \<le> pg_cost R i"
  shows "do_run_migrations R pending left db = (Inr (), db') \<longleftrightarrow>
    run_ops (pending db) db = Inr db' \<and> (\<Sum>j\<le>length (pending db). pg_cost R j) < left"
proof -
  let ?n = "length (pending db)"
  have sum: "(\<Sum>j\<le>?n. pg_cost R j) = (\<Sum>j<?n. pg_cost R j) + pg_cost R ?n"
    by (simp add: lessThan_Suc_atMost [symmetric])
  have "do_run_migrations R pending left db = (Inr (), db') \<longleftrightarrow>
    (\<exists>left'. timed_ops (pg_cost R) 0 left (pending db) db = Inr (left', db') \<and> pg_cost R ?n < left')"
    by (auto simp: do_run_migrations_def split: sum.splits)
  also have "\<dots> \<longleftrightarrow> run_ops (pending db) db = Inr db' \<and> (\<Sum>j\<le>?n. pg_cost R j) < left"
    using cost [of ?n] unfolding timed_ops_returns [OF cost] sum by auto
  finally show ?thesis .
qed

lemma migrations_failed:
  assumes cost: "\<And>i. 0 \<le> pg_cost R i" and "do_run_migrations R pending left db = (Inl x, db')"
  shows "db' = db \<or> x = timed_out \<and> run_ops (pending db) db = Inr db'"
  using assms(2) by (auto simp: do_run_migrations_def timed_ops_returns [OF cost] split: sum.splits if_splits)

section \<open>Properties\<close>

text \<open>C36: migrations take effect as a whole and within the connect timeout.  An online run connects, runs the pending
  operations and commits; it returns exactly if the server accepts the connection within the configured
  \<open>control_plane_connect_timeout_seconds\<close>, every operation applies, and connecting, all statements and the commit
  together take less than this timeout and one second, however long the migration needs.  Then the database is the one that
  the operations give and the engine is disposed.  Otherwise the run raises, the engine is not disposed, and
  the database is as before, unless the deadline struck during the commit: then it may also be fully
  migrated.  The connection is closed in every case.\<close>

theorem migrations_whole_and_in_time:
  assumes "\<And>i. 0 \<le> pg_cost (net (cfg_control_plane_database_url s)) i"
    and "run_async_migrations s net pending e = (r, e')"
  shows "es_connections e' = es_connections e \<and>
    (r = Inr () \<longleftrightarrow> (\<exists>t db'. pg_connect (net (cfg_control_plane_database_url s)) = Connects t \<and>
       t < cfg_control_plane_connect_timeout_seconds s \<and>
       t + (\<Sum>j\<le>length (pending (es_schema e)). pg_cost (net (cfg_control_plane_database_url s)) j) <
         cfg_control_plane_connect_timeout_seconds s + 1 \<and>
       run_ops (pending (es_schema e)) (es_schema e) = Inr db')) \<and>
    (case r of
       Inr u \<Rightarrow> run_ops (pending (es_schema e)) (es_schema e) = Inr (es_schema e') \<and> es_engines e' = es_engines e
     | Inl x \<Rightarrow> es_engines e' = Suc (es_engines e) \<and> (es_schema e' = es_schema e \<or>
         x = timed_out \<and> run_ops (pending (es_schema e)) (es_schema e) = Inr (es_schema e')))"
proof -
  let ?R = "net (cfg_control_plane_database_url s)" and ?T = "cfg_control_plane_connect_timeout_seconds s"
  let ?ops = "pending (es_schema e)"
  show ?thesis
  proof (cases "engine_connect ?T ?R")
    case (Inl x)
    with assms(2) have "r = Inl x" "e' = e\<lparr>es_engines := Suc (es_engines e)\<rparr>"
      by (auto simp: run_async_migrations_def Let_def bind_io_def modify_io_def lift_res_def)
    moreover from Inl have "\<not> (\<exists>t. pg_connect ?R = Connects t \<and> t < ?T)"
      by (auto simp: engine_connect_def)
    ultimately show ?thesis by auto
  next
    case (Inr t)
    then have t: "pg_connect ?R = Connects t" "t < ?T"
      by (auto simp: engine_connect_def split: connect_fate.splits if_splits)
    obtain r1 db where m: "do_run_migrations ?R pending (?T + 1 - t) (es_schema e) = (r1, db)" by (rule prod.exhaust)
    with assms(2) Inr have run: "r = r1" "es_schema e' = db" "es_connections e' = es_connections e"
      "es_engines e' = (if isl r1 then Suc (es_engines e) else es_engines e)"
      by (auto simp: run_async_migrations_def Let_def bind_io_def modify_io_def lift_res_def finally_io_def split: sum.splits)
    show ?thesis
    proof (cases r1)
      case (Inl x)
      with migrations_failed [OF assms(1), where pending = pending] m
      have "db = es_schema e \<or> x = timed_out \<and> run_ops ?ops (es_schema e) = Inr db" by simp
      moreover have "\<not> (run_ops ?ops (es_schema e) = Inr db' \<and> (\<Sum>j\<le>length ?ops. pg_cost ?R j) < ?T + 1 - t)" for db'
        using migrations_returned [OF assms(1), of pending "?T + 1 - t" "es_schema e" db'] m Inl by simp
      ultimately show ?thesis using run Inl t by (auto simp: less_diff_eq add.commute)
    next
      case (Inr u)
      with migrations_returned [OF assms(1), of pending "?T + 1 - t" "es_schema e" db] m
      have "run_ops ?ops (es_schema e) = Inr db \<and> (\<Sum>j\<le>length ?ops. pg_cost ?R j) < ?T + 1 - t" by simp
      then show ?thesis using run Inr t by (auto simp: less_diff_eq add.commute)
    qed
  qed
qed

text \<open>A local server: everything takes a tenth of a second, or a slow statement takes ten.\<close>

definition demo_server :: "rat \<Rightarrow> string \<Rightarrow> pg_server" where
  "demo_server slow url = \<lparr>pg_connect = Connects (1 / 10), pg_cost = (\<lambda>i. if i = 2 then slow else 1 / 10), pg_commit_lands = False\<rparr>"

definition demo_engine :: engine_state where
  "demo_engine = \<lparr>es_schema = [other_table], es_connections = 0, es_engines = 0\<rparr>"

theorem migrations_whole_and_in_time_witness:
  "fst (run_async_migrations default_settings (demo_server (1 / 10)) (\<lambda>db. upgrade) demo_engine) = Inr () \<and>
   es_schema (snd (run_async_migrations default_settings (demo_server (1 / 10)) (\<lambda>db. upgrade) demo_engine)) =
     other_table # map (table_of metadata) metadata \<and>
   fst (run_async_migrations default_settings (demo_server 10) (\<lambda>db. upgrade) demo_engine) \<noteq> Inr ()"
proof -
  have up: "run_ops upgrade [other_table] = Inr (other_table # map (table_of metadata) metadata)" by code_simp
  have cost: "0 \<le> pg_cost (demo_server x (cfg_control_plane_database_url default_settings)) i" if "0 \<le> x" for x i
    using that by (simp add: demo_server_def)
  have n: "length upgrade = 8" by (simp add: upgrade_def)
  have outcome: "(fst (run_async_migrations default_settings (demo_server x) (\<lambda>db. upgrade) demo_engine) = Inr () \<longleftrightarrow> x < 31 / 10) \<and>
      (x < 31 / 10 \<longrightarrow> es_schema (snd (run_async_migrations default_settings (demo_server x) (\<lambda>db. upgrade) demo_engine)) =
        other_table # map (table_of metadata) metadata)" if "0 \<le> x" for x
  proof -
    obtain r e where run: "run_async_migrations default_settings (demo_server x) (\<lambda>db. upgrade) demo_engine = (r, e)" by (rule prod.exhaust)
    have total: "1 / 10 + (\<Sum>j\<le>(8::nat). if j = 2 then x else 1 / 10) < (3::rat) + 1 \<longleftrightarrow> x < 31 / 10"
      by (simp add: atMost_nat_numeral) linarith
    have parts: "cfg_control_plane_connect_timeout_seconds default_settings = 3" "es_schema demo_engine = [other_table]"
      "pg_connect (demo_server x url) = Connects (1 / 10)" "pg_cost (demo_server x url) = (\<lambda>i. if i = 2 then x else 1 / 10)" for url
      by (simp_all add: default_settings_def demo_engine_def demo_server_def)
    note claim = migrations_whole_and_in_time [of "demo_server x" default_settings, OF cost [OF that] run, unfolded parts n up]
    then have "r = Inr () \<longleftrightarrow> x < 31 / 10"
      by (simp only: connect_fate.inject sum.inject ex_simps simp_thms total) simp
    with claim show ?thesis by (cases r) (simp_all add: run)
  qed
  show ?thesis using outcome [of "1 / 10"] outcome [of 10] by simp
qed

end
