(* ===== verification/Stdio.thy ===== *)
theory Stdio
  imports Models
begin

text \<open>
  The stdio transport (\<open>stdio_transport.py\<close>): the loop that reads newline-delimited messages from the pipe
  and the loop that writes them, over \<open>asyncio.StreamReader\<close>; and \<open>run_blocking\<close> of \<open>async_utils.py\<close>.  A byte is
  a character; the codec of JSON-RPC messages belongs to the MCP library and is a parameter.
\<close>

section \<open>The stream reader\<close>

text \<open>\<open>asyncio.StreamReader()\<close> has this limit.\<close>

definition default_limit :: nat where
  "default_limit = 65536"

text \<open>
  \<open>readline\<close>: the buffer and the chunks that the pipe still delivers, the end of the list being the end of
  the input.  A line is returned with its line feed; at the end of the input the rest is returned, empty
  when there is none.  A line longer than the limit raises \<open>ValueError\<close>, as soon as the buffer exceeds it.
\<close>

definition line_end :: char where
  "line_end = CHR 0x0A"

fun readline :: "nat \<Rightarrow> string \<Rightarrow> string list \<Rightarrow> (exn + string) \<times> string \<times> string list" where
  "readline limit buffer chunks =
     (if line_end \<in> set buffer
      then (let line = takeWhile (\<lambda>c. c \<noteq> line_end) buffer; rest = drop (Suc (length line)) buffer
            in if limit < length line then (Inl (PyExn ''ValueError'' ''chunk is longer than limit''), rest, chunks)
               else (Inr (line @ [line_end]), rest, chunks))
      else if limit < length buffer then (Inl (PyExn ''ValueError'' ''chunk exceed the limit''), [], chunks)
      else (case chunks of [] \<Rightarrow> (Inr buffer, [], []) | c # cs \<Rightarrow> readline limit (buffer @ c) cs))"

declare readline.simps [simp del]

section \<open>The two loops\<close>

text \<open>
  \<open>stdin_reader\<close>: what is sent to the session, a message or the exception that decoding raised, and the
  exception that ends the task, if any.  \<open>decode\<close> is \<open>validate_json\<close> after \<open>line.decode("utf-8")\<close>.
\<close>

lemma readline_shrinks:
  "readline limit buffer chunks = (Inr line, buffer', chunks') \<Longrightarrow> line \<noteq> [] \<Longrightarrow>
   length buffer' + length (concat chunks') < length buffer + length (concat chunks)"
proof (induction limit buffer chunks rule: readline.induct)
  case (1 limit buffer chunks)
  let ?line = "takeWhile (\<lambda>c. c \<noteq> line_end) buffer"
  show ?case
  proof (cases "line_end \<in> set buffer")
    case True
    have "length ?line < length buffer"
      using True arg_cong [OF takeWhile_dropWhile_id [of "\<lambda>c. c \<noteq> line_end" buffer], of length]
      by (cases "dropWhile (\<lambda>c. c \<noteq> line_end) buffer") (auto simp: dropWhile_eq_Nil_conv)
    then show ?thesis using "1.prems" True by (subst (asm) readline.simps) (auto simp: Let_def split: if_splits)
  next
    case False
    then show ?thesis using 1 by (subst (asm) (2) readline.simps) (auto split: if_splits list.splits)
  qed
qed

function stdin_reader :: "nat \<Rightarrow> (string \<Rightarrow> exn + 'm) \<Rightarrow> string \<Rightarrow> string list \<Rightarrow> (exn + 'm) list \<times> exn option" where
  "stdin_reader limit decode buffer chunks = (case readline limit buffer chunks of
       (Inl e, _, _) \<Rightarrow> ([], Some e)
     | (Inr line, buffer', chunks') \<Rightarrow>
         if line = [] then ([], None)
         else (case stdin_reader limit decode buffer' chunks' of (sent, end) \<Rightarrow> (decode line # sent, end)))"
  by auto
termination
  by (relation "measure (\<lambda>(limit, decode, buffer, chunks). length buffer + length (concat chunks))")
    (auto dest!: readline_shrinks [OF sym])

declare stdin_reader.simps [simp del]

text \<open>\<open>stdout_writer\<close>: the bytes written for the messages of the session.\<close>

fun stdout_writer :: "('m \<Rightarrow> string) \<Rightarrow> 'm list \<Rightarrow> string" where
  "stdout_writer encode [] = []"
| "stdout_writer encode (m # ms) = encode m @ [line_end] @ stdout_writer encode ms"

section \<open>Off-loading\<close>

text \<open>
  \<open>run_blocking\<close>: the caller polls the future once per turn until it is done.  Between two turns the pool
  may advance the future, or the caller is cancelled at its \<open>sleep\<close>; \<open>future.cancel()\<close> then prevents a function
  that has not started and leaves a running one alone.
\<close>

datatype 'a blocking = Pending | Running | Completed "exn + 'a" | CancelledFuture

datatype 'a turn = Thread "'a blocking" | Cancel

text \<open>What the pool can do to a future.\<close>

fun thread_step :: "'a blocking \<Rightarrow> 'a blocking \<Rightarrow> bool" where
  "thread_step Pending f = (f \<noteq> CancelledFuture)"
| "thread_step Running f = (f \<noteq> Pending \<and> f \<noteq> CancelledFuture)"
| "thread_step f f' = (f' = f)"

fun cancel_future :: "'a blocking \<Rightarrow> 'a blocking" where
  "cancel_future Pending = CancelledFuture"
| "cancel_future f = f"

text \<open>The result with the state that the future is left in; \<open>None\<close> while it is still waiting.\<close>

fun run_blocking :: "'a blocking \<Rightarrow> 'a turn list \<Rightarrow> ((exn + 'a) \<times> 'a blocking) option" where
  "run_blocking (Completed r) ts = Some (r, Completed r)"
| "run_blocking CancelledFuture ts = Some (Inl (PyExn ''CancelledError'' []), CancelledFuture)"
| "run_blocking f [] = None"
| "run_blocking f (Thread f' # ts) = run_blocking (if thread_step f f' then f' else f) ts"
| "run_blocking f (Cancel # ts) = Some (Inl CancelledExn, cancel_future f)"

section \<open>Lemmas\<close>

lemma readline_line:
  "buffer @ concat chunks = l @ line_end # later \<Longrightarrow> line_end \<notin> set l \<Longrightarrow> length l \<le> limit \<Longrightarrow>
   \<exists>buffer' chunks'. readline limit buffer chunks = (Inr (l @ [line_end]), buffer', chunks') \<and> buffer' @ concat chunks' = later"
proof (induction limit buffer chunks rule: readline.induct)
  case (1 limit buffer chunks)
  show ?case
  proof (cases "line_end \<in> set buffer")
    case True
    then obtain p q where b: "buffer = p @ line_end # q" "line_end \<notin> set p" by (meson split_list_first)
    with "1.prems" have pl: "p = l" "q @ concat chunks = later"
      by (auto simp: append_eq_Cons_conv append_eq_append_conv2 Cons_eq_append_conv)
    have "takeWhile (\<lambda>c. c \<noteq> line_end) buffer = l" using b pl by (subst b) (auto simp: takeWhile_append)
    then show ?thesis using True "1.prems" b pl by (subst readline.simps) (simp add: Let_def)
  next
    case False
    then have "length buffer \<le> length l"
      using "1.prems"(1) by (auto simp: append_eq_append_conv2 append_eq_Cons_conv Cons_eq_append_conv)
    moreover from False "1.prems"(1) obtain c cs where "chunks = c # cs" by (cases chunks) auto
    ultimately show ?thesis using False 1 by (subst readline.simps) simp
  qed
qed

lemma readline_long:
  "buffer @ concat chunks = l @ later \<Longrightarrow> line_end \<notin> set l \<Longrightarrow> limit < length l \<Longrightarrow>
   \<exists>m. fst (readline limit buffer chunks) = Inl (PyExn ''ValueError'' m)"
proof (induction limit buffer chunks rule: readline.induct)
  case (1 limit buffer chunks)
  show ?case
  proof (cases "line_end \<in> set buffer")
    case True
    then obtain p q where b: "buffer = p @ line_end # q" "line_end \<notin> set p" by (meson split_list_first)
    with "1.prems" have "length l \<le> length p"
      by (auto simp: append_eq_Cons_conv append_eq_append_conv2 Cons_eq_append_conv)
    moreover have "takeWhile (\<lambda>c. c \<noteq> line_end) buffer = p" using b by (subst b) (auto simp: takeWhile_append)
    ultimately show ?thesis using True "1.prems"(3) by (subst readline.simps) (simp add: Let_def)
  next
    case False
    show ?thesis
    proof (cases "limit < length buffer")
      case True
      with False show ?thesis by (subst readline.simps) simp
    next
      case short: False
      with "1.prems" obtain c cs where "chunks = c # cs" by (cases chunks) auto
      with False short 1 show ?thesis by (subst readline.simps) simp
    qed
  qed
qed

lemma readline_rest:
  "line_end \<notin> set (buffer @ concat chunks) \<Longrightarrow> length (buffer @ concat chunks) \<le> limit \<Longrightarrow>
   readline limit buffer chunks = (Inr (buffer @ concat chunks), [], [])"
proof (induction limit buffer chunks rule: readline.induct)
  case (1 limit buffer chunks)
  then show ?case by (subst readline.simps) (auto split: list.splits)
qed

definition lines_text :: "string list \<Rightarrow> string" where
  "lines_text ls = concat (map (\<lambda>l. l @ [line_end]) ls)"

lemma stdin_reader_line:
  assumes "buffer @ concat chunks = lines_text (l # ls) @ rest" and "line_end \<notin> set l" and "length l \<le> limit"
  obtains buffer' chunks' where "buffer' @ concat chunks' = lines_text ls @ rest"
    "stdin_reader limit decode buffer chunks = apfst (Cons (decode (l @ [line_end]))) (stdin_reader limit decode buffer' chunks')"
proof -
  have "buffer @ concat chunks = l @ line_end # lines_text ls @ rest" using assms(1) by (simp add: lines_text_def)
  from readline_line [OF this assms(2,3)] obtain buffer' chunks' where
    r: "readline limit buffer chunks = (Inr (l @ [line_end]), buffer', chunks')" "buffer' @ concat chunks' = lines_text ls @ rest" by blast
  show thesis by (rule that [OF r(2)]) (subst stdin_reader.simps, simp add: r(1) apfst_def map_prod_def)
qed

lemma stdin_reader_long:
  assumes "buffer @ concat chunks = l @ later" and "line_end \<notin> set l" and "limit < length l"
  shows "\<exists>m. stdin_reader limit decode buffer chunks = ([], Some (PyExn ''ValueError'' m))"
  using readline_long [OF assms] by (subst stdin_reader.simps) (auto split: prod.splits sum.splits)

lemma stdin_reader_rest:
  assumes "buffer @ concat chunks = rest" and "line_end \<notin> set rest" and "length rest \<le> limit"
  shows "stdin_reader limit decode buffer chunks = (if rest = [] then [] else [decode rest], None)"
proof -
  have "readline limit buffer chunks = (Inr rest, [], [])" using readline_rest [of buffer chunks limit] assms by simp
  moreover have "readline limit [] [] = (Inr [], [], [])" by (simp add: readline.simps)
  ultimately show ?thesis by (simp add: stdin_reader.simps)
qed

lemma stdin_reader_lines:
  "buffer @ concat chunks = lines_text ls @ rest \<Longrightarrow> list_all (\<lambda>l. line_end \<notin> set l) (rest # ls) \<Longrightarrow>
   list_all (\<lambda>l. length l \<le> limit) (rest # ls) \<Longrightarrow>
   stdin_reader limit decode buffer chunks = (map (\<lambda>l. decode (l @ [line_end])) ls @ (if rest = [] then [] else [decode rest]), None)"
proof (induction ls arbitrary: buffer chunks)
  case Nil
  then show ?case using stdin_reader_rest [of buffer chunks rest limit decode] by (simp add: lines_text_def)
next
  case (Cons l ls)
  have "line_end \<notin> set l" "length l \<le> limit" using Cons.prems by simp_all
  from stdin_reader_line [OF Cons.prems(1) this] obtain buffer' chunks' where "buffer' @ concat chunks' = lines_text ls @ rest"
    "stdin_reader limit decode buffer chunks = apfst (Cons (decode (l @ [line_end]))) (stdin_reader limit decode buffer' chunks')"
    by blast
  then show ?case using Cons.IH [of buffer' chunks'] Cons.prems by simp
qed

lemma stdin_reader_overrun:
  "buffer @ concat chunks = lines_text ls @ rest \<Longrightarrow> list_all (\<lambda>l. line_end \<notin> set l) (rest # ls) \<Longrightarrow>
   \<not> list_all (\<lambda>l. length l \<le> limit) (rest # ls) \<Longrightarrow>
   \<exists>m. stdin_reader limit decode buffer chunks =
     (map (\<lambda>l. decode (l @ [line_end])) (takeWhile (\<lambda>l. length l \<le> limit) ls), Some (PyExn ''ValueError'' m))"
proof (induction ls arbitrary: buffer chunks)
  case Nil
  then show ?case using stdin_reader_long [of buffer chunks rest "[]" limit decode] by (simp add: lines_text_def)
next
  case (Cons l ls)
  show ?case
  proof (cases "length l \<le> limit")
    case True
    then obtain buffer' chunks' where "buffer' @ concat chunks' = lines_text ls @ rest"
      "stdin_reader limit decode buffer chunks = apfst (Cons (decode (l @ [line_end]))) (stdin_reader limit decode buffer' chunks')"
      using stdin_reader_line [OF Cons.prems(1), of limit decode] Cons.prems(2) by auto
    then show ?thesis using Cons.IH [of buffer' chunks'] Cons.prems True by auto
  next
    case False
    have "buffer @ concat chunks = l @ line_end # lines_text ls @ rest" using Cons.prems(1) by (simp add: lines_text_def)
    from stdin_reader_long [OF this, of limit decode] False Cons.prems(2) show ?thesis by simp
  qed
qed

lemma stdout_writer_lines: "stdout_writer encode ms = lines_text (map encode ms)"
  by (induction ms) (auto simp: lines_text_def)

section \<open>Properties\<close>

text \<open>C37: framing on the pipe.  However the operating system cuts the input into chunks, the reader sends
  for every line, in order, the decoded message or the exception of the decoder, and for an unterminated
  rest of the input too; a malformed line does not disturb the others.  It ends normally at the end of the
  input unless some line exceeds the limit: then it delivers the lines before it and ends with \<open>ValueError\<close>,
  and the lines after it are never read.\<close>

theorem stdio_framing:
  assumes "concat chunks = concat (map (\<lambda>l. l @ [line_end]) ls) @ rest" and "list_all (\<lambda>l. line_end \<notin> set l) (rest # ls)"
  shows "case stdin_reader limit decode [] chunks of (sent, end) \<Rightarrow>
    if list_all (\<lambda>l. length l \<le> limit) (rest # ls)
    then sent = map (\<lambda>l. decode (l @ [line_end])) ls @ (if rest = [] then [] else [decode rest]) \<and> end = None
    else sent = map (\<lambda>l. decode (l @ [line_end])) (takeWhile (\<lambda>l. length l \<le> limit) ls) \<and>
      (\<exists>m. end = Some (PyExn ''ValueError'' m))"
  using stdin_reader_lines [of "[]" chunks ls rest limit decode] stdin_reader_overrun [of "[]" chunks ls rest limit decode] assms
  by (cases "list_all (\<lambda>l. length l \<le> limit) (rest # ls)") (auto simp: lines_text_def)

theorem stdio_framing_witness:
  "stdin_reader 3 (\<lambda>s. if s = ''a'' @ [line_end] then Inr True else Inl (PyExn ''ValueError'' s)) []
     [''a'', [line_end, CHR ''x''], [line_end], ''a'' @ [line_end, CHR ''q'']] =
   ([Inr True, Inl (PyExn ''ValueError'' (''x'' @ [line_end])), Inr True, Inl (PyExn ''ValueError'' ''q'')], None)"
  (is "stdin_reader 3 ?d [] ?c = _")
proof -
  have "concat ?c = concat (map (\<lambda>l. l @ [line_end]) [''a'', ''x'', ''a'']) @ ''q''" by simp
  from stdio_framing [OF this, of 3 ?d] show ?thesis by (auto simp: line_end_def split: prod.splits)
qed



text \<open>A function that was off-loaded is waited for: a result that is returned is the function's own, a cancelled
  caller leaves a running function running, and without a cancellation the result arrives.\<close>

lemma run_blocking_result:
  "f \<noteq> CancelledFuture \<Longrightarrow> run_blocking f ts = Some (r, f') \<Longrightarrow>
   f' = Completed r \<or> Cancel \<in> set ts \<and> r = Inl CancelledExn \<and> (f' = Running \<or> f' = CancelledFuture)"
  by (induction f ts rule: run_blocking.induct) (auto split: if_splits elim: thread_step.elims)

lemma run_blocking_returns:
  "list_all (\<lambda>t. t = Thread Pending) ts \<Longrightarrow> list_all (\<lambda>t. t = Thread Running) us \<Longrightarrow>
   run_blocking Pending (ts @ us @ Thread (Completed r) # vs) = Some (r, Completed r)"
proof (induction ts)
  case Nil
  have "list_all (\<lambda>t. t = Thread Running) us \<Longrightarrow> run_blocking Running (us @ Thread (Completed r) # vs) = Some (r, Completed r)" for us
    by (induction us) auto
  with Nil show ?case by (cases us) auto
qed auto

end
