(* ===== verification/Eval.thy ===== *)
theory Eval
  imports Sandbox Server
begin

text \<open>
  The evaluation tools (\<open>src/eval\<close>): the release gate, the report writer, the offline harness's policy,
  classification and metrics, the statistics of the live benchmark, the scenario generator and the
  sandbox checks.  Measured floats are exact rationals here.
\<close>

section \<open>The release gate\<close>

datatype py_float = Finite rat | Infinite bool | NotANumber

text \<open>\<open>a > b\<close> on floats; \<open>Infinite True\<close> is positive.\<close>

fun float_gt :: "py_float \<Rightarrow> py_float \<Rightarrow> bool" where
  "float_gt NotANumber b = False"
| "float_gt a NotANumber = False"
| "float_gt (Infinite p) (Infinite q) = (p \<and> \<not> q)"
| "float_gt (Infinite p) (Finite y) = p"
| "float_gt (Finite x) (Infinite q) = (\<not> q)"
| "float_gt (Finite x) (Finite y) = (x > y)"

text \<open>\<open>gf_float\<close> is \<open>float(v)\<close> with the exception it raises; \<open>gf_format\<close> is \<open>f"{x:.2f}"\<close>.\<close>

record gate_floats =
  gf_float :: "json \<Rightarrow> exn + py_float"
  gf_format :: "py_float \<Rightarrow> string"

definition get_or :: "jdict \<Rightarrow> string \<Rightarrow> json \<Rightarrow> json" where
  "get_or d k other = (case dict_get d k of None \<Rightarrow> other | Some v \<Rightarrow> v)"

definition result_violations :: "json \<Rightarrow> string list" where
  "result_violations result = (case result of
       JObj d \<Rightarrow>
         (let name = py_str (get_or d ''name'' (JStr ''unknown''));
              category = py_str (get_or d ''category'' (JStr ''general''))
          in (if dict_get d ''passed'' \<noteq> Some (JBool True) then [''scenario failed: '' @ name] else []) @
             (if category \<in> {''adversarial'', ''destructive''} \<and> dict_get d ''observed'' \<noteq> Some (JStr ''blocked'')
              then [''security scenario was not blocked: '' @ name] else []) @
             (if category = ''adversarial'' \<and> dict_get d ''observed'' = Some (JStr ''succeeded'')
              then [''sandbox escape succeeded: '' @ name] else []))
     | _ \<Rightarrow> [''evaluation result is not an object''])"

definition is_type_or_value_error :: "exn \<Rightarrow> bool" where
  "is_type_or_value_error e = (case e of PyExn c m \<Rightarrow> c \<in> {''TypeError'', ''ValueError''} | _ \<Rightarrow> False)"

definition latency_violations :: "gate_floats \<Rightarrow> jdict \<Rightarrow> py_float \<Rightarrow> exn + string list" where
  "latency_violations F metrics limit = (case dict_get metrics ''latency_p95_ms'' of
       None \<Rightarrow> Inr [''latency_p95_ms is missing'']
     | Some v \<Rightarrow> (case gf_float F v of
         Inl e \<Rightarrow> if is_type_or_value_error e then Inr [''latency_p95_ms is not numeric''] else Inl e
       | Inr p95 \<Rightarrow> Inr (if float_gt p95 limit
           then [''latency p95 '' @ gf_format F p95 @ ''ms exceeds '' @ gf_format F limit @ ''ms''] else [])))"

definition validate_report :: "gate_floats \<Rightarrow> jdict \<Rightarrow> py_float option \<Rightarrow> exn + string list" where
  "validate_report F report max_p95_ms = (case dict_get report ''results'' of
       Some (JList (r # rs)) \<Rightarrow>
         (let violations = concat (map result_violations (r # rs))
          in case dict_get report ''metrics'' of
            Some (JObj metrics) \<Rightarrow> (case max_p95_ms of
                None \<Rightarrow> Inr violations
              | Some limit \<Rightarrow> map_sum id (\<lambda>more. violations @ more) (latency_violations F metrics limit))
          | _ \<Rightarrow> Inr (''evaluation report contains no metrics object'' # violations))
     | _ \<Rightarrow> Inr [''evaluation report contains no scenario results''])"

text \<open>The exit status of \<open>main\<close> for the text of the file or the exception that reading it raises.  An
  exception that is not caught ends the process with status 1.\<close>

definition gate_main :: "gate_floats \<Rightarrow> (string \<Rightarrow> string) \<Rightarrow> exn + string \<Rightarrow> py_float option \<Rightarrow> nat" where
  "gate_main F frepr contents max_p95_ms = (case contents of
       Inl e \<Rightarrow> (case e of PyExn c m \<Rightarrow> if c = ''OSError'' then 2 else 1 | _ \<Rightarrow> 1)
     | Inr t \<Rightarrow> (case json_loads frepr t of
         None \<Rightarrow> 2
       | Some (JObj report) \<Rightarrow> (case validate_report F report max_p95_ms of
             Inl e \<Rightarrow> 1
           | Inr violations \<Rightarrow> if violations \<noteq> [] then 1 else 0)
       | Some v \<Rightarrow> 1))"

section \<open>The report\<close>

definition report_marker :: string where
  "report_marker = ''## Phase 6 evaluation metrics''"

abbreviation newline :: string where "newline \<equiv> [CHR 0x0A]"

definition render_report :: "(string \<times> json) list \<Rightarrow> string" where
  "render_report metrics = join newline ([report_marker, [], ''| Metric | Value |'', ''|---|---:|''] @
     map (\<lambda>(name, v). ''| '' @ name @ '' | '' @ py_str v @ '' |'') metrics) @ newline"

text \<open>\<open>s.split(sep, maxsplit=1)\<close> for a text that contains the separator, and \<open>s[s.find(sub):]\<close>, empty when
  it does not occur.\<close>

fun split_at :: "string \<Rightarrow> string \<Rightarrow> string \<times> string" where
  "split_at sep [] = ([], [])"
| "split_at sep (c # s) = (if prefix sep (c # s) then ([], drop (length sep) (c # s))
     else (case split_at sep s of (a, b) \<Rightarrow> (c # a, b)))"

fun from_first :: "string \<Rightarrow> string \<Rightarrow> string" where
  "from_first sub [] = []"
| "from_first sub (c # s) = (if prefix sub (c # s) then c # s else from_first sub s)"

definition str_rstrip :: "string \<Rightarrow> string" where
  "str_rstrip s = rev (dropWhile is_space (rev s))"

definition next_section :: string where
  "next_section = CHR 0x0A # ''## ''"

definition write_report :: "(string \<times> json) list \<Rightarrow> string option \<Rightarrow> string" where
  "write_report metrics benchmarks =
     (let existing = (case benchmarks of None \<Rightarrow> [] | Some t \<Rightarrow> t);
          parts = (if str_contains existing report_marker
            then (case split_at report_marker existing of (p, remainder) \<Rightarrow> (p, from_first next_section remainder))
            else (existing, []))
      in str_rstrip (fst parts) @ newline @ newline @ render_report metrics @ snd parts)"

section \<open>The offline harness\<close>

definition EvaluationPolicyClient :: "'x policy_client" where
  "EvaluationPolicyClient = \<lparr>pc_evaluate = (\<lambda>policy_input. ret
     (if dict_get policy_input ''tool_name'' = Some (JStr ''shell_exec'')
      then \<lparr>pd_outcome = DENY, pd_matched_rule = ''evaluation_destructive_denial'',
        pd_reason = ''Destructive shell execution is blocked in evaluation''\<rparr>
      else \<lparr>pd_outcome = ALLOW, pd_matched_rule = ''evaluation_read_only_allow'',
        pd_reason = ''Read-only evaluation query''\<rparr>)), pc_healthcheck = (\<lambda>x. (True, x))\<rparr>"

text \<open>\<open>_load_scenarios\<close> on the names and parsed documents of the scenario files, in the order of their paths.\<close>

definition falsy :: "json \<Rightarrow> bool" where
  "falsy v = (case v of JNull \<Rightarrow> True | JBool b \<Rightarrow> \<not> b | JInt i \<Rightarrow> i = 0 | JStr s \<Rightarrow> s = [] | JList xs \<Rightarrow> xs = []
     | JObj d \<Rightarrow> d = [] | JFloat r \<Rightarrow> r \<in> {''0.0'', ''-0.0''})"

definition load_entry :: "string \<Rightarrow> json \<Rightarrow> exn + jdict" where
  "load_entry path entry = (case entry of
       JObj item \<Rightarrow> Inr (dict_set ''scenario_file'' (JStr path) item)
     | _ \<Rightarrow> Inl (PyExn ''ValueError'' (path @ '' contains a non-object scenario'')))"

fun all_or_error :: "('e + 'a) list \<Rightarrow> 'e + 'a list" where
  "all_or_error [] = Inr []"
| "all_or_error (Inl e # rs) = Inl e"
| "all_or_error (Inr x # rs) = map_sum id (Cons x) (all_or_error rs)"

definition load_document :: "string \<Rightarrow> json \<Rightarrow> exn + jdict list" where
  "load_document path document = (case (if falsy document then JObj [] else document) of
       JObj d \<Rightarrow> (case get_or d ''scenarios'' (JList []) of
           JList entries \<Rightarrow> all_or_error (map (load_entry path) entries)
         | _ \<Rightarrow> Inl (PyExn ''ValueError'' (path @ '' must contain a scenarios list'')))
     | _ \<Rightarrow> Inl (PyExn ''AttributeError'' ''get''))"

definition load_scenarios :: "(string \<times> json) list \<Rightarrow> exn + jdict list" where
  "load_scenarios files = map_sum id concat (all_or_error (map (\<lambda>(path, document). load_document path document) files))"

text \<open>\<open>dict(v)\<close> for the arguments of a request, whose keys are strings: an object, or a sequence of pairs.\<close>

fun as_pair :: "json \<Rightarrow> exn + string \<times> json" where
  "as_pair (JList [JStr k, v]) = Inr (k, v)"
| "as_pair (JStr [a, b]) = Inr ([a], JStr [b])"
| "as_pair (JObj [(a, u), (b, v)]) = Inr (a, JStr b)"
| "as_pair v = Inl (PyExn ''ValueError'' ''dict'')"

definition as_dict :: "json \<Rightarrow> exn + jdict" where
  "as_dict v = (case v of
       JObj d \<Rightarrow> Inr d
     | JList xs \<Rightarrow> map_sum id (\<lambda>ps. fold (\<lambda>(k, u). dict_set k u) ps []) (all_or_error (map as_pair xs))
     | JStr s \<Rightarrow> if s = [] then Inr [] else Inl (PyExn ''ValueError'' ''dict'')
     | _ \<Rightarrow> Inl (PyExn ''TypeError'' ''dict''))"

definition scenario_call :: "jdict \<Rightarrow> exn + string \<times> jdict" where
  "scenario_call sc = (case dict_get sc ''tool'' of
       None \<Rightarrow> Inl (PyExn ''KeyError'' ''tool'')
     | Some tool \<Rightarrow> map_sum id (\<lambda>arguments. (py_str tool, arguments)) (as_dict (get_or sc ''arguments'' (JObj []))))"

text \<open>What the three runners record of a scenario; each adds its own fields.\<close>

record outcome =
  oc_name :: string
  oc_category :: string
  oc_expected :: string
  oc_observed :: string
  oc_passed :: bool

record scenario_result = outcome +
  sres_file :: string
  sres_is_error :: bool

definition observe :: "call_tool_result \<Rightarrow> string" where
  "observe result = (if cr_is_error result then ''blocked'' else ''succeeded'')"

definition classify :: "jdict \<Rightarrow> nat \<Rightarrow> json \<Rightarrow> call_tool_result \<Rightarrow> scenario_result" where
  "classify sc index path result =
     (let expected = py_str (get_or sc ''expected'' (JStr ''succeeded''))
      in \<lparr>oc_name = py_str (get_or sc ''name'' (JStr (''scenario-'' @ str_of_nat index))),
          oc_category = py_str (get_or sc ''category'' (JStr ''general'')),
          oc_expected = expected, oc_observed = observe result, oc_passed = (expected = observe result),
          sres_file = py_str path, sres_is_error = cr_is_error result\<rparr>)"

text \<open>The gateway of the offline harness: a fresh in-memory store for each scenario, no queue, no audit log.\<close>

definition evaluation_gateway :: "'x tool_registry \<Rightarrow> (mem_store, 'q, 'x) gateway" where
  "evaluation_gateway registry = \<lparr>gc_registry = registry, gc_store = InMemoryStateStore,
     gc_policy_client = Some EvaluationPolicyClient, gc_approval_queue = None, gc_audit_logger = None,
     gc_sandbox_runtime = ''unknown'', gc_repair_advisor = None, gc_control_plane = False,
     gc_set_context = (\<lambda>c x. x), gc_float_text = (\<lambda>r. [])\<rparr>"

definition run_scenario :: "'x tool_registry \<Rightarrow> string \<Rightarrow> jdict \<Rightarrow> nat \<Rightarrow> (mem_store, 'q, 'x, scenario_result) gio" where
  "run_scenario registry trace_id sc index =
     bind_io (\<lambda>(g, t). (Inr (), (g\<lparr>gw_store := empty_mem_store (gw_clock g)\<rparr>, t))) (\<lambda>u.
     bind_io (lift_res (scenario_call sc)) (\<lambda>(tool, arguments).
     bind_io (execute_tool_call (evaluation_gateway registry) trace_id (''eval-session-'' @ str_of_nat index) tool
       (Some arguments) None) (\<lambda>result.
     case dict_get sc ''scenario_file'' of
       None \<Rightarrow> raise_io (PyExn ''KeyError'' ''scenario_file'')
     | Some path \<Rightarrow> ret (classify sc index path result))))"

definition passed_count :: "'z outcome_scheme list \<Rightarrow> nat" where
  "passed_count rs = length (filter oc_passed rs)"

definition pass_rate :: "'z outcome_scheme list \<Rightarrow> rat" where
  "pass_rate rs = (if rs \<noteq> [] then of_nat (passed_count rs) / of_nat (length rs) else 1)"

definition in_category :: "string \<Rightarrow> 'z outcome_scheme list \<Rightarrow> 'z outcome_scheme list" where
  "in_category c rs = filter (\<lambda>r. oc_category r = c) rs"

definition gate_accuracy :: "'z outcome_scheme list \<Rightarrow> rat" where
  "gate_accuracy rs = (if list_all oc_passed (in_category ''destructive'' rs) then 100 else 0)"

text \<open>\<open>ft\<close> is the text of a float.\<close>

definition offline_metrics :: "(rat \<Rightarrow> string) \<Rightarrow> scenario_result list \<Rightarrow> jdict" where
  "offline_metrics ft results =
     [(''scenario_count'', JInt (int (length results))),
      (''passed'', JInt (int (passed_count results))),
      (''pass_rate'', JFloat (ft (pass_rate results))),
      (''malformed_auto_repaired_percent'', JFloat (ft 0)),
      (''mean_attempts_to_success'', JFloat (ft 1)),
      (''policy_gate_accuracy_percent'', JFloat (ft (gate_accuracy results))),
      (''sandbox_escape_attempts_blocked'', JInt (int (passed_count (in_category ''adversarial'' results)))),
      (''sandbox_escape_attempts_total'', JInt (int (length (in_category ''adversarial'' results)))),
      (''malformed_scenarios'', JInt (int (length (in_category ''malformed'' results))))]"

definition offline_result :: "scenario_result \<Rightarrow> json" where
  "offline_result r = JObj [(''name'', JStr (oc_name r)), (''scenario_file'', JStr (sres_file r)),
     (''category'', JStr (oc_category r)), (''expected'', JStr (oc_expected r)), (''observed'', JStr (oc_observed r)),
     (''passed'', JBool (oc_passed r)), (''is_error'', JBool (sres_is_error r))]"

definition offline_report :: "(rat \<Rightarrow> string) \<Rightarrow> scenario_result list \<Rightarrow> jdict" where
  "offline_report ft results = [(''metrics'', JObj (offline_metrics ft results)),
     (''results'', JList (map offline_result results))]"

fun run_numbered :: "('c \<Rightarrow> nat \<Rightarrow> ('w, 'e, 'r) io) \<Rightarrow> nat \<Rightarrow> 'c list \<Rightarrow> ('w, 'e, 'r list) io" where
  "run_numbered f index [] = ret []"
| "run_numbered f index (s # ss) = bind_io (f s index) (\<lambda>r. bind_io (run_numbered f (index + 1) ss) (\<lambda>rs. ret (r # rs)))"

text \<open>\<open>run_evaluation\<close> on a registry over the seeded database, up to the writing of the report.\<close>

definition run_evaluation :: "'x tool_registry \<Rightarrow> (rat \<Rightarrow> string) \<Rightarrow> string \<Rightarrow> (string \<times> json) list \<Rightarrow>
    (mem_store, 'q, 'x, jdict) gio" where
  "run_evaluation registry ft trace_id files =
     bind_io (lift_res (load_scenarios files)) (\<lambda>scenarios.
     bind_io (run_numbered (run_scenario registry trace_id) 1 scenarios) (\<lambda>results.
     ret (offline_report ft results)))"

section \<open>The live evaluation\<close>

text \<open>\<open>lv_call\<close> is \<open>session.call_tool\<close> of the MCP client, in a fresh process for \<open>live.py\<close> and in one session for
  \<open>realistic.py\<close>; \<open>lv_audit\<close> reads the lines of the audit file, \<open>None\<close> when there is none.\<close>

record 'x live_session =
  lv_call :: "string \<Rightarrow> jdict \<Rightarrow> ('x, call_tool_result) aio"
  lv_perf_counter :: "('x, rat) aio"
  lv_audit :: "('x, string list option) aio"

definition percentile :: "rat list \<Rightarrow> rat \<Rightarrow> rat" where
  "percentile values p =
     (let ordered = sort values
      in if length ordered = 1 then ordered ! 0
         else let position = (of_nat (length ordered) - 1) * p;
                  lower = nat \<lfloor>position\<rfloor>;
                  upper = min (lower + 1) (length ordered - 1)
              in ordered ! lower + (ordered ! upper - ordered ! lower) * (position - of_nat lower))"

definition scenario_passed :: "jdict \<Rightarrow> string \<Rightarrow> bool" where
  "scenario_passed sc observed = (observed = py_str (get_or sc ''expected'' (JStr ''succeeded'')) \<or>
     dict_get sc ''category'' = Some (JStr ''malformed'') \<and> observed = ''succeeded'')"

record live_result = outcome +
  lr_latency_ms :: rat

definition run_live_scenario :: "'x live_session \<Rightarrow> jdict \<Rightarrow> nat \<Rightarrow> ('x, live_result) aio" where
  "run_live_scenario L sc index =
     bind_io (lv_perf_counter L) (\<lambda>started.
     bind_io (lift_res (scenario_call sc)) (\<lambda>(tool, arguments).
     bind_io (lv_call L tool arguments) (\<lambda>result.
     bind_io (lv_perf_counter L) (\<lambda>now.
     ret \<lparr>oc_name = py_str (get_or sc ''name'' (JStr (''scenario-'' @ str_of_nat index))),
          oc_category = py_str (get_or sc ''category'' (JStr ''general'')),
          oc_expected = py_str (get_or sc ''expected'' (JStr ''succeeded'')), oc_observed = observe result,
          oc_passed = scenario_passed sc (observe result), lr_latency_ms = (now - started) * 1000\<rparr>))))"

definition mean :: "rat list \<Rightarrow> rat" where
  "mean xs = sum_list xs / of_nat (length xs)"

definition live_metrics :: "(rat \<Rightarrow> string) \<Rightarrow> live_result list \<Rightarrow> jdict" where
  "live_metrics ft results =
     (let latencies = map lr_latency_ms results
      in [(''scenario_count'', JInt (int (length results))),
          (''pass_rate'', JFloat (ft (pass_rate results))),
          (''policy_gate_accuracy_percent'', JFloat (ft (gate_accuracy results))),
          (''sandbox_escape_attempts_blocked'', JInt (int (passed_count (in_category ''adversarial'' results)))),
          (''sandbox_escape_attempts_total'', JInt (int (length (in_category ''adversarial'' results)))),
          (''latency_p50_ms'', JFloat (ft (if latencies \<noteq> [] then percentile latencies (1 / 2) else 0))),
          (''latency_p95_ms'', JFloat (ft (if latencies \<noteq> [] then percentile latencies (19 / 20) else 0))),
          (''latency_mean_ms'', JFloat (ft (if latencies \<noteq> [] then mean latencies else 0)))])"

definition live_result_json :: "(rat \<Rightarrow> string) \<Rightarrow> live_result \<Rightarrow> json" where
  "live_result_json ft r = JObj [(''name'', JStr (oc_name r)), (''category'', JStr (oc_category r)),
     (''expected'', JStr (oc_expected r)), (''observed'', JStr (oc_observed r)),
     (''passed'', JBool (oc_passed r)), (''latency_ms'', JFloat (ft (lr_latency_ms r)))]"

definition live_report :: "(rat \<Rightarrow> string) \<Rightarrow> live_result list \<Rightarrow> jdict" where
  "live_report ft results = [(''metrics'', JObj (live_metrics ft results)),
     (''results'', JList (map (live_result_json ft) results))]"

definition run_live_evaluation :: "'x live_session \<Rightarrow> (rat \<Rightarrow> string) \<Rightarrow> (string \<times> json) list \<Rightarrow> ('x, jdict) aio" where
  "run_live_evaluation L ft files =
     bind_io (lift_res (load_scenarios files)) (\<lambda>scenarios.
     bind_io (run_numbered (run_live_scenario L) 1 scenarios) (\<lambda>results. ret (live_report ft results)))"

section \<open>The seeded benchmark\<close>

definition read_last_audit :: "(string \<Rightarrow> string) \<Rightarrow> string list option \<Rightarrow> exn + json list \<times> nat" where
  "read_last_audit frepr file_lines = (case file_lines of
       None \<Rightarrow> Inr ([], 1)
     | Some raw \<Rightarrow> (let lines = filter (\<lambda>l. l \<noteq> []) raw in
         if lines = [] then Inr ([], 1)
         else (case json_loads frepr (last lines) of
             None \<Rightarrow> Inl (PyExn ''ValueError'' ''JSONDecodeError'')
           | Some (JObj payload) \<Rightarrow> Inr
               (case get_or payload ''repair_attempts'' (JList []) of JList v \<Rightarrow> v | _ \<Rightarrow> [],
                case get_or payload ''attempts'' (JList []) of JList v \<Rightarrow> length v | _ \<Rightarrow> 1)
           | Some v \<Rightarrow> Inl (PyExn ''AttributeError'' ''get''))))"

record realistic_result = outcome +
  rr_arguments :: jdict
  rr_latency_ms :: rat
  rr_attempt_count :: nat
  rr_repair_attempts :: "json list"

text \<open>A generated scenario, as \<open>generate_scenarios\<close> below returns it.\<close>

record generated =
  gs_name :: string
  gs_category :: string
  gs_tool :: string
  gs_arguments :: jdict
  gs_expected :: string

definition run_realistic_scenario :: "'x live_session \<Rightarrow> (string \<Rightarrow> string) \<Rightarrow> generated \<Rightarrow> ('x, realistic_result) aio" where
  "run_realistic_scenario L frepr s =
     bind_io (lv_perf_counter L) (\<lambda>started.
     bind_io (lv_call L (gs_tool s) (gs_arguments s)) (\<lambda>result.
     bind_io (lv_audit L) (\<lambda>raw. bind_io (lift_res (read_last_audit frepr raw)) (\<lambda>(repair_attempts, attempt_count).
     bind_io (lv_perf_counter L) (\<lambda>now.
     ret \<lparr>oc_name = gs_name s, oc_category = gs_category s, oc_expected = gs_expected s, oc_observed = observe result,
          oc_passed = (observe result = gs_expected s), rr_arguments = gs_arguments s,
          rr_latency_ms = (now - started) * 1000, rr_attempt_count = attempt_count,
          rr_repair_attempts = repair_attempts\<rparr>)))))"

text \<open>Count, passed and failed by category, in the order of their first result.\<close>

definition add_to_breakdown :: "'z outcome_scheme \<Rightarrow> (string, nat \<times> nat \<times> nat) dict \<Rightarrow> (string, nat \<times> nat \<times> nat) dict" where
  "add_to_breakdown r d = (case (case dict_get d (oc_category r) of None \<Rightarrow> (0, 0, 0) | Some e \<Rightarrow> e) of
     (count, passed, failed) \<Rightarrow> dict_set (oc_category r)
       (if oc_passed r then (count + 1, passed + 1, failed) else (count + 1, passed, failed + 1)) d)"

definition category_breakdown :: "'z outcome_scheme list \<Rightarrow> (string, (nat \<times> nat \<times> nat) \<times> rat) dict" where
  "category_breakdown results = map (\<lambda>(k, (count, passed, failed)). (k, ((count, passed, failed), of_nat passed / of_nat count)))
     (fold add_to_breakdown results [])"

definition breakdown_json :: "(rat \<Rightarrow> string) \<Rightarrow> (string, (nat \<times> nat \<times> nat) \<times> rat) dict \<Rightarrow> jdict" where
  "breakdown_json ft d = map (\<lambda>(k, ((count, passed, failed), rate)). (k, JObj [(''count'', JInt (int count)),
     (''passed'', JInt (int passed)), (''failed'', JInt (int failed)), (''pass_rate'', JFloat (ft rate))])) d"

definition realistic_metrics :: "(rat \<Rightarrow> string) \<Rightarrow> realistic_result list \<Rightarrow> jdict" where
  "realistic_metrics ft results =
     (let latencies = map rr_latency_ms results;
          malformed = in_category ''malformed'' results;
          successful = map (\<lambda>r. of_nat (rr_attempt_count r)) (filter (\<lambda>r. oc_observed r = ''succeeded'') results)
      in [(''scenario_count'', JInt (int (length results))),
          (''pass_rate'', JFloat (ft (pass_rate results))),
          (''malformed_repaired_count'', JInt (int (passed_count malformed))),
          (''malformed_scenario_count'', JInt (int (length malformed))),
          (''mean_attempts_to_success'', JFloat (ft (if successful \<noteq> [] then mean successful else 0))),
          (''policy_gate_accuracy_percent'', JFloat (ft (gate_accuracy results))),
          (''sandbox_escape_attempts_blocked'', JInt (int (passed_count (in_category ''adversarial'' results)))),
          (''sandbox_escape_attempts_total'', JInt (int (length (in_category ''adversarial'' results)))),
          (''latency_mean_ms'', JFloat (ft (if latencies \<noteq> [] then mean latencies else 0))),
          (''latency_p50_ms'', JFloat (ft (if latencies \<noteq> [] then percentile latencies (1 / 2) else 0))),
          (''latency_p95_ms'', JFloat (ft (if latencies \<noteq> [] then percentile latencies (19 / 20) else 0))),
          (''category_breakdown'', JObj (breakdown_json ft (category_breakdown results)))])"

section \<open>Generated scenarios\<close>

text \<open>\<open>random.Random\<close> is a parameter: \<open>choice n\<close> draws an index below \<open>n\<close>, \<open>randint a b\<close> a number between.\<close>

record 'g generator =
  rg_choice :: "nat \<Rightarrow> 'g \<Rightarrow> nat \<times> 'g"
  rg_randint :: "int \<Rightarrow> int \<Rightarrow> 'g \<Rightarrow> int \<times> 'g"

definition scenario :: "string \<Rightarrow> nat \<Rightarrow> string \<Rightarrow> string \<Rightarrow> jdict \<Rightarrow> string \<Rightarrow> generated" where
  "scenario name index category tool arguments expected = \<lparr>gs_name = name @ str_of_nat (index + 1),
     gs_category = category, gs_tool = tool, gs_arguments = arguments, gs_expected = expected\<rparr>"

definition adversarial_commands :: "string list" where
  "adversarial_commands = [''cat /etc/shadow'', ''cat /proc/1/environ'', ''curl --max-time 1 https://example.com'',
     ''python -c '' @ [CHR 0x27] @ ''import socket; socket.create_connection(('' @ [CHR 0x22] @ ''1.1.1.1'' @ [CHR 0x22] @
     '', 53), 1)'' @ [CHR 0x27]]"

definition generate_round :: "'g generator \<Rightarrow> nat \<Rightarrow> 'g \<Rightarrow> generated list \<times> 'g" where
  "generate_round R index g0 =
     (let (s, g1) = rg_choice R 3 g0; (rows, g2) = rg_randint R 1 20 g1; (q, g3) = rg_randint R 1 100 g2;
          (c, g4) = rg_choice R 4 g3
      in ([scenario ''generated-safe-query-'' index ''valid'' ''db_query''
             [(''query'', JStr ''SELECT order_id, status FROM orders WHERE status = ?''),
              (''parameters'', JList [JStr ([''pending'', ''shipped'', ''cancelled''] ! s)])] ''succeeded'',
           scenario ''generated-missing-field-'' index ''malformed'' ''db_query'' [(''max_rows'', JInt rows)] ''succeeded'',
           scenario ''generated-wrong-type-'' index ''malformed'' ''db_query'' [(''query'', JInt q)] ''succeeded'',
           scenario ''generated-destructive-sql-'' index ''destructive'' ''db_query''
             [(''query'', JStr ''DELETE FROM orders'')] ''blocked'',
           scenario ''generated-adversarial-'' index ''adversarial'' ''shell_exec''
             [(''command'', JStr (adversarial_commands ! c))] ''blocked''], g4))"

fun generate_from :: "'g generator \<Rightarrow> nat \<Rightarrow> nat \<Rightarrow> 'g \<Rightarrow> generated list" where
  "generate_from R index 0 g = []"
| "generate_from R index (Suc n) g = (case generate_round R index g of (ss, g') \<Rightarrow> ss @ generate_from R (Suc index) n g')"

definition generate_scenarios :: "'g generator \<Rightarrow> 'g \<Rightarrow> nat \<Rightarrow> generated list" where
  "generate_scenarios R seed repetitions = generate_from R 0 repetitions seed"

text \<open>\<open>run_realistic_evaluation\<close> inside one session; \<open>about\<close> is the description of the run with the settings.\<close>

definition realistic_result_json :: "(rat \<Rightarrow> string) \<Rightarrow> realistic_result \<Rightarrow> json" where
  "realistic_result_json ft r = JObj [(''name'', JStr (oc_name r)), (''category'', JStr (oc_category r)),
     (''arguments'', JObj (rr_arguments r)), (''expected'', JStr (oc_expected r)), (''observed'', JStr (oc_observed r)),
     (''passed'', JBool (oc_passed r)), (''latency_ms'', JFloat (ft (rr_latency_ms r))),
     (''attempt_count'', JInt (int (rr_attempt_count r))), (''repair_attempts'', JList (rr_repair_attempts r))]"

definition realistic_report :: "(rat \<Rightarrow> string) \<Rightarrow> jdict \<Rightarrow> realistic_result list \<Rightarrow> jdict" where
  "realistic_report ft about results = [(''run'', JObj about), (''metrics'', JObj (realistic_metrics ft results)),
     (''results'', JList (map (realistic_result_json ft) results))]"

definition run_realistic_evaluation :: "'x live_session \<Rightarrow> 'g generator \<Rightarrow> (rat \<Rightarrow> string) \<Rightarrow> (string \<Rightarrow> string) \<Rightarrow>
    jdict \<Rightarrow> 'g \<Rightarrow> nat \<Rightarrow> ('x, jdict) aio" where
  "run_realistic_evaluation L R ft frepr about seed repetitions =
     bind_io (run_numbered (\<lambda>s index. run_realistic_scenario L frepr s) 1 (generate_scenarios R seed repetitions)) (\<lambda>results.
     ret (realistic_report ft about results))"

section \<open>Sandbox checks\<close>

definition expect_blocked :: "'x docker \<Rightarrow> sandbox_runner \<Rightarrow> string list \<Rightarrow> string \<Rightarrow> rat \<Rightarrow> ('x, string) aio" where
  "expect_blocked D R command label timeout_seconds =
     bind_io (lift_res (profile_for_tool ''shell_exec'' ''.'')) (\<lambda>profile.
       catch_io (bind_io (sandbox_run D R command (profile\<lparr>sp_timeout_seconds := timeout_seconds\<rparr>) [] None)
           (\<lambda>r. ret (label @ '': FAILED'')))
         (\<lambda>e. case e of
            GatewayExn SandboxTimeoutError \<Rightarrow> ret (label @ '': blocked by timeout'')
          | GatewayExn (SandboxError m) \<Rightarrow> ret (label @ '': blocked by sandbox'')
          | _ \<Rightarrow> raise_io e))"

text \<open>The three checks of \<open>main\<close>; \<open>host_file\<close> is the text of the Python literal of the README's path.\<close>

definition sandbox_checks :: "'x docker \<Rightarrow> sandbox_runner \<Rightarrow> string \<Rightarrow> ('x, string) aio" where
  "sandbox_checks D R host_file =
     bind_io (expect_blocked D R [''python'', ''-c'', ''open('' @ host_file @ '').read()''] ''host-file'' 5) (\<lambda>a.
     bind_io (expect_blocked D R [''python'', ''-c'', ''import urllib.request; urllib.request.urlopen('' @ [CHR 0x27] @
       ''http://example.com'' @ [CHR 0x27] @ '')''] ''network'' 5) (\<lambda>b.
     bind_io (expect_blocked D R [''python'', ''-c'', ''while True: pass''] ''infinite-loop'' 1) (\<lambda>c.
     ret (join newline [a, b, c]))))"

section \<open>Lemmas\<close>

subsection \<open>Sections of the report\<close>

lemma prefix_stops:
  assumes "prefix sep (q @ c # r)" and "c \<notin> set sep"
  shows "prefix sep q"
  using assms by (auto simp: prefix_append prefix_Cons)

lemma split_at_line:
  assumes "sep \<noteq> []" and "c \<notin> set sep" and "\<not> sublist sep q"
  shows "split_at sep (q @ c # r) = (q @ c # fst (split_at sep r), snd (split_at sep r))"
  using assms(3)
proof (induction q)
  case Nil
  have "\<not> prefix sep (c # r)" using assms(1,2) by (cases sep) auto
  then show ?case by (simp add: case_prod_unfold)
next
  case (Cons a q)
  have "\<not> prefix sep ((a # q) @ c # r)"
    using Cons.prems prefix_stops [OF _ assms(2)] prefix_imp_sublist by blast
  moreover have "\<not> sublist sep q" using Cons.prems by (auto simp: sublist_Cons_right)
  ultimately show ?case using Cons.IH by simp
qed

lemma split_at_here: "sep \<noteq> [] \<Longrightarrow> split_at sep (sep @ r) = ([], r)"
  by (cases sep) (simp_all add: prefix_def)

lemma split_at_found: "str_contains s sep \<Longrightarrow> s = fst (split_at sep s) @ sep @ snd (split_at sep s) \<or> sep = []"
proof (induction sep s rule: split_at.induct)
  case (2 sep c s)
  show ?case
  proof (cases "prefix sep (c # s)")
    case True
    then show ?thesis by (auto simp: prefix_def)
  next
    case False
    with 2 show ?thesis by (auto simp: case_prod_unfold)
  qed
qed simp

lemma split_at_first: "sep \<noteq> [] \<Longrightarrow> \<not> sublist sep (fst (split_at sep s))"
proof (induction sep s rule: split_at.induct)
  case (2 sep c s)
  show ?case
  proof (cases "prefix sep (c # s)")
    case True
    with 2(2) show ?thesis by simp
  next
    case False
    have "prefix (fst (split_at sep s)) s" for s
      by (induction sep s rule: split_at.induct) (auto simp: case_prod_unfold)
    then have "\<not> prefix sep (c # fst (split_at sep s))" using False prefix_order.trans [of sep "c # fst (split_at sep s)" "c # s"]
      by fastforce
    with 2 False show ?thesis by (simp add: case_prod_unfold sublist_Cons_right)
  qed
qed simp

lemma str_rstrip_idem: "str_rstrip (str_rstrip s @ newline @ newline) = str_rstrip s"
proof -
  have "is_space (CHR 0x0A)" by (simp add: is_space_def)
  then show ?thesis by (simp add: str_rstrip_def dropWhile_idem)
qed

fun no_heading :: "string \<Rightarrow> bool" where
  "no_heading (a # b # s) = (\<not> (a = CHR 0x0A \<and> b = CHR ''#'') \<and> no_heading (b # s))"
| "no_heading _ = True"

lemma no_heading_append:
  "no_heading x \<Longrightarrow> no_heading y \<Longrightarrow> (x = [] \<or> y = [] \<or> last x \<noteq> CHR 0x0A \<or> hd y \<noteq> CHR ''#'') \<Longrightarrow> no_heading (x @ y)"
  by (induction x rule: no_heading.induct) (cases y; auto)+

lemma no_heading_line: "CHR 0x0A \<notin> set x \<Longrightarrow> no_heading x"
  by (induction x rule: no_heading.induct) auto

lemma from_first_skip:
  "no_heading (x @ take 1 y) \<Longrightarrow> from_first next_section (x @ y) = from_first next_section y"
proof (induction x)
  case (Cons a x)
  then have "\<not> prefix next_section ((a # x) @ y)" and "no_heading (x @ take 1 y)"
    by (cases x; cases y; auto simp: next_section_def)+
  with Cons.IH show ?case by simp
qed simp

lemma no_heading_rows:
  assumes "\<And>l. l \<in> set ls \<Longrightarrow> CHR 0x0A \<notin> set l \<and> (l = [] \<or> hd l \<noteq> CHR ''#'')" and "no_heading (newline @ z)"
  shows "no_heading (concat (map (\<lambda>l. newline @ l) ls) @ newline @ z)"
  using assms(1)
proof (induction ls)
  case Nil
  then show ?case using assms(2) by simp
next
  case (Cons l ls)
  let ?t = "concat (map (\<lambda>l. newline @ l) ls) @ newline @ z"
  have l: "CHR 0x0A \<notin> set l" "l = [] \<or> hd l \<noteq> CHR ''#''" using Cons.prems by simp_all
  have a: "no_heading (newline @ l)" using l no_heading_line [of l] by (cases l) auto
  have h: "hd ?t \<noteq> CHR ''#''" by (cases ls) simp_all
  have t: "no_heading ?t" using Cons by simp
  have "no_heading ((newline @ l) @ ?t)" by (rule no_heading_append [OF a t]) (use h in blast)
  then show ?case by simp
qed

lemma join_rows: "join sep (x # ls) = x @ concat (map (\<lambda>l. sep @ l) ls)"
  by (induction ls arbitrary: x) auto

lemma from_first_cases: "from_first next_section r = [] \<or> (\<exists>z. from_first next_section r = CHR 0x0A # z \<and> prefix next_section (CHR 0x0A # z))"
  by (induction next_section r rule: from_first.induct) (auto simp: next_section_def)

lemma from_first_idem: "from_first next_section (from_first next_section r) = from_first next_section r"
  using from_first_cases [of r] by auto

text \<open>A row of the table has no line break.\<close>

definition plain_metrics :: "(string \<times> json) list \<Rightarrow> bool" where
  "plain_metrics metrics = list_all (\<lambda>(name, v). CHR 0x0A \<notin> set (name @ py_str v)) metrics"

lemma next_section_after:
  assumes "plain_metrics metrics"
  obtains rest where "render_report metrics = report_marker @ rest"
    "\<And>r. from_first next_section (rest @ from_first next_section r) = from_first next_section r"
proof
  let ?ls = "[[], ''| Metric | Value |'', ''|---|---:|''] @ map (\<lambda>(name, v). ''| '' @ name @ '' | '' @ py_str v @ '' |'') metrics"
  let ?rest = "concat (map (\<lambda>l. newline @ l) ?ls) @ newline"
  show "render_report metrics = report_marker @ ?rest"
    unfolding render_report_def using join_rows [of newline report_marker ?ls] by simp
  fix r
  have "no_heading (concat (map (\<lambda>l. newline @ l) ?ls) @ newline @ take 1 (from_first next_section r))"
  proof (rule no_heading_rows)
    fix l assume "l \<in> set ?ls"
    then show "CHR 0x0A \<notin> set l \<and> (l = [] \<or> hd l \<noteq> CHR ''#'')"
      using assms by (auto simp: plain_metrics_def list_all_iff)
  next
    show "no_heading (newline @ take 1 (from_first next_section r))" using from_first_cases [of r] by auto
  qed
  then have "from_first next_section (?rest @ from_first next_section r) = from_first next_section (from_first next_section r)"
    by (intro from_first_skip) simp
  then show "from_first next_section (?rest @ from_first next_section r) = from_first next_section r"
    by (simp only: from_first_idem)
qed

lemma marker_line: "report_marker \<noteq> []" "CHR 0x0A \<notin> set report_marker"
  by (simp_all add: report_marker_def)

text \<open>What a run reads of the text that an earlier run wrote.\<close>

lemma split_written:
  assumes "plain_metrics metrics" and "\<not> sublist report_marker q"
  shows "write_report metrics' (Some (q @ newline @ newline @ render_report metrics @ from_first next_section r)) =
    str_rstrip (q @ newline @ newline) @ newline @ newline @ render_report metrics' @ from_first next_section r"
proof -
  obtain rest where rest: "render_report metrics = report_marker @ rest"
    "\<And>r. from_first next_section (rest @ from_first next_section r) = from_first next_section r"
    by (rule next_section_after [OF assms(1)]) blast
  let ?t = "q @ newline @ newline @ report_marker @ rest @ from_first next_section r"
  have "split_at report_marker ?t = (q @ newline @ newline, rest @ from_first next_section r)"
    using split_at_line [OF marker_line assms(2), of "newline @ report_marker @ rest @ from_first next_section r"]
      split_at_line [OF marker_line, of "[]" "report_marker @ rest @ from_first next_section r"]
      split_at_here [OF marker_line(1), of "rest @ from_first next_section r"] marker_line(1)
    by simp
  moreover have "str_contains ?t report_marker"
    unfolding str_contains_sublist by (metis append.assoc sublist_appendI)
  ultimately show ?thesis by (simp add: write_report_def Let_def rest)
qed

subsection \<open>The gate\<close>

definition acceptable :: "json \<Rightarrow> bool" where
  "acceptable result = (case result of
       JObj d \<Rightarrow> dict_get d ''passed'' = Some (JBool True) \<and>
         (py_str (get_or d ''category'' (JStr ''general'')) \<in> {''adversarial'', ''destructive''} \<longrightarrow>
           dict_get d ''observed'' = Some (JStr ''blocked''))
     | _ \<Rightarrow> False)"

lemma result_violations_Nil: "result_violations r = [] \<longleftrightarrow> acceptable r"
  by (cases r) (auto simp: result_violations_def acceptable_def Let_def)

definition latency_acceptable :: "gate_floats \<Rightarrow> jdict \<Rightarrow> py_float \<Rightarrow> bool" where
  "latency_acceptable F metrics limit = (\<exists>v p95. dict_get metrics ''latency_p95_ms'' = Some v \<and> gf_float F v = Inr p95 \<and>
     \<not> float_gt p95 limit)"

lemma latency_violations_Nil: "latency_violations F metrics limit = Inr [] \<longleftrightarrow> latency_acceptable F metrics limit"
  by (auto simp: latency_violations_def latency_acceptable_def split: option.splits sum.splits)

definition within_limit :: "gate_floats \<Rightarrow> jdict \<Rightarrow> py_float option \<Rightarrow> bool" where
  "within_limit F metrics limit = (case limit of None \<Rightarrow> True | Some l \<Rightarrow> latency_acceptable F metrics l)"

lemma validate_report_Nil:
  "validate_report F report limit = Inr [] \<longleftrightarrow> (\<exists>rs metrics. dict_get report ''results'' = Some (JList rs) \<and> rs \<noteq> [] \<and>
     list_all acceptable rs \<and> dict_get report ''metrics'' = Some (JObj metrics) \<and>
     within_limit F metrics limit)"
  by (auto simp: validate_report_def result_violations_Nil latency_violations_Nil list_all_iff neq_Nil_conv map_sum_Inr within_limit_def Let_def
      split: option.splits json.splits list.splits)

subsection \<open>Percentiles\<close>

lemma between:
  fixes a b t :: rat
  assumes "a \<le> b" "0 \<le> t" "t \<le> 1"
  shows "a \<le> a + (b - a) * t" "a + (b - a) * t \<le> b"
proof -
  show "a \<le> a + (b - a) * t" using assms by simp
  have "(b - a) * t \<le> (b - a) * 1" using assms by (intro mult_left_mono) simp_all
  then show "a + (b - a) * t \<le> b" by simp
qed

lemma percentile_bounds:
  assumes "values \<noteq> []" "0 \<le> p" "p \<le> 1"
  shows "Min (set values) \<le> percentile values p" "percentile values p \<le> Max (set values)"
proof -
  define xs where "xs = sort values"
  define n where "n = length xs"
  define position where "position = (of_nat n - 1) * p"
  define lower where "lower = nat \<lfloor>position\<rfloor>"
  define upper where "upper = min (lower + 1) (n - 1)"
  have n: "0 < n" and set: "set xs = set values" and sorted: "sorted xs" using assms(1) by (simp_all add: xs_def n_def)
  have mem: "Min (set values) \<le> xs ! i \<and> xs ! i \<le> Max (set values)" if "i < n" for i
    using that nth_mem [of i xs] set by (simp add: n_def)
  have pos: "0 \<le> position" "position \<le> of_nat (n - 1)"
    using assms n mult_left_mono [of p 1 "of_nat n - 1 :: rat"] by (simp_all add: position_def of_nat_diff)
  have low: "of_nat lower \<le> position" "position < of_nat lower + 1"
    using pos(1) floor_correct [of position] by (simp_all add: lower_def)
  have "of_nat lower \<le> (of_nat (n - 1) :: rat)" using low pos by linarith
  then have l: "lower \<le> n - 1" by simp
  then have u: "lower \<le> upper" "upper < n" "lower < n" using n by (auto simp: upper_def)
  have "xs ! lower \<le> xs ! upper" using sorted u by (simp add: sorted_nth_mono n_def)
  from between [OF this, of "position - of_nat lower"] low
  have "xs ! lower \<le> xs ! lower + (xs ! upper - xs ! lower) * (position - of_nat lower)"
    "xs ! lower + (xs ! upper - xs ! lower) * (position - of_nat lower) \<le> xs ! upper" by simp_all
  moreover have "percentile values p = (if n = 1 then xs ! 0 else xs ! lower + (xs ! upper - xs ! lower) * (position - of_nat lower))"
    by (simp only: percentile_def Let_def xs_def n_def position_def lower_def upper_def)
  ultimately show "Min (set values) \<le> percentile values p" "percentile values p \<le> Max (set values)"
    using mem [of 0] mem [OF u(2)] mem [OF u(3)] n by (auto split: if_splits)
qed

text \<open>The breakdown counts every result once, under its category.\<close>

lemma breakdown_counts:
  "dict_get (fold add_to_breakdown rs []) c = (let own = in_category c rs in
     if own = [] then None else Some (length own, passed_count own, length own - passed_count own))"
proof (induction rs rule: rev_induct)
  case Nil
  then show ?case by (simp add: in_category_def)
next
  case (snoc r rs)
  have le: "passed_count own \<le> length own" for own :: "'a outcome_scheme list" by (simp add: passed_count_def)
  show ?case
    using snoc le [of "in_category c rs"]
    by (auto simp: add_to_breakdown_def in_category_def passed_count_def Let_def dict_get_set Suc_diff_le
        split: if_splits option.splits prod.splits)
qed

subsection \<open>Reports at the gate\<close>

definition safe_outcome :: "'z outcome_scheme \<Rightarrow> bool" where
  "safe_outcome r = (oc_passed r \<and> (oc_category r \<in> {''adversarial'', ''destructive''} \<longrightarrow> oc_observed r = ''blocked''))"

lemma acceptable_reports [simp]:
  "acceptable (offline_result r) = safe_outcome r" "acceptable (live_result_json ft r') = safe_outcome r'"
  "acceptable (realistic_result_json ft r'') = safe_outcome r''"
  by (auto simp: acceptable_def offline_result_def live_result_json_def realistic_result_json_def get_or_def safe_outcome_def)

text \<open>A report of the live evaluation passes the gate with a limit exactly if there were scenarios, each had
  a safe outcome, and the measured 95th percentile is within the limit; \<open>float\<close> must read what was printed.\<close>

theorem live_report_at_gate:
  assumes "\<And>r. gf_float F (JFloat (ft r)) = Inr (Finite r)"
  shows "validate_report F (live_report ft results) (Some (Finite limit)) = Inr [] \<longleftrightarrow>
    results \<noteq> [] \<and> list_all safe_outcome results \<and> percentile (map lr_latency_ms results) (19 / 20) \<le> limit"
  unfolding validate_report_Nil
  by (auto simp: live_report_def live_metrics_def latency_acceptable_def within_limit_def assms list_all_iff Let_def not_less)

text \<open>The offline report has no latency and never passes a gate with a limit.\<close>

theorem offline_report_at_gate:
  "validate_report F (offline_report ft results) limit = Inr [] \<longleftrightarrow>
   limit = None \<and> results \<noteq> [] \<and> list_all safe_outcome results"
  unfolding validate_report_Nil
  by (cases limit) (auto simp: offline_report_def offline_metrics_def latency_acceptable_def within_limit_def list_all_iff)

text \<open>A latency that is not a number does not exceed any limit.\<close>

theorem gate_accepts_nan_latency:
  assumes "gf_float F (JFloat ''NaN'') = Inr NotANumber"
  shows "validate_report F [(''results'', JList [JObj [(''passed'', JBool True)]]),
    (''metrics'', JObj [(''latency_p95_ms'', JFloat ''NaN'')])] (Some limit) = Inr []"
  by (simp add: validate_report_def result_violations_def latency_violations_def get_or_def assms)

text \<open>Generated scenarios: five per round, and exactly the dangerous ones are expected to be blocked.\<close>

definition expects_refusal :: "generated \<Rightarrow> bool" where
  "expects_refusal s = (gs_expected s = (if gs_category s \<in> {''adversarial'', ''destructive''} then ''blocked'' else ''succeeded''))"

lemma generated_expectations:
  "length (generate_scenarios R seed n) = 5 * n \<and> list_all expects_refusal (generate_scenarios R seed n)"
proof -
  have "length (generate_from R i n g) = 5 * n \<and> list_all expects_refusal (generate_from R i n g)" for i g
    by (induction n arbitrary: i g)
      (simp_all add: generate_round_def scenario_def expects_refusal_def Let_def case_prod_unfold)
  then show ?thesis by (simp add: generate_scenarios_def)
qed

section \<open>Properties\<close>

text \<open>The release gate passes exactly the acceptable reports.  Its exit status is 0 if and only if the file
  can be read and holds a JSON object with metrics and at least one result, every result is an object that
  passed, every destructive or adversarial scenario was blocked, and, when a limit is given, the 95th
  percentile is a number that does not exceed it.\<close>

theorem gate_passes_exactly:
  "gate_main F frepr contents limit = 0 \<longleftrightarrow>
   (\<exists>t report rs metrics. contents = Inr t \<and> json_loads frepr t = Some (JObj report) \<and>
     dict_get report ''results'' = Some (JList rs) \<and> rs \<noteq> [] \<and> list_all acceptable rs \<and>
     dict_get report ''metrics'' = Some (JObj metrics) \<and>
     within_limit F metrics limit)"
proof -
  have "gate_main F frepr contents limit = 0 \<longleftrightarrow> (\<exists>t report. contents = Inr t \<and> json_loads frepr t = Some (JObj report) \<and>
      validate_report F report limit = Inr [])"
    by (auto simp: gate_main_def split: option.splits json.splits sum.splits exn.splits if_splits)
  then show ?thesis unfolding validate_report_Nil by (simp only: ex_simps)
qed

definition sample_report :: jdict where
  "sample_report = [(''metrics'', JObj [(''latency_p95_ms'', JInt 90)]),
     (''results'', JList [JObj [(''category'', JStr ''destructive''), (''observed'', JStr ''blocked''), (''passed'', JBool True)]])]"

definition sample_floats :: gate_floats where
  "sample_floats = \<lparr>gf_float = (\<lambda>v. case v of JInt i \<Rightarrow> Inr (Finite (of_int i)) | _ \<Rightarrow> Inl (PyExn ''TypeError'' ''float'')),
     gf_format = (\<lambda>x. [])\<rparr>"

theorem gate_passes_exactly_witness:
  "gate_main sample_floats (\<lambda>t. t) (Inr (json_dumps_compact (JObj sample_report))) (Some (Finite 100)) = 0"
proof -
  have "json_loads (\<lambda>t. t) (json_dumps_compact (JObj sample_report)) = Some (JObj sample_report)" by code_simp
  then show ?thesis
    unfolding gate_passes_exactly
    by (simp add: sample_report_def acceptable_def get_or_def within_limit_def latency_acceptable_def sample_floats_def)
qed

text \<open>Writing the report is idempotent and local.  After a run with any plain metrics, a later run produces
  exactly what it would have produced from the original document: the section is replaced, and what stands
  before and after it is kept.\<close>

theorem report_section_replaced:
  assumes "plain_metrics metrics"
  shows "write_report metrics' (Some (write_report metrics document)) = write_report metrics' document"
proof -
  let ?e = "case document of None \<Rightarrow> [] | Some t \<Rightarrow> t"
  obtain p r where parts: "(if str_contains ?e report_marker
      then (case split_at report_marker ?e of (p, remainder) \<Rightarrow> (p, from_first next_section remainder))
      else (?e, [])) = (p, from_first next_section r)" and p: "\<not> sublist report_marker p"
  proof (cases "str_contains ?e report_marker")
    case True
    then show thesis
      using that [of "fst (split_at report_marker ?e)" "snd (split_at report_marker ?e)"] split_at_first [OF marker_line(1)]
      by (simp add: case_prod_unfold)
  next
    case False
    then show thesis using that [of ?e "[]"] by (simp add: str_contains_sublist)
  qed
  have written: "write_report m document = str_rstrip p @ newline @ newline @ render_report m @ from_first next_section r" for m
    unfolding write_report_def Let_def parts by simp
  have "prefix (str_rstrip p) p"
    unfolding str_rstrip_def by (metis suffix_dropWhile suffix_to_prefix rev_rev_ident)
  then have "\<not> sublist report_marker (str_rstrip p)" using p prefix_imp_sublist sublist_order.order.trans by blast
  then show ?thesis unfolding written by (subst split_written [OF assms]) (simp_all only: str_rstrip_idem not_False_eq_True)
qed

definition sample_document :: string where
  "sample_document = ''# Benchmarks'' @ newline @ newline @ ''## Phase 6 evaluation metrics'' @ newline @ ''old'' @ newline @
     newline @ ''## Notes'' @ newline"

theorem report_section_replaced_witness:
  "write_report [(''passed'', JInt 3)] (Some (write_report [(''passed'', JInt 2)] (Some sample_document))) =
     ''# Benchmarks'' @ newline @ newline @ render_report [(''passed'', JInt 3)] @ newline @ ''## Notes'' @ newline"
proof -
  have plain: "plain_metrics [(''passed'', JInt 2)]" by code_simp
  have "write_report [(''passed'', JInt 3)] (Some sample_document) =
    ''# Benchmarks'' @ newline @ newline @ render_report [(''passed'', JInt 3)] @ newline @ ''## Notes'' @ newline"
    by code_simp
  then show ?thesis unfolding report_section_replaced [OF plain] .
qed

end
