(* ===== verification/Json_Indent.thy ===== *)
theory Json_Indent
  imports Json_Loads
begin

text \<open>
  \<open>json.dumps(v, indent=2, sort_keys=True)\<close>, the layout of the report files, and that \<open>json.loads\<close> reads it
  back.
\<close>

definition line_break :: "nat \<Rightarrow> string" where
  "line_break depth = CHR 0x0A # replicate (2 * depth) (CHR '' '')"

primrec json_indent :: "json \<Rightarrow> nat \<Rightarrow> string" where
  "json_indent JNull d = ''null''"
| "json_indent (JBool b) d = (if b then ''true'' else ''false'')"
| "json_indent (JInt i) d = str_of_int i"
| "json_indent (JFloat r) d = r"
| "json_indent (JStr s) d = json_quote s"
| "json_indent (JList xs) d = (if xs = [] then ''[]''
     else CHR ''['' # line_break (Suc d) @ join (CHR '','' # line_break (Suc d)) (map (\<lambda>f. f (Suc d)) (map json_indent xs)) @
       line_break d @ '']'')"
| "json_indent (JObj kvs) d = (if kvs = [] then ''{}''
     else CHR ''{'' # line_break (Suc d) @ join (CHR '','' # line_break (Suc d))
         (map (\<lambda>kf. json_quote (fst kf) @ '': '' @ snd kf (Suc d)) (map (map_prod id json_indent) kvs)) @
       line_break d @ ''}'')"

definition json_dumps_indent :: "json \<Rightarrow> string" where
  "json_dumps_indent v = json_indent (json_sort v) 0"

lemma line_break_ws [simp]: "list_all json_ws (line_break d)"
  by (simp add: line_break_def json_ws_def list_all_iff)

lemma indent_seps: "seps_ok (CHR '','' # line_break d) '': ''"
  unfolding seps_ok_def by (intro exI [of _ "line_break d"] exI [of _ "'' ''"]) (simp add: json_ws_def)

lemma indent_scalar: "scalar v \<Longrightarrow> json_indent v d = json_render isep ksep v"
  by (cases v) simp_all

lemma indent_starts:
  assumes "json_wf frepr v"
  shows "starts_value (json_indent v d)"
proof (cases "scalar v")
  case True
  then show ?thesis using reads_starts [OF assms, of "[]" "[]"] by (simp add: indent_scalar [of v d "[]" "[]"])
next
  case False
  then show ?thesis by (cases v) (auto simp: starts_value_def json_ws_def)
qed

lemma reads_indent_scalar: "json_wf frepr v \<Longrightarrow> scalar v \<Longrightarrow> reads frepr v (json_indent v d)"
  unfolding indent_scalar [of v d "[]" "[]"] by (rule reads_scalar)

lemma reads_indent: "json_wf frepr v \<Longrightarrow> reads frepr v (json_indent v d)"
proof (induction v arbitrary: d)
  case (JList xs)
  have x: "reads frepr x (json_indent x (Suc d)) \<and> starts_value (json_indent x (Suc d))" if "x \<in> set xs" for x
    using JList that by (auto simp: list_all_iff intro: indent_starts)
  show ?case
  proof (cases "xs = []")
    case True
    then show ?thesis using reads_list [where lw = "[]" and tw = "[]" and xs = "[]" and r = "\<lambda>x. []", OF indent_seps] by simp
  next
    case False
    with reads_list [where r = "\<lambda>x. json_indent x (Suc d)", OF indent_seps line_break_ws line_break_ws x] show ?thesis
      by (simp add: comp_def)
  qed
next
  case (JObj kvs)
  have p: "reads frepr (snd p) (json_indent (snd p) (Suc d)) \<and> starts_value (json_indent (snd p) (Suc d))" if "p \<in> set kvs" for p
    using JObj.IH [OF that snd_snds] json_wf_member [OF JObj.prems that] by (auto intro: indent_starts)
  show ?case
  proof (cases "kvs = []")
    case True
    then show ?thesis using reads_obj [where lw = "[]" and tw = "[]" and kvs = "[]" and r = "\<lambda>x. []", OF indent_seps] by simp
  next
    case False
    have "distinct (dict_keys kvs)" using JObj.prems by simp
    from reads_obj [where r = "\<lambda>x. json_indent x (Suc d)", OF indent_seps line_break_ws line_break_ws this p] False show ?thesis
      by (simp add: comp_def)
  qed
qed (auto intro!: reads_indent_scalar simp del: json_indent.simps json_wf.simps)

text \<open>A document followed by blanks.\<close>

lemma json_loads_indent:
  assumes "json_wf frepr v" and "list_all json_ws w"
  shows "json_loads frepr (json_dumps_indent v @ w) = Some (json_sort v)"
proof -
  let ?t = "json_dumps_indent v"
  have wf: "json_wf frepr (json_sort v)" by (rule json_wf_sort [OF assms(1)])
  have "delim w" using delim_ws [OF assms(2), of "[]"] by (simp add: delim_def)
  then have "scan_value frepr (Suc (2 * length (?t @ w))) (?t @ w) = Some (json_sort v, w)"
    by (intro readsD) (simp_all add: json_dumps_indent_def reads_indent [OF wf])
  moreover have "skip_ws (?t @ w) = ?t @ w"
    using indent_starts [OF wf, of 0] by (auto simp: starts_value_def json_dumps_indent_def)
  moreover have "skip_ws w = []" using skip_ws_append [OF assms(2), of "[]"] by (simp add: skip_ws_def)
  ultimately show ?thesis by (simp add: json_loads_def del: scan_value.simps)
qed

end
