(* ===== verification/Eval_Programs.thy ===== *)
theory Eval_Programs
  imports Eval Json_Indent Tools Config
begin

text \<open>
  The evaluation programs from end to end: the offline harness with its settings and its report file, the
  environment in which the live benchmark, the seeded benchmark and the demo client start the gateway, and
  the demo client.  The file a harness writes is the one the release gate reads.
\<close>

section \<open>The report file\<close>

definition write_json :: "jdict \<Rightarrow> string" where
  "write_json payload = json_dumps_indent (JObj payload) @ newline"

text \<open>The settings of the offline harness.\<close>

definition evaluation_settings :: settings where
  "evaluation_settings = default_settings\<lparr>cfg_environment := Test, cfg_database_path := ''data/eval.sqlite'',
     cfg_state_store_backend := MemoryBackend\<rparr>"

text \<open>The run and its report; \<open>seed\<close> seeds the database file with the orders (\<open>Db_Query\<close>).\<close>

definition evaluate_offline :: "(string \<Rightarrow> ('x, unit) aio) \<Rightarrow> 'x tool_host \<Rightarrow> (rat \<Rightarrow> string) \<Rightarrow> string \<Rightarrow> (string \<times> json) list \<Rightarrow>
    (mem_store, 'q, 'x, jdict) gio" where
  "evaluate_offline seed H ft trace_id files =
     bind_io (on_ext (seed (cfg_database_path evaluation_settings))) (\<lambda>u.
     bind_io (lift_res (create_registry H (cfg_database_path evaluation_settings) None)) (\<lambda>registry.
     run_evaluation registry ft trace_id files))"

section \<open>Launched gateways\<close>

type_synonym process_environment = "(string, string) dict"

definition update_environment :: "process_environment \<Rightarrow> (string \<times> string) list \<Rightarrow> process_environment" where
  "update_environment env changes = fold (\<lambda>(k, v). dict_set k v) changes env"

definition live_environment :: "process_environment \<Rightarrow> process_environment" where
  "live_environment env = update_environment env [(''GATEWAY_ENVIRONMENT'', ''development''),
     (''GATEWAY_STATE_STORE_BACKEND'', ''redis''), (''GATEWAY_APPROVAL_TIMEOUT_SECONDS'', ''2'')]"

fun repair_provider_text :: "repair_provider \<Rightarrow> string" where
  "repair_provider_text OpenAICompatible = ''openai_compatible''"
| "repair_provider_text AnthropicProvider = ''anthropic''"

definition realistic_environment :: "(rat \<Rightarrow> string) \<Rightarrow> settings \<Rightarrow> string \<Rightarrow> process_environment \<Rightarrow> process_environment" where
  "realistic_environment ft s audit_path env =
     (let env1 = update_environment env [(''GATEWAY_ENVIRONMENT'', ''development''),
            (''GATEWAY_STATE_STORE_BACKEND'', ''redis''),
            (''GATEWAY_APPROVAL_TIMEOUT_SECONDS'', ''2''),
            (''GATEWAY_AUDIT_LOG_PATH'', audit_path),
            (''GATEWAY_REPAIR_ENABLED'', if cfg_repair_enabled s then ''true'' else ''false''),
            (''GATEWAY_REPAIR_LLM_PROVIDER'', repair_provider_text (cfg_repair_llm_provider s)),
            (''GATEWAY_REPAIR_LLM_URL'', cfg_repair_llm_url s),
            (''GATEWAY_REPAIR_LLM_MODEL'', cfg_repair_llm_model s),
            (''GATEWAY_REPAIR_LLM_TIMEOUT_SECONDS'', ft (cfg_repair_llm_timeout_seconds s)),
            (''GATEWAY_REPAIR_LLM_ANTHROPIC_VERSION'', cfg_repair_llm_anthropic_version s),
            (''GATEWAY_REPAIR_LLM_MAX_TOKENS'', str_of_int (cfg_repair_llm_max_tokens s))]
      in case cfg_repair_llm_api_key s of
           None \<Rightarrow> env1
         | Some key \<Rightarrow> dict_set ''GATEWAY_REPAIR_LLM_API_KEY'' key env1)"

definition demo_environment :: "string option \<Rightarrow> process_environment \<Rightarrow> process_environment" where
  "demo_environment database_path env =
     (let env1 = update_environment env [(''GATEWAY_APPROVAL_TIMEOUT_SECONDS'',
            case dict_get env ''GATEWAY_APPROVAL_TIMEOUT_SECONDS'' of Some v \<Rightarrow> v | None \<Rightarrow> ''300'')]
      in case database_path of None \<Rightarrow> env1 | Some p \<Rightarrow> dict_set ''GATEWAY_DATABASE_PATH'' p env1)"

section \<open>The demo client\<close>

text \<open>A session of the MCP client: the listed tools and the calls.\<close>

record 'x demo_session =
  ds_list_tools :: "('x, mcp_tool_info list) aio"
  ds_call_tool :: "string \<Rightarrow> jdict \<Rightarrow> ('x, call_tool_result) aio"

record demo_report =
  dr_tools :: "jdict list"
  dr_db_query :: jdict
  dr_shell_exec :: jdict

text \<open>What the client prints of a listed tool.\<close>

definition listed_tool :: "mcp_tool_info \<Rightarrow> jdict" where
  "listed_tool t = [(''name'', JStr (mt_name t)), (''description'', JStr (mt_description t)),
     (''input_schema'', JObj (mt_input_schema t)),
     (''risk_class'', case dict_get (mt_meta t) ''gateway/riskClass'' of None \<Rightarrow> JNull | Some v \<Rightarrow> JStr v)]"

definition run_demo :: "'x demo_session \<Rightarrow> ('x, demo_report) aio" where
  "run_demo S = bind_io (ds_list_tools S) (\<lambda>listed.
     bind_io (ds_call_tool S ''db_query'' [(''query'', JStr (''SELECT order_id, customer_name, status '' @
       ''FROM orders WHERE status = :status ORDER BY order_id'')), (''parameters'', JObj [(''status'', JStr ''pending'')])]) (\<lambda>database_result.
     bind_io (ds_call_tool S ''shell_exec'' [(''command'', JStr ''printf phase-1'')]) (\<lambda>shell_result.
     ret \<lparr>dr_tools = map listed_tool listed, dr_db_query = cr_structured database_result,
          dr_shell_exec = cr_structured shell_result\<rparr>)))"

section \<open>The programs\<close>

text \<open>A program writes its report to a file and prints the metrics.\<close>

record program_output =
  po_path :: string
  po_file :: string
  po_stdout :: string

definition printed_metrics :: "jdict \<Rightarrow> exn + string" where
  "printed_metrics report = (case dict_get report ''metrics'' of
       None \<Rightarrow> Inl (PyExn ''KeyError'' ''metrics'')
     | Some m \<Rightarrow> Inr (json_dumps_indent m @ newline))"

definition reporting :: "string \<Rightarrow> ('w, jdict) aio \<Rightarrow> ('w, program_output) aio" where
  "reporting path evaluation = bind_io evaluation (\<lambda>report.
     let text_written = write_json report in
     bind_io (lift_res (printed_metrics report)) (\<lambda>out.
     ret \<lparr>po_path = path, po_file = text_written, po_stdout = out\<rparr>))"

definition harness_main :: "(string \<Rightarrow> ('x, unit) aio) \<Rightarrow> 'x tool_host \<Rightarrow> (rat \<Rightarrow> string) \<Rightarrow> string \<Rightarrow> (string \<times> json) list \<Rightarrow>
    (mem_store, 'q, 'x, program_output) gio" where
  "harness_main seed H ft trace_id files = reporting ''eval/results.json'' (evaluate_offline seed H ft trace_id files)"

definition live_main :: "'x live_session \<Rightarrow> (rat \<Rightarrow> string) \<Rightarrow> (string \<times> json) list \<Rightarrow> ('x, program_output) aio" where
  "live_main L ft files = reporting ''eval/live-results.json'' (run_live_evaluation L ft files)"

text \<open>The command line of the seeded benchmark, and what its report says about the run.\<close>

record realistic_arguments =
  ra_seed :: int
  ra_repetitions :: int
  ra_output :: string

definition default_realistic_arguments :: realistic_arguments where
  "default_realistic_arguments = \<lparr>ra_seed = 20260910, ra_repetitions = 5, ra_output = ''eval/realistic-results.json''\<rparr>"

definition run_description :: "settings \<Rightarrow> int \<Rightarrow> int \<Rightarrow> jdict" where
  "run_description s seed repetitions = [(''seed'', JInt seed), (''repetitions'', JInt repetitions),
     (''scenario_generation'', JStr ''seeded_random_v1''), (''repair_enabled'', JBool (cfg_repair_enabled s)),
     (''repair_provider'', JStr (repair_provider_text (cfg_repair_llm_provider s))),
     (''repair_model'', JStr (cfg_repair_llm_model s))]"

text \<open>\<open>random\<close> is \<open>random.Random\<close>; a negative number of repetitions is an empty range.\<close>

definition realistic_main :: "'x live_session \<Rightarrow> 'g generator \<Rightarrow> (int \<Rightarrow> 'g) \<Rightarrow> (rat \<Rightarrow> string) \<Rightarrow> (string \<Rightarrow> string) \<Rightarrow> settings \<Rightarrow>
    realistic_arguments \<Rightarrow> ('x, program_output) aio" where
  "realistic_main L R random ft frepr configured a = reporting (ra_output a)
     (run_realistic_evaluation L R ft frepr (run_description configured (ra_seed a) (ra_repetitions a))
        (random (ra_seed a)) (nat (ra_repetitions a)))"

text \<open>\<open>_percentile\<close> is written out a second time in \<open>realistic.py\<close>, over values that are never empty.\<close>

definition realistic_percentile :: "rat list \<Rightarrow> rat \<Rightarrow> rat" where
  "realistic_percentile values p = (let ordered = sort values in
     if length ordered = 1 then ordered ! 0
     else let position = of_nat (length ordered - 1) * p; lower = nat \<lfloor>position\<rfloor>;
              upper = min (lower + 1) (length ordered - 1)
          in ordered ! lower + (ordered ! upper - ordered ! lower) * (position - of_nat lower))"

text \<open>The command that starts the gateway under the three clients.\<close>

record server_parameters =
  sv_command :: string
  sv_args :: "string list"
  sv_cwd :: string
  sv_env :: process_environment

definition gateway_process :: "string \<Rightarrow> string \<Rightarrow> process_environment \<Rightarrow> server_parameters" where
  "gateway_process executable cwd env =
     \<lparr>sv_command = executable, sv_args = [''-m'', ''gateway.server''], sv_cwd = cwd, sv_env = env\<rparr>"

text \<open>The smoke test of the sandbox: the exit code and the stripped output that it prints.  \<open>runner\<close> is
  \<open>SandboxRunner\<close> with its other arguments left to their defaults.\<close>

definition sandbox_probe :: "'x docker \<Rightarrow> (sandbox_runtime \<Rightarrow> sandbox_runner) \<Rightarrow> process_environment \<Rightarrow> ('x, int \<times> string) aio" where
  "sandbox_probe D runner env =
     bind_io (lift_res (SandboxRuntime (case dict_get env ''GATEWAY_SANDBOX_RUNTIME'' of Some v \<Rightarrow> v | None \<Rightarrow> ''hardened-docker''))) (\<lambda>runtime.
     bind_io (lift_res (profile_for_tool ''shell_exec'' ''.'')) (\<lambda>profile.
     bind_io (sandbox_run D (runner runtime) [''python'', ''-c'', ''print('' @ [CHR 0x27] @ ''sandbox-ok'' @ [CHR 0x27] @ '')''] profile [] None) (\<lambda>result.
     ret (sbr_exit_code result, str_strip (sbr_stdout result)))))"

section \<open>Lemmas\<close>

text \<open>Both benchmarks start the gateway outside the test environment, so that it asks OPA; the demo client leaves the
  choice to its own environment.\<close>

lemma update_environment_get:
  "dict_get (update_environment env changes) k = (case map_of (rev changes) k of Some v \<Rightarrow> Some v | None \<Rightarrow> dict_get env k)"
  unfolding update_environment_def
  by (induction changes arbitrary: env) (auto simp: dict_get_set map_add_def split: option.splits)

lemma benchmarks_enforce_policy:
  "dict_get (live_environment env) ''GATEWAY_ENVIRONMENT'' = Some ''development''"
  "dict_get (realistic_environment ft s audit_path env) ''GATEWAY_ENVIRONMENT'' = Some ''development''"
  "dict_get (demo_environment path env) ''GATEWAY_ENVIRONMENT'' = dict_get env ''GATEWAY_ENVIRONMENT''"
  by (simp_all add: live_environment_def realistic_environment_def demo_environment_def Let_def update_environment_get dict_get_set
      split: option.split)

text \<open>Sorting the keys changes no verdict.\<close>

lemma json_sort_scalar: "scalar v \<Longrightarrow> json_sort v = v"
  by (cases v) simp_all

lemma acceptable_sort:
  assumes "distinct (dict_keys d)" and "\<And>k v. dict_get d k = Some v \<Longrightarrow> k \<in> {''passed'', ''category'', ''observed''} \<Longrightarrow> scalar v"
  shows "acceptable (json_sort (JObj d)) = acceptable (JObj d)"
proof -
  have "dict_get (sort_key fst (map (map_prod id json_sort) d)) k = dict_get d k" if "k \<in> {''passed'', ''category'', ''observed''}" for k
    using assms(2) that json_sort_get [OF assms(1), of k] by (cases "dict_get d k") (auto simp: json_sort_scalar)
  then show ?thesis by (simp add: acceptable_def get_or_def)
qed

lemma sorted_results:
  "acceptable (json_sort (offline_result r)) = safe_outcome r" "acceptable (json_sort (live_result_json ft l)) = safe_outcome l"
proof -
  have "acceptable (json_sort (offline_result r)) = acceptable (offline_result r)"
    unfolding offline_result_def by (rule acceptable_sort) (auto split: if_splits)
  then show "acceptable (json_sort (offline_result r)) = safe_outcome r" by simp
  have "acceptable (json_sort (live_result_json ft l)) = acceptable (live_result_json ft l)"
    unfolding live_result_json_def by (rule acceptable_sort) (auto split: if_splits)
  then show "acceptable (json_sort (live_result_json ft l)) = safe_outcome l" by simp
qed

lemma reports_wf:
  assumes "\<And>r. json_wf frepr (JFloat (ft r))"
  shows "json_wf frepr (JObj (offline_report ft offline))" "json_wf frepr (JObj (live_report ft live))"
  using assms
  by (simp_all add: offline_report_def offline_metrics_def offline_result_def live_report_def live_metrics_def live_result_json_def
      list_all_iff Let_def)

lemma gate_on_written:
  assumes "json_wf frepr (JObj report)"
  shows "gate_main F frepr (Inr (write_json report)) limit = 0 \<longleftrightarrow>
    validate_report F (sort_key fst (map (map_prod id json_sort) report)) limit = Inr []"
proof -
  have "json_loads frepr (write_json report) = Some (json_sort (JObj report))"
    unfolding write_json_def by (rule json_loads_indent [OF assms]) (simp add: json_ws_def)
  then show ?thesis by (auto simp: gate_main_def split: sum.splits)
qed

lemma validate_sorted:
  assumes "report = [(''metrics'', JObj metrics), (''results'', JList rs)]" and "distinct (dict_keys metrics)"
    and "\<And>v. dict_get metrics ''latency_p95_ms'' = Some v \<Longrightarrow> scalar v"
  shows "validate_report F (sort_key fst (map (map_prod id json_sort) report)) limit = Inr [] \<longleftrightarrow>
    rs \<noteq> [] \<and> list_all acceptable (map json_sort rs) \<and> within_limit F metrics limit"
proof -
  let ?m = "sort_key fst (map (map_prod id json_sort) metrics)"
  have "distinct (dict_keys report)" by (simp add: assms(1))
  from json_sort_get [OF this] have "dict_get (sort_key fst (map (map_prod id json_sort) report)) ''results'' = Some (JList (map json_sort rs))"
    "dict_get (sort_key fst (map (map_prod id json_sort) report)) ''metrics'' = Some (JObj ?m)" by (simp_all add: assms(1))
  moreover have "dict_get ?m ''latency_p95_ms'' = dict_get metrics ''latency_p95_ms''"
    using json_sort_get [OF assms(2), of "''latency_p95_ms''"] assms(3)
    by (cases "dict_get metrics ''latency_p95_ms''") (simp_all add: json_sort_scalar)
  then have "within_limit F ?m limit = within_limit F metrics limit"
    by (cases limit) (simp_all add: within_limit_def latency_acceptable_def)
  ultimately show ?thesis unfolding validate_report_Nil by simp
qed

text \<open>The two percentiles agree on what the benchmarks give them.\<close>

lemma realistic_percentile_eq: "values \<noteq> [] \<Longrightarrow> realistic_percentile values p = percentile values p"
  by (simp add: realistic_percentile_def percentile_def Let_def of_nat_diff Suc_leI)

text \<open>What is printed is the metrics of the file.\<close>

lemma printed_is_written:
  assumes "reporting path evaluation w = (Inr out, w')"
    and "\<And>report. evaluation w = (Inr report, w') \<Longrightarrow> json_wf frepr (JObj report)"
  obtains d m where "json_loads frepr (po_file out) = Some (JObj d)" "dict_get d ''metrics'' = Some m"
    "json_loads frepr (po_stdout out) = Some m" "po_path out = path"
proof -
  obtain report m where run: "evaluation w = (Inr report, w')" and m: "dict_get report ''metrics'' = Some m"
    and out: "out = \<lparr>po_path = path, po_file = write_json report, po_stdout = json_dumps_indent m @ newline\<rparr>"
    using assms(1) by (auto simp: reporting_def printed_metrics_def bind_io_def lift_res_def ret_def split: prod.splits sum.splits option.splits)
  have wf: "json_wf frepr (JObj report)" by (rule assms(2) [OF run])
  then have keys: "distinct (dict_keys report)" by simp
  have wfm: "json_wf frepr m" using json_wf_member [OF wf map_of_SomeD [OF m]] by simp
  have nl: "list_all json_ws newline" by (simp add: json_ws_def)
  show thesis
    by (rule that [of "sort_key fst (map (map_prod id json_sort) report)" "json_sort m"])
      (simp_all add: out write_json_def json_loads_indent [OF wf nl] json_loads_indent [OF wfm nl] json_sort_get [OF keys] m del: json_wf.simps)
qed

section \<open>Properties\<close>


definition slow_run :: "live_result list" where
  "slow_run = [\<lparr>oc_name = ''drop table'', oc_category = ''destructive'', oc_expected = ''blocked'', oc_observed = ''blocked'',
     oc_passed = True, lr_latency_ms = 90\<rparr>]"

definition slow_floats :: gate_floats where
  "slow_floats = \<lparr>gf_float = (\<lambda>v. if v = JFloat ''90.0'' then Inr (Finite 90) else Inl (PyExn ''TypeError'' ''float'')),
     gf_format = (\<lambda>x. [])\<rparr>"


end
